(* ===== verification/Prelude.thy ===== *)
theory Prelude
  imports Main "HOL-Library.Word" "HOL-Library.AList"
begin

text \<open>
  Shared vocabulary of the development: the types of Go values the service handles, Go's
  error values and gRPC status codes, the state-and-error actions in which handlers are
  written, the integer conversions of Go, and the generic lemmas the components share.
\<close>

section \<open>Collections of facts\<close>

named_theorems act_simps \<open>unfolding of actions (state passing with early return)\<close>
named_theorems run_simps \<open>what a successful run of an action says\<close>
named_theorems go_simps \<open>characteristic equations of the Go standard library model\<close>
named_theorems inv_intros \<open>preservation of the service invariant, one fact per operation\<close>

section \<open>Types\<close>

type_synonym byte = "8 word"
type_synonym bytes = "byte list"
type_synonym uint32 = "32 word"

text \<open>A Go string is a byte sequence, and so is an Isabelle string (a char is one byte).\<close>

definition byte_of_char :: "char \<Rightarrow> byte" where
  "byte_of_char c = word_of_nat (of_char c)"

definition char_of_byte :: "byte \<Rightarrow> char" where
  "char_of_byte b = char_of (unat b)"

definition bytes_of_string :: "string \<Rightarrow> bytes" where
  "bytes_of_string s = map byte_of_char s"

definition string_of_bytes :: "bytes \<Rightarrow> string" where
  "string_of_bytes bs = map char_of_byte bs"

lemma of_char_lt_256: "(of_char c :: nat) < 256"
  by (metis mod_less_divisor of_char_mod_256 zero_less_numeral)

lemma byte_of_char_inverse [simp]: "char_of_byte (byte_of_char c) = c"
  using of_char_lt_256 [of c]
  by (simp add: byte_of_char_def char_of_byte_def unat_of_nat take_bit_eq_mod)

lemma char_of_byte_inverse [simp]: "byte_of_char (char_of_byte b) = b"
proof -
  have "unat b < 256"
    using unsigned_less [of b] by simp
  then show ?thesis
    by (simp add: byte_of_char_def char_of_byte_def)
qed

lemma bytes_of_string_inverse [simp]: "string_of_bytes (bytes_of_string s) = s"
  by (simp add: bytes_of_string_def string_of_bytes_def comp_def)

lemma string_of_bytes_inverse [simp]: "bytes_of_string (string_of_bytes bs) = bs"
  by (simp add: bytes_of_string_def string_of_bytes_def comp_def)

lemma length_bytes_of_string [simp]: "length (bytes_of_string s) = length s"
  by (simp add: bytes_of_string_def)

lemma length_string_of_bytes [simp]: "length (string_of_bytes bs) = length bs"
  by (simp add: string_of_bytes_def)

lemma string_of_bytes_eq_Nil [simp]: "string_of_bytes bs = [] \<longleftrightarrow> bs = []"
  by (simp add: string_of_bytes_def)

lemma bytes_of_string_eq_Nil [simp]: "bytes_of_string s = [] \<longleftrightarrow> s = []"
  by (simp add: bytes_of_string_def)

section \<open>Errors\<close>

text \<open>
  Go's \<^verbatim>\<open>error\<close> values. A gRPC status is itself an error; \<open>ErrWrap\<close> is
  \<^verbatim>\<open>fmt.Errorf\<close> with \<^verbatim>\<open>%w\<close>, which \<^verbatim>\<open>errors.Is\<close> looks through.
\<close>

datatype grpc_code =
    Code_OK | InvalidArgument | NotFound | AlreadyExists | PermissionDenied
  | FailedPrecondition | Internal | Unauthenticated

datatype goerr =
    Status grpc_code string
  | ErrText string
  | ErrWrap string goerr
  | ErrNotExist
  | ErrTxUnverified
  | ErrSnapshotNotFound

fun errors_is :: "goerr \<Rightarrow> goerr \<Rightarrow> bool" where
  "errors_is (ErrWrap m e) target = (ErrWrap m e = target \<or> errors_is e target)"
| "errors_is e target = (e = target)"

fun code_name :: "grpc_code \<Rightarrow> string" where
  "code_name Code_OK = ''OK''"
| "code_name InvalidArgument = ''InvalidArgument''"
| "code_name NotFound = ''NotFound''"
| "code_name AlreadyExists = ''AlreadyExists''"
| "code_name PermissionDenied = ''PermissionDenied''"
| "code_name FailedPrecondition = ''FailedPrecondition''"
| "code_name Internal = ''Internal''"
| "code_name Unauthenticated = ''Unauthenticated''"

fun error_text :: "goerr \<Rightarrow> string" where
  "error_text (Status c m) = ''rpc error: code = '' @ code_name c @ '' desc = '' @ m"
| "error_text (ErrText m) = m"
| "error_text (ErrWrap m e) = m @ '': '' @ error_text e"
| "error_text ErrNotExist = ''file does not exist''"
| "error_text ErrTxUnverified = ''transaction unverified''"
| "error_text ErrSnapshotNotFound = ''snapshot not found''"

section \<open>Actions: state passing with early return\<close>

text \<open>
  A method of the service is a function from the state to a result and the new state.
  \<open>bindE\<close> is Go's \<^verbatim>\<open>if err != nil { return nil, err }\<close> after a call: the state reached so far is
  kept, the rest of the body is skipped.
\<close>

type_synonym 'a result = "goerr + 'a"
type_synonym ('s, 'a) action = "'s \<Rightarrow> 'a result \<times> 's"

definition returnE :: "'a \<Rightarrow> ('s, 'a) action" where
  "returnE x = (\<lambda>s. (Inr x, s))"

definition throwE :: "goerr \<Rightarrow> ('s, 'a) action" where
  "throwE e = (\<lambda>s. (Inl e, s))"

definition bindE :: "('s, 'a) action \<Rightarrow> ('a \<Rightarrow> ('s, 'b) action) \<Rightarrow> ('s, 'b) action" where
  "bindE m f = (\<lambda>s. case m s of (Inl e, s') \<Rightarrow> (Inl e, s') | (Inr x, s') \<Rightarrow> f x s')"

definition liftR :: "'a result \<Rightarrow> ('s, 'a) action" where
  "liftR r = (\<lambda>s. (r, s))"

definition getS :: "('s \<Rightarrow> 'a) \<Rightarrow> ('s, 'a) action" where
  "getS f = (\<lambda>s. (Inr (f s), s))"

definition modifyS :: "('s \<Rightarrow> 's) \<Rightarrow> ('s, unit) action" where
  "modifyS f = (\<lambda>s. (Inr (), f s))"

text \<open>Handling an error value instead of returning it at once.\<close>

definition tryE :: "('s, 'a) action \<Rightarrow> ('s, 'a result) action" where
  "tryE m = (\<lambda>s. case m s of (r, s') \<Rightarrow> (Inr r, s'))"

lemma returnE_apply [act_simps]: "returnE x s = (Inr x, s)"
  by (simp add: returnE_def)

lemma throwE_apply [act_simps]: "throwE e s = (Inl e, s)"
  by (simp add: throwE_def)

lemma bindE_apply [act_simps]:
  "bindE m f s = (case m s of (Inl e, s') \<Rightarrow> (Inl e, s') | (Inr x, s') \<Rightarrow> f x s')"
  by (simp add: bindE_def)

lemma liftR_apply [act_simps]: "liftR r s = (r, s)"
  by (simp add: liftR_def)

lemma getS_apply [act_simps]: "getS f s = (Inr (f s), s)"
  by (simp add: getS_def)

lemma modifyS_apply [act_simps]: "modifyS f s = (Inr (), f s)"
  by (simp add: modifyS_def)

lemma tryE_apply [act_simps]: "tryE m s = (case m s of (r, s') \<Rightarrow> (Inr r, s'))"
  by (simp add: tryE_def)

lemma bindE_success [run_simps]:
  "bindE m f s = (Inr y, t) \<longleftrightarrow> (\<exists>x u. m s = (Inr x, u) \<and> f x u = (Inr y, t))"
  by (auto simp: bindE_def split: prod.splits sum.splits)

lemma bindE_cases:
  assumes "bindE m f s = (r, t)"
  obtains (fails) e where "m s = (Inl e, t)" and "r = Inl e"
    | (goes) x u where "m s = (Inr x, u)" and "f x u = (r, t)"
  using assms by (auto simp: bindE_def split: prod.splits sum.splits)

lemma returnE_success [run_simps]: "returnE x s = (Inr y, t) \<longleftrightarrow> y = x \<and> t = s"
  by (auto simp: returnE_def)

lemma throwE_success [run_simps]: "throwE e s = (Inr y, t) \<longleftrightarrow> False"
  by (simp add: throwE_def)

lemma liftR_success [run_simps]: "liftR r s = (Inr y, t) \<longleftrightarrow> r = Inr y \<and> t = s"
  by (auto simp: liftR_def)

lemma getS_success [run_simps]: "getS f s = (Inr y, t) \<longleftrightarrow> y = f s \<and> t = s"
  by (auto simp: getS_def)

lemma modifyS_success [run_simps]: "modifyS f s = (Inr y, t) \<longleftrightarrow> t = f s"
  by (auto simp: modifyS_def)

lemma bindE_returnE [simp]: "bindE (returnE x) f = f x"
  by (simp add: bindE_def returnE_def)

lemma bindE_assoc: "bindE (bindE m f) g = bindE m (\<lambda>x. bindE (f x) g)"
  by (rule ext) (simp add: bindE_def split: prod.splits sum.splits)

text \<open>
  A relation between the state before and after that is reflexive and transitive is kept
  by every composition of actions that keep it: the frame rule of the development.
\<close>

definition keeps :: "('s \<Rightarrow> 's \<Rightarrow> bool) \<Rightarrow> ('s, 'a) action \<Rightarrow> bool" where
  "keeps R m \<longleftrightarrow> (\<forall>s. R s (snd (m s)))"

locale frame_relation =
  fixes R :: "'s \<Rightarrow> 's \<Rightarrow> bool"
  assumes frame_refl: "R s s"
    and frame_trans: "R s t \<Longrightarrow> R t u \<Longrightarrow> R s u"
begin

lemma keeps_returnE: "keeps R (returnE x)"
  by (simp add: keeps_def returnE_def frame_refl)

lemma keeps_throwE: "keeps R (throwE e)"
  by (simp add: keeps_def throwE_def frame_refl)

lemma keeps_liftR: "keeps R (liftR r)"
  by (simp add: keeps_def liftR_def frame_refl)

lemma keeps_getS: "keeps R (getS f)"
  by (simp add: keeps_def getS_def frame_refl)

lemma keeps_tryE: "keeps R m \<Longrightarrow> keeps R (tryE m)"
  by (simp add: keeps_def tryE_def split_beta)

lemma keeps_bindE:
  assumes m: "keeps R m" and f: "\<And>x. keeps R (f x)"
  shows "keeps R (bindE m f)"
  unfolding keeps_def
proof
  fix s
  show "R s (snd (bindE m f s))"
  proof (cases "m s")
    case (Pair r t)
    have st: "R s t"
      using m Pair unfolding keeps_def by (metis snd_conv)
    show ?thesis
    proof (cases r)
      case (Inl e)
      with Pair st show ?thesis by (simp add: bindE_def)
    next
      case (Inr x)
      have "R t (snd (f x t))"
        using f unfolding keeps_def by blast
      with Pair Inr st show ?thesis
        by (simp add: bindE_def) (metis frame_trans)
    qed
  qed
qed

end

section \<open>Integer conversions of Go\<close>

text \<open>
  Signed Go integers are \<open>int\<close> values in range; \<open>to_int32\<close> and \<open>to_int64\<close> are the
  conversions \<^verbatim>\<open>int32(x)\<close> and \<^verbatim>\<open>int64(x)\<close>, which keep the low bits and read them as two's
  complement. The platform's \<^verbatim>\<open>int\<close> is 64 bits wide.
\<close>

definition to_int32 :: "int \<Rightarrow> int" where
  "to_int32 x = (x + 2 ^ 31) mod 2 ^ 32 - 2 ^ 31"

definition to_int64 :: "int \<Rightarrow> int" where
  "to_int64 x = (x + 2 ^ 63) mod 2 ^ 64 - 2 ^ 63"

definition in_int32 :: "int \<Rightarrow> bool" where
  "in_int32 x \<longleftrightarrow> - (2 ^ 31) \<le> x \<and> x < 2 ^ 31"

definition in_int64 :: "int \<Rightarrow> bool" where
  "in_int64 x \<longleftrightarrow> - (2 ^ 63) \<le> x \<and> x < 2 ^ 63"

lemma to_int32_range: "in_int32 (to_int32 x)"
  using pos_mod_bound [of "2 ^ 32 :: int" "x + 2 ^ 31"]
    pos_mod_sign [of "2 ^ 32 :: int" "x + 2 ^ 31"]
  by (simp add: to_int32_def in_int32_def)

lemma to_int32_id: "in_int32 x \<Longrightarrow> to_int32 x = x"
  by (simp add: to_int32_def in_int32_def)

lemma to_int64_range: "in_int64 (to_int64 x)"
  using pos_mod_bound [of "2 ^ 64 :: int" "x + 2 ^ 63"]
    pos_mod_sign [of "2 ^ 64 :: int" "x + 2 ^ 63"]
  by (simp add: to_int64_def in_int64_def)

lemma to_int64_id: "in_int64 x \<Longrightarrow> to_int64 x = x"
  by (simp add: to_int64_def in_int64_def)

text \<open>Durations: nanoseconds in an \<^verbatim>\<open>int64\<close>; the product of a count and a unit wraps.\<close>

definition time_Second :: int where "time_Second = 1000000000"
definition time_Millisecond :: int where "time_Millisecond = 1000000"
definition time_Minute :: int where "time_Minute = 60 * time_Second"
definition time_Hour :: int where "time_Hour = 60 * time_Minute"

section \<open>Lists\<close>

lemma append_sep_eq:
  assumes "c \<notin> set xs" and "c \<notin> set xs'" and "xs @ c # ys = xs' @ c # ys'"
  shows "xs = xs' \<and> ys = ys'"
  using assms
proof (induction xs arbitrary: xs')
  case Nil
  then show ?case by (cases xs') auto
next
  case (Cons x xs)
  then show ?case by (cases xs') auto
qed

lemma list_length2: "length xs = Suc (Suc 0) \<longleftrightarrow> (\<exists>a b. xs = [a, b])"
  by (auto simp: length_Suc_conv)

end
