(* ===== verification/Go_Encoding.thy ===== *)
theory Go_Encoding
  imports Go_Strings
begin

text \<open>
  Go's \<^verbatim>\<open>encoding/base64\<close> (the encodings \<^verbatim>\<open>RawURLEncoding\<close> and \<^verbatim>\<open>StdEncoding\<close>, both without
  \<^verbatim>\<open>Strict\<close>) and \<^verbatim>\<open>encoding/hex\<close>. Decoding follows Go: carriage returns and newlines are skipped
  anywhere, unused trailing bits are ignored, the padded form needs its padding and nothing after
  it. The interface the rest of the development uses is the locale \<open>codec\<close>.
\<close>

section \<open>Alphabets\<close>

definition std_alphabet :: string where
  "std_alphabet = ''ABCDEFGHIJKLMNOPQRSTUVWXYZabcdefghijklmnopqrstuvwxyz0123456789+/''"

definition url_alphabet :: string where
  "url_alphabet = ''ABCDEFGHIJKLMNOPQRSTUVWXYZabcdefghijklmnopqrstuvwxyz0123456789-_''"

definition sym_of :: "string \<Rightarrow> nat \<Rightarrow> char" where
  "sym_of alpha n = alpha ! n"

definition sym_val :: "string \<Rightarrow> char \<Rightarrow> nat option" where
  "sym_val alpha c = map_of (zip alpha [0..<64]) c"

definition wf_alphabet :: "string \<Rightarrow> bool" where
  "wf_alphabet alpha =
     (length alpha = 64 \<and> distinct alpha \<and> list_all (\<lambda>c. 33 \<le> (of_char c :: nat) \<and> of_char c < (128::nat)) alpha
      \<and> CHR ''='' \<notin> set alpha \<and> CHR ''.'' \<notin> set alpha \<and> CHR '':'' \<notin> set alpha)"

lemma wf_std [simp]: "wf_alphabet std_alphabet"
  by (simp add: wf_alphabet_def std_alphabet_def)

lemma wf_url [simp]: "wf_alphabet url_alphabet"
  by (simp add: wf_alphabet_def url_alphabet_def)

lemma sym_val_sym_of: "wf_alphabet alpha \<Longrightarrow> n < 64 \<Longrightarrow> sym_val alpha (sym_of alpha n) = Some n"
  unfolding sym_val_def sym_of_def wf_alphabet_def
  by (subst map_of_zip_nth) auto

lemma sym_of_in: "wf_alphabet alpha \<Longrightarrow> n < 64 \<Longrightarrow> sym_of alpha n \<in> set alpha"
  by (simp add: wf_alphabet_def sym_of_def)

lemma sym_val_lt: "sym_val alpha c = Some n \<Longrightarrow> n < 64"
  unfolding sym_val_def by (drule map_of_SomeD) (auto dest: set_zip_rightD)

section \<open>Encoding\<close>

text \<open>The sextets of one, two or three bytes.\<close>

definition sext1 :: "byte \<Rightarrow> nat \<times> nat" where
  "sext1 a = (unat a div 4, unat a mod 4 * 16)"

definition sext2 :: "byte \<Rightarrow> byte \<Rightarrow> nat \<times> nat \<times> nat" where
  "sext2 a b = (unat a div 4, unat a mod 4 * 16 + unat b div 16, unat b mod 16 * 4)"

definition sext3 :: "byte \<Rightarrow> byte \<Rightarrow> byte \<Rightarrow> nat \<times> nat \<times> nat \<times> nat" where
  "sext3 a b c =
     (unat a div 4, unat a mod 4 * 16 + unat b div 16, unat b mod 16 * 4 + unat c div 64, unat c mod 64)"

text \<open>\<open>pad\<close> is the padding character's text: empty for the raw encodings.\<close>

fun b64_encode :: "string \<Rightarrow> string \<Rightarrow> bytes \<Rightarrow> string" where
  "b64_encode alpha pad [] = []"
| "b64_encode alpha pad [a] =
     (case sext1 a of (x, y) \<Rightarrow> [sym_of alpha x, sym_of alpha y] @ pad @ pad)"
| "b64_encode alpha pad [a, b] =
     (case sext2 a b of (x, y, z) \<Rightarrow> [sym_of alpha x, sym_of alpha y, sym_of alpha z] @ pad)"
| "b64_encode alpha pad (a # b # c # bs) =
     (case sext3 a b c of (x, y, z, w) \<Rightarrow>
        [sym_of alpha x, sym_of alpha y, sym_of alpha z, sym_of alpha w] @ b64_encode alpha pad bs)"

definition RawURL_EncodeToString :: "bytes \<Rightarrow> string" where
  "RawURL_EncodeToString = b64_encode url_alphabet []"

definition Std_EncodeToString :: "bytes \<Rightarrow> string" where
  "Std_EncodeToString = b64_encode std_alphabet ''=''"

section \<open>Decoding\<close>

definition byte_xy :: "nat \<Rightarrow> nat \<Rightarrow> byte" where
  "byte_xy x y = word_of_nat (x * 4 + y div 16)"

definition byte_yz :: "nat \<Rightarrow> nat \<Rightarrow> byte" where
  "byte_yz y z = word_of_nat (y mod 16 * 16 + z div 4)"

definition byte_zw :: "nat \<Rightarrow> nat \<Rightarrow> byte" where
  "byte_zw z w = word_of_nat (z mod 4 * 64 + w)"

definition quantum2 :: "string \<Rightarrow> char \<Rightarrow> char \<Rightarrow> bytes option" where
  "quantum2 alpha a b =
     (case (sym_val alpha a, sym_val alpha b) of
        (Some x, Some y) \<Rightarrow> Some [byte_xy x y] | _ \<Rightarrow> None)"

definition quantum3 :: "string \<Rightarrow> char \<Rightarrow> char \<Rightarrow> char \<Rightarrow> bytes option" where
  "quantum3 alpha a b c =
     (case (sym_val alpha a, sym_val alpha b, sym_val alpha c) of
        (Some x, Some y, Some z) \<Rightarrow> Some [byte_xy x y, byte_yz y z] | _ \<Rightarrow> None)"

definition quantum4 :: "string \<Rightarrow> char \<Rightarrow> char \<Rightarrow> char \<Rightarrow> char \<Rightarrow> bytes option" where
  "quantum4 alpha a b c d =
     (case (sym_val alpha a, sym_val alpha b, sym_val alpha c, sym_val alpha d) of
        (Some x, Some y, Some z, Some w) \<Rightarrow> Some [byte_xy x y, byte_yz y z, byte_zw z w]
      | _ \<Rightarrow> None)"

fun raw_decode :: "string \<Rightarrow> string \<Rightarrow> bytes option" where
  "raw_decode alpha [] = Some []"
| "raw_decode alpha [a] = None"
| "raw_decode alpha [a, b] = quantum2 alpha a b"
| "raw_decode alpha [a, b, c] = quantum3 alpha a b c"
| "raw_decode alpha (a # b # c # d # s) =
     (case quantum4 alpha a b c d of
        None \<Rightarrow> None
      | Some q \<Rightarrow> (case raw_decode alpha s of None \<Rightarrow> None | Some bs \<Rightarrow> Some (q @ bs)))"

fun pad_decode :: "string \<Rightarrow> string \<Rightarrow> bytes option" where
  "pad_decode alpha [] = Some []"
| "pad_decode alpha (a # b # c # d # s) =
     (if c = CHR ''='' then (if d = CHR ''='' \<and> s = [] then quantum2 alpha a b else None)
      else if d = CHR ''='' then (if s = [] then quantum3 alpha a b c else None)
      else (case quantum4 alpha a b c d of
              None \<Rightarrow> None
            | Some q \<Rightarrow> (case pad_decode alpha s of None \<Rightarrow> None | Some bs \<Rightarrow> Some (q @ bs))))"
| "pad_decode alpha s = None"

definition strip_newlines :: "string \<Rightarrow> string" where
  "strip_newlines s = filter (\<lambda>c. of_char c \<noteq> (10::nat) \<and> of_char c \<noteq> (13::nat)) s"

definition CorruptInput :: goerr where
  "CorruptInput = ErrText ''illegal base64 data''"

definition or_corrupt :: "bytes option \<Rightarrow> bytes result" where
  "or_corrupt r = (case r of None \<Rightarrow> Inl CorruptInput | Some bs \<Rightarrow> Inr bs)"

definition RawURL_DecodeString :: "string \<Rightarrow> bytes result" where
  "RawURL_DecodeString s = or_corrupt (raw_decode url_alphabet (strip_newlines s))"

definition Std_DecodeString :: "string \<Rightarrow> bytes result" where
  "Std_DecodeString s = or_corrupt (pad_decode std_alphabet (strip_newlines s))"

section \<open>Round trips\<close>

lemma unat_byte_lt: "unat (b :: byte) < 256"
  using unsigned_less [of b] by simp

lemma word_of_nat_byte: "n = unat (b :: byte) \<Longrightarrow> word_of_nat n = b"
  by simp

lemma byte_xy_sext: "byte_xy (unat a div 4) (unat a mod 4 * 16 + unat (b :: byte) div 16) = a"
proof -
  have "(unat a mod 4 * 16 + unat b div 16) div 16 = unat a mod 4"
    using unat_byte_lt [of b] by simp
  then show ?thesis
    unfolding byte_xy_def by (intro word_of_nat_byte) simp
qed

lemma byte_xy_sext1: "byte_xy (unat a div 4) (unat a mod 4 * 16) = a"
  unfolding byte_xy_def by (rule word_of_nat_byte) simp

lemma byte_yz_sext: 
  "byte_yz (k * 16 + unat (b :: byte) div 16) (unat b mod 16 * 4 + unat (c :: byte) div 64) = b"
proof -
  have "(k * 16 + unat b div 16) mod 16 = unat b div 16"
    using unat_byte_lt [of b] by simp
  moreover have "(unat b mod 16 * 4 + unat c div 64) div 4 = unat b mod 16"
    using unat_byte_lt [of c] by simp
  ultimately show ?thesis
    unfolding byte_yz_def by (intro word_of_nat_byte) simp
qed

lemma byte_yz_sext2: "byte_yz (k * 16 + unat (b :: byte) div 16) (unat b mod 16 * 4) = b"
  using byte_yz_sext [of k b 0] by simp

lemma byte_zw_sext: "byte_zw (k * 4 + unat (c :: byte) div 64) (unat c mod 64) = c"
proof -
  have "(k * 4 + unat c div 64) mod 4 = unat c div 64"
    using unat_byte_lt [of c] by simp
  then show ?thesis
    unfolding byte_zw_def by (intro word_of_nat_byte) simp
qed

lemma sext_bounds:
  "unat (a :: byte) div 4 < 64" "unat a mod 4 * 16 < 64" "unat (b :: byte) mod 16 * 4 < 64"
  "unat a mod 4 * 16 + unat b div 16 < 64" "unat b mod 16 * 4 + unat (c :: byte) div 64 < 64"
  "unat c mod 64 < 64"
  using unat_byte_lt [of a] unat_byte_lt [of b] unat_byte_lt [of c] by simp_all

lemmas quantum_defs = quantum2_def quantum3_def quantum4_def sext1_def sext2_def sext3_def
lemmas sext_inverse = byte_xy_sext byte_xy_sext1 byte_yz_sext byte_yz_sext2 byte_zw_sext

lemma raw_decode_encode: "wf_alphabet alpha \<Longrightarrow> raw_decode alpha (b64_encode alpha [] bs) = Some bs"
  by (induction alpha "[] :: string" bs rule: b64_encode.induct)
    (simp_all add: quantum_defs sym_val_sym_of sext_bounds sext_inverse)

lemma sym_of_not_pad: "wf_alphabet alpha \<Longrightarrow> n < 64 \<Longrightarrow> sym_of alpha n \<noteq> CHR ''=''"
  using sym_of_in [of alpha n] by (auto simp: wf_alphabet_def)

lemma pad_decode_encode: "wf_alphabet alpha \<Longrightarrow> pad_decode alpha (b64_encode alpha ''='' bs) = Some bs"
  by (induction alpha "''=''" bs rule: b64_encode.induct)
    (simp_all add: quantum_defs sym_val_sym_of sym_of_not_pad sext_bounds sext_inverse)

lemma b64_encode_chars:
  assumes "wf_alphabet alpha"
  shows "set (b64_encode alpha pad bs) \<subseteq> set alpha \<union> set pad"
  using assms
  by (induction alpha pad bs rule: b64_encode.induct)
    (auto simp: sext1_def sext2_def sext3_def sext_bounds sym_of_in)

lemma alphabet_printable:
  assumes "wf_alphabet alpha" and "c \<in> set alpha"
  shows "33 \<le> (of_char c :: nat)" and "(of_char c :: nat) < 128" and "c \<noteq> CHR ''.''"
  using assms by (auto simp: wf_alphabet_def list_all_iff)

lemma strip_newlines_encode:
  assumes "wf_alphabet alpha" and "set pad \<subseteq> {CHR ''=''}"
  shows "strip_newlines (b64_encode alpha pad bs) = b64_encode alpha pad bs"
proof -
  have "of_char c \<noteq> (10::nat) \<and> of_char c \<noteq> (13::nat)" if "c \<in> set (b64_encode alpha pad bs)" for c
  proof -
    have "c \<in> set alpha \<or> c = CHR ''=''"
      using b64_encode_chars [OF assms(1)] assms(2) that by blast
    then show ?thesis
      using alphabet_printable(1) [OF assms(1), of c] by auto
  qed
  then show ?thesis
    by (auto simp: strip_newlines_def filter_id_conv)
qed

text \<open>
  The interface: what a client of an encoding may rely on. Every byte sequence comes back, and the
  text holds none of the separators the service puts around it.
\<close>

locale codec =
  fixes enc :: "bytes \<Rightarrow> string" and dec :: "string \<Rightarrow> bytes result"
  assumes dec_enc: "dec (enc bs) = Inr bs"
    and enc_printable: "c \<in> set (enc bs) \<Longrightarrow> 33 \<le> (of_char c :: nat) \<and> of_char c < (128::nat)"
    and enc_no_dot: "CHR ''.'' \<notin> set (enc bs)"
begin

lemma enc_inject: "enc bs = enc cs \<longleftrightarrow> bs = cs"
  by (metis dec_enc sum.inject(2))

lemma enc_split2: "Split (enc a @ CHR ''.'' # enc b) CHR ''.'' = [enc a, enc b]"
  by (simp add: Split_append_sep Split_no_sep enc_no_dot)

lemma enc_split3:
  "Split (enc a @ CHR ''.'' # enc b @ CHR ''.'' # enc c) CHR ''.'' = [enc a, enc b, enc c]"
  by (simp add: Split_append_sep Split_no_sep enc_no_dot)

lemma enc_no_char: "of_char c < (33::nat) \<Longrightarrow> c \<notin> set (enc bs)"
  using enc_printable [of c bs] by auto

end

interpretation rawurl: codec RawURL_EncodeToString RawURL_DecodeString
proof unfold_locales
  fix bs and c
  show "RawURL_DecodeString (RawURL_EncodeToString bs) = Inr bs"
    by (simp add: RawURL_DecodeString_def RawURL_EncodeToString_def strip_newlines_encode
        raw_decode_encode or_corrupt_def)
  have *: "set (RawURL_EncodeToString bs) \<subseteq> set url_alphabet"
    using b64_encode_chars [of url_alphabet "[]" bs] by (simp add: RawURL_EncodeToString_def)
  show "CHR ''.'' \<notin> set (RawURL_EncodeToString bs)"
    using * by (auto simp: url_alphabet_def)
  assume "c \<in> set (RawURL_EncodeToString bs)"
  with * show "33 \<le> (of_char c :: nat) \<and> of_char c < (128::nat)"
    using alphabet_printable [OF wf_url, of c] by blast
qed

interpretation std64: codec Std_EncodeToString Std_DecodeString
proof unfold_locales
  fix bs and c
  show "Std_DecodeString (Std_EncodeToString bs) = Inr bs"
    by (simp add: Std_DecodeString_def Std_EncodeToString_def strip_newlines_encode
        pad_decode_encode or_corrupt_def)
  have *: "set (Std_EncodeToString bs) \<subseteq> set std_alphabet \<union> {CHR ''=''}"
    using b64_encode_chars [of std_alphabet "''=''" bs] by (simp add: Std_EncodeToString_def)
  show "CHR ''.'' \<notin> set (Std_EncodeToString bs)"
    using * by (auto simp: std_alphabet_def)
  assume "c \<in> set (Std_EncodeToString bs)"
  then have "c \<in> set std_alphabet \<or> c = CHR ''=''"
    using * by blast
  then show "33 \<le> (of_char c :: nat) \<and> of_char c < (128::nat)"
    using alphabet_printable [OF wf_std, of c] by auto
qed

text \<open>The length of what a text without padding and newlines decodes to.\<close>

lemma pad_decode_length:
  assumes "list_all (\<lambda>c. c \<in> set alpha) s" and "wf_alphabet alpha" and "length s = 4 * n"
  shows "\<exists>bs. pad_decode alpha s = Some bs \<and> length bs = 3 * n"
  using assms
proof (induction n arbitrary: s)
  case 0
  then show ?case by simp
next
  case (Suc n)
  then obtain a b c d t where s: "s = a # b # c # d # t" and t: "length t = 4 * n"
    by (auto simp: numeral_eq_Suc length_Suc_conv)
  obtain bs where bs: "pad_decode alpha t = Some bs" "length bs = 3 * n"
    using Suc.IH [of t] Suc.prems s t by auto
  have dec: "\<exists>x. sym_val alpha y = Some x" if "y \<in> set alpha" for y
    using that Suc.prems(2) unfolding sym_val_def wf_alphabet_def
    by (metis map_of_zip_is_Some length_upt minus_nat.diff_0)
  have "c \<noteq> CHR ''=''" "d \<noteq> CHR ''=''"
    using Suc.prems s by (auto simp: wf_alphabet_def)
  moreover obtain q where "quantum4 alpha a b c d = Some q" "length q = 3"
    using dec [of a] dec [of b] dec [of c] dec [of d] Suc.prems s
    by (auto simp: quantum4_def)
  ultimately show ?case
    using bs s by simp
qed

section \<open>Hexadecimal\<close>

definition hex_digit :: "nat \<Rightarrow> char" where
  "hex_digit n = ''0123456789abcdef'' ! n"

definition hex_val :: "char \<Rightarrow> nat option" where
  "hex_val c = map_of (zip ''0123456789abcdefABCDEF''
     ([0..<16] @ [10..<16])) c"

fun Hex_EncodeToString :: "bytes \<Rightarrow> string" where
  "Hex_EncodeToString [] = []"
| "Hex_EncodeToString (b # bs) =
     hex_digit (unat b div 16) # hex_digit (unat b mod 16) # Hex_EncodeToString bs"

fun hex_decode :: "string \<Rightarrow> bytes option" where
  "hex_decode [] = Some []"
| "hex_decode [c] = None"
| "hex_decode (c # d # s) =
     (case (hex_val c, hex_val d, hex_decode s) of
        (Some h, Some l, Some bs) \<Rightarrow> Some (word_of_nat (16 * h + l) # bs) | _ \<Rightarrow> None)"

definition Hex_DecodeString :: "string \<Rightarrow> bytes result" where
  "Hex_DecodeString s =
     (case hex_decode s of None \<Rightarrow> Inl (ErrText ''encoding/hex: invalid input'') | Some bs \<Rightarrow> Inr bs)"

lemma hex_val_digit:
  assumes "n < 16"
  shows "hex_val (hex_digit n) = Some n"
proof -
  have "\<forall>n \<in> set [0..<16]. hex_val (hex_digit n) = Some n"
    by (simp add: upt_rec hex_val_def hex_digit_def)
  with assms show ?thesis by simp
qed

lemma hex_digit_chars:
  assumes "n < 16"
  shows "hex_digit n \<in> set ''0123456789abcdef''"
  using assms by (simp only: hex_digit_def) (rule nth_mem, simp)

lemma hex_decode_encode: "hex_decode (Hex_EncodeToString bs) = Some bs"
proof (induction bs)
  case (Cons b bs)
  have "unat b div 16 < 16"
    using unat_byte_lt [of b] by simp
  then show ?case
    using Cons by (simp add: hex_val_digit)
qed simp

lemma length_Hex_EncodeToString [simp]: "length (Hex_EncodeToString bs) = 2 * length bs"
  by (induction bs) auto

lemma Hex_chars: "set (Hex_EncodeToString bs) \<subseteq> set ''0123456789abcdef''"
proof (induction bs)
  case (Cons b bs)
  have "unat b div 16 < 16"
    using unat_byte_lt [of b] by simp
  then show ?case
    using Cons hex_digit_chars [of "unat b div 16"] hex_digit_chars [of "unat b mod 16"] by simp
qed simp

interpretation hex: codec Hex_EncodeToString Hex_DecodeString
proof unfold_locales
  fix bs and c
  show "Hex_DecodeString (Hex_EncodeToString bs) = Inr bs"
    by (simp add: Hex_DecodeString_def hex_decode_encode)
  show "CHR ''.'' \<notin> set (Hex_EncodeToString bs)"
    using Hex_chars [of bs] by auto
  assume "c \<in> set (Hex_EncodeToString bs)"
  then have "c \<in> set ''0123456789abcdef''"
    using Hex_chars by blast
  then show "33 \<le> (of_char c :: nat) \<and> of_char c < (128::nat)"
    by auto
qed

end
