(* ===== verification/Go_Json.thy ===== *)
theory Go_Json
  imports Go_Encoding
begin

text \<open>
  Go's \<^verbatim>\<open>encoding/json\<close> as far as the service uses it: \<^verbatim>\<open>Marshal\<close> and \<^verbatim>\<open>MarshalIndent\<close> (with HTML
  escaping, the default) and the scanner and string decoder behind \<^verbatim>\<open>Unmarshal\<close>. Numbers are kept as
  their literals, as the scanner does. The parser takes fuel; \<open>json_parse\<close> gives it twice the length
  of the text and two, and \<open>jvalue_enough\<close> shows that more never changes the result.
\<close>

datatype json =
    JNull
  | JBool bool
  | JNum string
  | JStr string
  | JArr "json list"
  | JObj "(string \<times> json) list"

section \<open>UTF-8\<close>

definition byte_val :: "char \<Rightarrow> nat" where
  "byte_val c = of_char c"

definition is_cont :: "nat \<Rightarrow> nat \<Rightarrow> char \<Rightarrow> bool" where
  "is_cont lo hi c = (lo \<le> byte_val c \<and> byte_val c \<le> hi)"

text \<open>The length of the encoded character at the front, 0 where the bytes are not valid UTF-8.\<close>

definition utf8_len :: "string \<Rightarrow> nat" where
  "utf8_len s =
     (case s of
        [] \<Rightarrow> 0
      | c # r \<Rightarrow>
         (let b = byte_val c; k = is_cont 128 191 in
          if b < 128 then 1
          else if 194 \<le> b \<and> b \<le> 223 then (case r of x # _ \<Rightarrow> if k x then 2 else 0 | _ \<Rightarrow> 0)
          else if 224 \<le> b \<and> b \<le> 239 then
            (case r of x # y # _ \<Rightarrow>
               if is_cont (if b = 224 then 160 else 128) (if b = 237 then 159 else 191) x \<and> k y then 3 else 0
             | _ \<Rightarrow> 0)
          else if 240 \<le> b \<and> b \<le> 244 then
            (case r of x # y # z # _ \<Rightarrow>
               if is_cont (if b = 240 then 144 else 128) (if b = 244 then 143 else 191) x \<and> k y \<and> k z then 4 else 0
             | _ \<Rightarrow> 0)
          else 0))"

definition utf8_encode :: "nat \<Rightarrow> string" where
  "utf8_encode n =
     map char_of
      (if n < 0x80 then [n]
       else if n < 0x800 then [0xC0 + n div 64, 0x80 + n mod 64]
       else if n < 0x10000 then [0xE0 + n div 4096, 0x80 + n div 64 mod 64, 0x80 + n mod 64]
       else [0xF0 + n div 262144, 0x80 + n div 4096 mod 64, 0x80 + n div 64 mod 64, 0x80 + n mod 64])"

definition rune_error :: nat where "rune_error = 0xFFFD"

section \<open>Printing\<close>

definition u_escape :: "nat \<Rightarrow> string" where
  "u_escape n = [CHR 0x5C, CHR ''u''] @ [hex_digit (n div 4096 mod 16), hex_digit (n div 256 mod 16),
     hex_digit (n div 16 mod 16), hex_digit (n mod 16)]"

definition esc_char :: "char \<Rightarrow> string" where
  "esc_char c =
     (let b = byte_val c in
      if b = 34 \<or> b = 92 then [CHR 0x5C, c]
      else if b = 8 then [CHR 0x5C, CHR ''b''] else if b = 12 then [CHR 0x5C, CHR ''f''] else if b = 10 then [CHR 0x5C, CHR ''n'']
      else if b = 13 then [CHR 0x5C, CHR ''r''] else if b = 9 then [CHR 0x5C, CHR ''t'']
      else if b < 32 \<or> b = 60 \<or> b = 62 \<or> b = 38 then u_escape b
      else [c])"

function json_escape :: "string \<Rightarrow> string" where
  "json_escape [] = []"
| "json_escape (c # s) =
     (if byte_val c < 128 then esc_char c @ json_escape s
      else if utf8_len (c # s) = 0 then u_escape rune_error @ json_escape s
      else if take 3 (c # s) = utf8_encode 0x2028 then u_escape 0x2028 @ json_escape (drop 2 s)
      else if take 3 (c # s) = utf8_encode 0x2029 then u_escape 0x2029 @ json_escape (drop 2 s)
      else take (utf8_len (c # s)) (c # s) @ json_escape (drop (utf8_len (c # s) - 1) s))"
  by pat_completeness auto
termination
  by (relation "measure length") auto

definition quote_char :: char where "quote_char = CHR 0x22"

definition json_string :: "string \<Rightarrow> string" where
  "json_string s = quote_char # json_escape s @ [quote_char]"

text \<open>\<open>nl d\<close> is the text put on a new line at depth \<open>d\<close>, \<open>colon\<close> the text between key and value.\<close>

fun jprint :: "(nat \<Rightarrow> string) \<Rightarrow> string \<Rightarrow> nat \<Rightarrow> json \<Rightarrow> string"
  and jprint_elems :: "(nat \<Rightarrow> string) \<Rightarrow> string \<Rightarrow> nat \<Rightarrow> json list \<Rightarrow> string"
  and jprint_members :: "(nat \<Rightarrow> string) \<Rightarrow> string \<Rightarrow> nat \<Rightarrow> (string \<times> json) list \<Rightarrow> string" where
  "jprint nl colon d JNull = ''null''"
| "jprint nl colon d (JBool b) = (if b then ''true'' else ''false'')"
| "jprint nl colon d (JNum l) = l"
| "jprint nl colon d (JStr s) = json_string s"
| "jprint nl colon d (JArr []) = ''[]''"
| "jprint nl colon d (JArr (x # xs)) = CHR ''['' # jprint_elems nl colon (Suc d) (x # xs) @ nl d @ '']''"
| "jprint nl colon d (JObj []) = ''{}''"
| "jprint nl colon d (JObj (m # ms)) = CHR ''{'' # jprint_members nl colon (Suc d) (m # ms) @ nl d @ ''}''"
| "jprint_elems nl colon d [] = []"
| "jprint_elems nl colon d (x # xs) =
     nl d @ jprint nl colon d x @ (if xs = [] then [] else CHR '','' # jprint_elems nl colon d xs)"
| "jprint_members nl colon d [] = []"
| "jprint_members nl colon d ((k, v) # ms) =
     nl d @ json_string k @ colon @ jprint nl colon d v
       @ (if ms = [] then [] else CHR '','' # jprint_members nl colon d ms)"

definition json_Marshal :: "json \<Rightarrow> string" where
  "json_Marshal j = jprint (\<lambda>_. []) '':'' 0 j"

text \<open>\<^verbatim>\<open>MarshalIndent(v, "", "  ")\<close>.\<close>

definition json_MarshalIndent :: "json \<Rightarrow> string" where
  "json_MarshalIndent j = jprint (\<lambda>d. char_of (10::nat) # replicate (2 * d) CHR '' '') '': '' 0 j"

section \<open>Parsing\<close>

definition is_ws :: "char \<Rightarrow> bool" where
  "is_ws c = (byte_val c = 32 \<or> byte_val c = 9 \<or> byte_val c = 10 \<or> byte_val c = 13)"

definition skip_ws :: "string \<Rightarrow> string" where
  "skip_ws s = dropWhile is_ws s"

definition hex4 :: "char \<Rightarrow> char \<Rightarrow> char \<Rightarrow> char \<Rightarrow> nat option" where
  "hex4 a b c d =
     (case (hex_val a, hex_val b, hex_val c, hex_val d) of
        (Some w, Some x, Some y, Some z) \<Rightarrow> Some (((w * 16 + x) * 16 + y) * 16 + z) | _ \<Rightarrow> None)"

definition is_high :: "nat \<Rightarrow> bool" where "is_high n = (0xD800 \<le> n \<and> n < 0xDC00)"
definition is_low :: "nat \<Rightarrow> bool" where "is_low n = (0xDC00 \<le> n \<and> n < 0xE000)"

definition simple_escape :: "char \<Rightarrow> string option" where
  "simple_escape e =
     (if byte_val e = 34 \<or> byte_val e = 92 \<or> byte_val e = 47 then Some [e]
      else if e = CHR ''b'' then Some [char_of (8::nat)] else if e = CHR ''f'' then Some [char_of (12::nat)]
      else if e = CHR ''n'' then Some [char_of (10::nat)] else if e = CHR ''r'' then Some [char_of (13::nat)]
      else if e = CHR ''t'' then Some [char_of (9::nat)] else None)"

text \<open>One unit of a string literal: the decoded bytes and how many bytes of the text it takes.\<close>

definition jchar :: "string \<Rightarrow> (string \<times> nat) option" where
  "jchar s =
     (case s of
        [] \<Rightarrow> None
      | c # r \<Rightarrow>
         (if byte_val c = 92 then
            (case r of
               [] \<Rightarrow> None
             | e # t \<Rightarrow>
                (if e = CHR ''u'' then
                   (case t of
                      a # b # x # y # u \<Rightarrow>
                        (case hex4 a b x y of
                           None \<Rightarrow> None
                         | Some n \<Rightarrow>
                             if is_high n then
                               (case u of
                                  p # q # a' # b' # x' # y' # _ \<Rightarrow>
                                    (case hex4 a' b' x' y' of
                                       Some m \<Rightarrow>
                                         if byte_val p = 92 \<and> q = CHR ''u'' \<and> is_low m
                                         then Some (utf8_encode (0x10000 + (n - 0xD800) * 1024 + (m - 0xDC00)), 12)
                                         else Some (utf8_encode rune_error, 6)
                                     | None \<Rightarrow> Some (utf8_encode rune_error, 6))
                                | _ \<Rightarrow> Some (utf8_encode rune_error, 6))
                             else if is_low n then Some (utf8_encode rune_error, 6)
                             else Some (utf8_encode n, 6))
                    | _ \<Rightarrow> None)
                 else (case simple_escape e of None \<Rightarrow> None | Some d \<Rightarrow> Some (d, 2))))
          else if byte_val c < 32 then None
          else if byte_val c < 128 then Some ([c], 1)
          else if utf8_len s = 0 then Some (utf8_encode rune_error, 1)
          else Some (take (utf8_len s) s, utf8_len s)))"

text \<open>The rest of a string literal after its opening quote, and the text that follows it.\<close>

function jstring :: "string \<Rightarrow> (string \<times> string) option" where
  "jstring [] = None"
| "jstring (c # s) =
     (if c = quote_char then Some ([], s)
      else (case jchar (c # s) of
              None \<Rightarrow> None
            | Some (d, n) \<Rightarrow>
                (case jstring (drop (n - 1) s) of None \<Rightarrow> None | Some (t, r) \<Rightarrow> Some (d @ t, r))))"
  by pat_completeness auto
termination
  by (relation "measure length") auto

definition is_num_char :: "char \<Rightarrow> bool" where
  "is_num_char c = (is_digit c \<or> c = CHR ''-'' \<or> c = CHR ''+'' \<or> c = CHR ''.'' \<or> c = CHR ''e'' \<or> c = CHR ''E'')"

definition valid_exp :: "string \<Rightarrow> bool" where
  "valid_exp s =
     (case s of
        [] \<Rightarrow> True
      | c # r \<Rightarrow> (c = CHR ''e'' \<or> c = CHR ''E'') \<and>
          (let ds = (case r of x # y \<Rightarrow> if x = CHR ''+'' \<or> x = CHR ''-'' then y else r | [] \<Rightarrow> r)
           in ds \<noteq> [] \<and> list_all is_digit ds))"

definition valid_frac :: "string \<Rightarrow> bool" where
  "valid_frac s =
     (case s of
        [] \<Rightarrow> True
      | c # r \<Rightarrow> if c = CHR ''.'' then takeWhile is_digit r \<noteq> [] \<and> valid_exp (dropWhile is_digit r)
                 else valid_exp s)"

definition valid_number :: "string \<Rightarrow> bool" where
  "valid_number s =
     (let u = (case s of c # r \<Rightarrow> if c = CHR ''-'' then r else s | [] \<Rightarrow> s);
          ds = takeWhile is_digit u
      in ds \<noteq> [] \<and> (hd ds = CHR ''0'' \<longrightarrow> length ds = 1) \<and> valid_frac (dropWhile is_digit u))"

definition jliteral :: "string \<Rightarrow> json \<Rightarrow> string \<Rightarrow> (json \<times> string) option" where
  "jliteral w j s = (if HasPrefix s w then Some (j, drop (length w) s) else None)"

definition jnumber :: "string \<Rightarrow> (json \<times> string) option" where
  "jnumber s = (let l = takeWhile is_num_char s
                in if valid_number l then Some (JNum l, dropWhile is_num_char s) else None)"

fun jvalue :: "nat \<Rightarrow> string \<Rightarrow> (json \<times> string) option"
  and jelems :: "nat \<Rightarrow> string \<Rightarrow> (json list \<times> string) option"
  and jmembers :: "nat \<Rightarrow> string \<Rightarrow> ((string \<times> json) list \<times> string) option" where
  "jvalue 0 s = None"
| "jvalue (Suc n) s =
     (case skip_ws s of
        [] \<Rightarrow> None
      | c # r \<Rightarrow>
         (if c = CHR ''{'' then
            (if HasPrefix (skip_ws r) ''}'' then Some (JObj [], tl (skip_ws r))
             else map_option (\<lambda>(ms, t). (JObj ms, t)) (jmembers n r))
          else if c = CHR ''['' then
            (if HasPrefix (skip_ws r) '']'' then Some (JArr [], tl (skip_ws r))
             else map_option (\<lambda>(xs, t). (JArr xs, t)) (jelems n r))
          else if c = quote_char then map_option (\<lambda>(x, t). (JStr x, t)) (jstring r)
          else if c = CHR ''n'' then jliteral ''null'' JNull (c # r)
          else if c = CHR ''t'' then jliteral ''true'' (JBool True) (c # r)
          else if c = CHR ''f'' then jliteral ''false'' (JBool False) (c # r)
          else jnumber (c # r)))"
| "jelems 0 s = None"
| "jelems (Suc n) s =
     (case jvalue n s of
        None \<Rightarrow> None
      | Some (x, r) \<Rightarrow>
         (case skip_ws r of
            [] \<Rightarrow> None
          | c # t \<Rightarrow>
             (if c = CHR '']'' then Some ([x], t)
              else if c = CHR '','' then map_option (\<lambda>(xs, u). (x # xs, u)) (jelems n t)
              else None)))"
| "jmembers 0 s = None"
| "jmembers (Suc n) s =
     (case skip_ws s of
        [] \<Rightarrow> None
      | q # r \<Rightarrow>
         (if q \<noteq> quote_char then None
          else case jstring r of
             None \<Rightarrow> None
           | Some (k, t) \<Rightarrow>
              (case skip_ws t of
                 [] \<Rightarrow> None
               | c # u \<Rightarrow>
                  (if c \<noteq> CHR '':'' then None
                   else case jvalue n u of
                      None \<Rightarrow> None
                    | Some (x, v) \<Rightarrow>
                       (case skip_ws v of
                          [] \<Rightarrow> None
                        | c # w \<Rightarrow>
                           (if c = CHR ''}'' then Some ([(k, x)], w)
                            else if c = CHR '','' then map_option (\<lambda>(ms, z). ((k, x) # ms, z)) (jmembers n w)
                            else None))))))"

definition json_parse :: "string \<Rightarrow> json option" where
  "json_parse s =
     (case jvalue (2 * length s + 2) s of
        Some (j, r) \<Rightarrow> if skip_ws r = [] then Some j else None
      | None \<Rightarrow> None)"

section \<open>Printing and parsing\<close>

definition ascii :: "string \<Rightarrow> bool" where
  "ascii s = list_all (\<lambda>c. byte_val c < 128) s"

lemma ascii_simps [simp]:
  "ascii []" "ascii (c # s) \<longleftrightarrow> byte_val c < 128 \<and> ascii s" "ascii (s @ t) \<longleftrightarrow> ascii s \<and> ascii t"
  by (auto simp: ascii_def)

lemma byte_val_char_of [simp]: "n < 256 \<Longrightarrow> byte_val (char_of n) = n"
  by (simp add: byte_val_def)

lemma char_of_byte_val [simp]: "char_of (byte_val c) = c"
  by (simp add: byte_val_def)

lemma byte_val_eqD: "byte_val c = n \<Longrightarrow> c = char_of n"
  by auto

lemma char_of_special:
  "char_of (34::nat) = CHR 0x22" "char_of (92::nat) = CHR 0x5C" "char_of (8::nat) = CHR 0x08"
  "char_of (9::nat) = CHR 0x09" "char_of (10::nat) = CHR 0x0A" "char_of (12::nat) = CHR 0x0C"
  "char_of (13::nat) = CHR 0x0D"
  by (simp_all add: char_of_def bit_Suc_0_iff)

lemma hex4_digits: "n < 65536 \<Longrightarrow>
  hex4 (hex_digit (n div 4096 mod 16)) (hex_digit (n div 256 mod 16)) (hex_digit (n div 16 mod 16))
    (hex_digit (n mod 16)) = Some n"
proof -
  assume n: "n < 65536"
  have horner: "((z * 16 + r) * 16 + q) * 16 + m = n"
    if "x = 16 * y + q" and "y = 16 * z + r" and "16 * x + m = n" for x y z q r m :: nat
    using that by simp
  have e2: "n div 16 = 16 * (n div 256) + n div 16 mod 16"
    using mult_div_mod_eq [of 16 "n div 16"] by (simp add: div_mult2_eq [symmetric])
  have e3: "n div 256 = 16 * (n div 4096) + n div 256 mod 16"
    using mult_div_mod_eq [of 16 "n div 256"] by (simp add: div_mult2_eq [symmetric])
  have e4: "n div 4096 < 16"
    using n by simp
  have "((n div 4096 * 16 + n div 256 mod 16) * 16 + n div 16 mod 16) * 16 + n mod 16 = n"
    by (rule horner [OF e2 e3 mult_div_mod_eq])
  then show ?thesis
    by (simp add: hex4_def hex_val_digit e4)
qed

lemma jchar_u_escape:
  assumes "n < 128"
  shows "jchar (u_escape n @ t) = Some ([char_of n], 6)"
  using assms hex4_digits [of n]
  by (simp add: u_escape_def jchar_def is_high_def is_low_def utf8_encode_def byte_val_def)

lemma jchar_esc_char:
  assumes "byte_val c < 128"
  shows "jchar (esc_char c @ t) = Some ([c], length (esc_char c))"
proof -
  consider "byte_val c \<in> {34, 92}" | "byte_val c \<in> {8, 12, 10, 13, 9}"
    | "byte_val c < 32 \<or> byte_val c \<in> {60, 62, 38}" "byte_val c \<notin> {8, 12, 10, 13, 9}"
    | "32 \<le> byte_val c" "byte_val c \<notin> {34, 92, 60, 62, 38}"
    by fastforce
  then show ?thesis
  proof cases
    case 1
    then have "c = CHR 0x22 \<or> c = CHR 0x5C"
      using byte_val_eqD [of c 34] byte_val_eqD [of c 92] by (auto simp: char_of_special)
    then show ?thesis
      by (elim disjE) (simp_all add: esc_char_def jchar_def simple_escape_def byte_val_def char_of_special)
  next
    case 2
    then have "c = CHR 0x08 \<or> c = CHR 0x0C \<or> c = CHR 0x0A \<or> c = CHR 0x0D \<or> c = CHR 0x09"
      using byte_val_eqD [of c 8] byte_val_eqD [of c 12] byte_val_eqD [of c 10]
        byte_val_eqD [of c 13] byte_val_eqD [of c 9] by (auto simp: char_of_special)
    then show ?thesis
      by (elim disjE) (simp_all add: esc_char_def jchar_def simple_escape_def byte_val_def char_of_special)
  next
    case 3
    then have "esc_char c = u_escape (byte_val c)"
      by (auto simp: esc_char_def Let_def)
    moreover have "length (u_escape (byte_val c)) = 6"
      by (simp add: u_escape_def)
    ultimately show ?thesis
      using jchar_u_escape [OF assms, of t] by simp
  next
    case 4
    then show ?thesis
      using assms by (simp add: esc_char_def jchar_def Let_def)
  qed
qed

lemma esc_char_hd: "\<exists>x xs. esc_char c = x # xs \<and> x \<noteq> quote_char"
proof (cases "byte_val c = 34")
  case True
  then show ?thesis by (simp add: esc_char_def quote_char_def)
next
  case False
  then have "c \<noteq> quote_char" by (auto simp: quote_char_def byte_val_def)
  then show ?thesis
    by (auto simp: esc_char_def u_escape_def Let_def quote_char_def)
qed

lemma jstring_esc_char:
  assumes "byte_val c < 128"
  shows "jstring (esc_char c @ t) =
           (case jstring t of None \<Rightarrow> None | Some (u, r) \<Rightarrow> Some (c # u, r))"
proof -
  obtain x xs where x: "esc_char c = x # xs" "x \<noteq> quote_char"
    using esc_char_hd by blast
  have "jchar (x # xs @ t) = Some ([c], Suc (length xs))"
    using jchar_esc_char [OF assms, of t] by (simp add: x(1))
  then show ?thesis
    by (simp add: x split: option.splits)
qed

lemma jstring_escape: "ascii s \<Longrightarrow> jstring (json_escape s @ quote_char # r) = Some (s, r)"
  by (induction s) (simp_all add: jstring_esc_char)

lemma skip_ws_append: "list_all is_ws w \<Longrightarrow> skip_ws (w @ s) = skip_ws s"
  by (auto simp: skip_ws_def list_all_iff dropWhile_append2)

lemma skip_ws_Cons: "\<not> is_ws c \<Longrightarrow> skip_ws (c # s) = c # s"
  by (simp add: skip_ws_def)

lemma jvalue_skip: "list_all is_ws w \<Longrightarrow> jvalue n (w @ s) = jvalue n s"
  by (cases n) (simp_all add: skip_ws_append)

lemma jelems_skip: "list_all is_ws w \<Longrightarrow> jelems n (w @ s) = jelems n s"
  by (cases n) (simp_all add: jvalue_skip)

lemma jmembers_skip: "list_all is_ws w \<Longrightarrow> jmembers n (w @ s) = jmembers n s"
  by (cases n) (simp_all add: skip_ws_append)

text \<open>What the round trip covers: valid number literals, ASCII strings and keys.\<close>

fun wf_json :: "json \<Rightarrow> bool" where
  "wf_json JNull = True"
| "wf_json (JBool b) = True"
| "wf_json (JNum l) = (valid_number l \<and> list_all is_num_char l)"
| "wf_json (JStr s) = ascii s"
| "wf_json (JArr xs) = (\<forall>x \<in> set xs. wf_json x)"
| "wf_json (JObj ms) = (\<forall>m \<in> set ms. ascii (fst m) \<and> wf_json (snd m))"

definition not_num :: "string \<Rightarrow> bool" where
  "not_num s = (case s of [] \<Rightarrow> True | c # _ \<Rightarrow> \<not> is_num_char c)"

lemma jnumber_print:
  assumes "valid_number l" and "list_all is_num_char l" and "not_num r"
  shows "jnumber (l @ r) = Some (JNum l, r)"
proof -
  have r: "takeWhile is_num_char r = []" "dropWhile is_num_char r = r"
    using assms(3) by (auto simp: not_num_def split: list.splits)
  have "takeWhile is_num_char (l @ r) = l" "dropWhile is_num_char (l @ r) = r"
    using assms(2) r by (simp_all add: list_all_iff takeWhile_append2 dropWhile_append2)
  with assms(1) show ?thesis
    by (simp add: jnumber_def)
qed

lemma valid_number_hd:
  assumes "valid_number l"
  shows "\<exists>c cs. l = c # cs \<and> (c = CHR ''-'' \<or> is_digit c)"
proof (cases l)
  case (Cons c cs)
  with assms show ?thesis
    by (auto simp: valid_number_def Let_def split: if_splits)
qed (use assms in \<open>simp add: valid_number_def\<close>)

lemma num_hd_other:
  assumes "c = CHR ''-'' \<or> is_digit c"
  shows "\<not> is_ws c" "c \<noteq> CHR ''{''" "c \<noteq> CHR ''[''" "c \<noteq> quote_char" "c \<noteq> CHR ''n''"
    "c \<noteq> CHR ''t''" "c \<noteq> CHR ''f''"
  using assms by (auto simp: is_digit_def is_ws_def byte_val_def quote_char_def)

lemma ws_not_num:
  assumes "list_all is_ws w" and "\<not> is_num_char c"
  shows "not_num (w @ c # r)"
proof (cases w)
  case (Cons x xs)
  with assms(1) have "is_ws x" by simp
  then have "\<not> is_num_char x"
    by (auto simp: is_ws_def is_num_char_def is_digit_def byte_val_def)
  with Cons show ?thesis by (simp add: not_num_def)
qed (use assms in \<open>simp add: not_num_def\<close>)

lemma closers_not_num [simp]:
  "\<not> is_num_char CHR '']''" "\<not> is_num_char CHR ''}''" "\<not> is_num_char CHR '',''"
  "\<not> is_ws CHR '']''" "\<not> is_ws CHR ''}''" "\<not> is_ws CHR '',''" "\<not> is_ws CHR '':''"
  "\<not> is_ws CHR ''[''" "\<not> is_ws CHR ''{''" "\<not> is_ws quote_char"
  by (simp_all add: is_num_char_def is_digit_def is_ws_def byte_val_def quote_char_def)

text \<open>
  A layout of printed values: any white space on new lines and after the colon. The compact and the
  indented form of \<^verbatim>\<open>encoding/json\<close> are both layouts, so one round trip serves both.
\<close>

locale json_layout =
  fixes nl :: "nat \<Rightarrow> string" and colon :: string and gap :: string
  assumes nl_ws: "list_all is_ws (nl d)"
    and colon_form: "colon = CHR '':'' # gap"
    and gap_ws: "list_all is_ws gap"
begin

definition prints :: "json \<Rightarrow> bool" where
  "prints j \<longleftrightarrow> (\<forall>d n r. 2 * length (jprint nl colon d j) \<le> n \<longrightarrow> not_num r \<longrightarrow>
     jvalue n (jprint nl colon d j @ r) = Some (j, r))"

lemma printsD:
  "prints j \<Longrightarrow> 2 * length (jprint nl colon d j) \<le> n \<Longrightarrow> not_num r \<Longrightarrow>
     jvalue n (jprint nl colon d j @ r) = Some (j, r)"
  by (simp add: prints_def)

lemma elems_print:
  assumes "\<forall>x \<in> set xs. prints x" and "xs \<noteq> []" and "list_all is_ws w"
    and "2 * length (jprint_elems nl colon d xs) + 1 \<le> n"
  shows "jelems n (jprint_elems nl colon d xs @ w @ CHR '']'' # r) = Some (xs, r)"
  using assms
proof (induction xs arbitrary: n)
  case (Cons x xs)
  then obtain m where n: "n = Suc m" by (cases n) auto
  define rest where "rest = (if xs = [] then w @ CHR '']'' # r
      else CHR '','' # jprint_elems nl colon d xs @ w @ CHR '']'' # r)"
  have "not_num rest"
    using Cons.prems(3) by (auto simp: rest_def ws_not_num) (simp add: not_num_def)
  moreover have "2 * length (jprint nl colon d x) \<le> m"
    using Cons.prems(4) by (simp add: n)
  ultimately have v: "jvalue m (nl d @ jprint nl colon d x @ rest) = Some (x, rest)"
    using Cons.prems(1) by (simp add: jvalue_skip nl_ws printsD)
  have s: "jprint_elems nl colon d (x # xs) @ w @ CHR '']'' # r = nl d @ jprint nl colon d x @ rest"
    by (simp add: rest_def)
  show ?case
  proof (cases "xs = []")
    case True
    with v show ?thesis
      unfolding s n by (simp add: rest_def skip_ws_append skip_ws_Cons Cons.prems(3))
  next
    case False
    then have "jelems m (jprint_elems nl colon d xs @ w @ CHR '']'' # r) = Some (xs, r)"
      using Cons.prems by (intro Cons.IH) (auto simp: n)
    with v False show ?thesis
      unfolding s n by (simp add: rest_def skip_ws_Cons)
  qed
qed simp

lemma members_print:
  assumes "\<forall>m \<in> set ms. ascii (fst m) \<and> prints (snd m)" and "ms \<noteq> []" and "list_all is_ws w"
    and "2 * length (jprint_members nl colon d ms) + 1 \<le> n"
  shows "jmembers n (jprint_members nl colon d ms @ w @ CHR ''}'' # r) = Some (ms, r)"
  using assms
proof (induction ms arbitrary: n)
  case (Cons kx ms)
  obtain k x where kx: "kx = (k, x)" by (cases kx)
  from Cons obtain m where n: "n = Suc m" by (cases n) auto
  define rest where "rest = (if ms = [] then w @ CHR ''}'' # r
      else CHR '','' # jprint_members nl colon d ms @ w @ CHR ''}'' # r)"
  have "not_num rest"
    using Cons.prems(3) by (auto simp: rest_def ws_not_num) (simp add: not_num_def)
  moreover have "2 * length (jprint nl colon d x) \<le> m"
    using Cons.prems(4) by (simp add: n kx)
  ultimately have v: "jvalue m (gap @ jprint nl colon d x @ rest) = Some (x, rest)"
    using Cons.prems(1) by (simp add: jvalue_skip gap_ws printsD kx)
  have k: "jstring (json_escape k @ quote_char # CHR '':'' # t) = Some (k, CHR '':'' # t)" for t
    using Cons.prems(1) by (simp add: jstring_escape kx)
  have s: "jprint_members nl colon d (kx # ms) @ w @ CHR ''}'' # r =
      nl d @ quote_char # json_escape k @ quote_char # CHR '':'' # gap @ jprint nl colon d x @ rest"
    by (simp add: rest_def kx json_string_def colon_form)
  show ?case
  proof (cases "ms = []")
    case True
    with v show ?thesis
      unfolding s n
      by (simp add: rest_def skip_ws_append skip_ws_Cons nl_ws k kx Cons.prems(3))
  next
    case False
    then have "jmembers m (jprint_members nl colon d ms @ w @ CHR ''}'' # r) = Some (ms, r)"
      using Cons.prems by (intro Cons.IH) (auto simp: n kx)
    with v False show ?thesis
      unfolding s n by (simp add: rest_def skip_ws_append skip_ws_Cons nl_ws k kx)
  qed
qed simp

lemma jprint_wf_hd:
  assumes "wf_json j"
  shows "\<exists>c cs. jprint nl colon d j = c # cs \<and> \<not> is_ws c \<and> c \<noteq> CHR '']'' \<and> c \<noteq> CHR ''}''"
proof (cases j)
  case (JNum l)
  then obtain c cs where "l = c # cs" "c = CHR ''-'' \<or> is_digit c"
    using assms valid_number_hd [of l] by auto
  with JNum show ?thesis
    using num_hd_other(1) [of c] by (auto simp: is_digit_def)
next
  case (JArr xs)
  then show ?thesis by (cases xs) simp_all
next
  case (JObj ms)
  then show ?thesis by (cases ms) simp_all
qed (auto simp: json_string_def is_ws_def byte_val_def quote_char_def)

lemma skip_elems:
  assumes "wf_json x"
  shows "\<not> HasPrefix (skip_ws (jprint_elems nl colon d (x # xs) @ t)) '']''"
proof -
  obtain c cs where "jprint nl colon d x = c # cs" "\<not> is_ws c" "c \<noteq> CHR '']''"
    using jprint_wf_hd [OF assms] by blast
  then show ?thesis
    by (simp add: skip_ws_append skip_ws_Cons nl_ws HasPrefix_def)
qed

lemma skip_members: "\<not> HasPrefix (skip_ws (jprint_members nl colon d (m # ms) @ t)) ''}''"
  by (cases m) (simp add: skip_ws_append skip_ws_Cons nl_ws HasPrefix_def json_string_def,
      simp add: quote_char_def)

lemma literal_prints [simp]: "prints JNull" "prints (JBool b)"
proof -
  have "jvalue n (jprint nl colon d j @ r) = Some (j, r)"
    if "2 * length (jprint nl colon d j) \<le> n" "j = JNull \<or> j = JBool b" for d n r j
    using that
    by (cases n) (auto simp: jliteral_def HasPrefix_def skip_ws_def is_ws_def byte_val_def quote_char_def
        split: if_splits)
  then show "prints JNull" "prints (JBool b)"
    unfolding prints_def by blast+
qed

lemma num_prints:
  assumes "valid_number l" and "list_all is_num_char l"
  shows "prints (JNum l)"
  unfolding prints_def
proof (intro allI impI)
  fix d n r
  assume n: "2 * length (jprint nl colon d (JNum l)) \<le> n" and r: "not_num r"
  obtain c cs where l: "l = c # cs" "c = CHR ''-'' \<or> is_digit c"
    using assms valid_number_hd by blast
  obtain m where m: "n = Suc m"
    using n l by (cases n) auto
  show "jvalue n (jprint nl colon d (JNum l) @ r) = Some (JNum l, r)"
    using jnumber_print [OF assms r] num_hd_other [OF l(2)]
    by (simp add: l m skip_ws_Cons)
qed

lemma str_prints: "ascii s \<Longrightarrow> prints (JStr s)"
  unfolding prints_def
proof (intro allI impI)
  fix d n r
  assume "ascii s" and n: "2 * length (jprint nl colon d (JStr s)) \<le> n"
  then show "jvalue n (jprint nl colon d (JStr s) @ r) = Some (JStr s, r)"
    by (cases n) (simp_all add: json_string_def skip_ws_Cons jstring_escape, simp add: quote_char_def)
qed

lemma arr_prints:
  assumes "\<forall>x \<in> set xs. wf_json x \<and> prints x"
  shows "prints (JArr xs)"
  unfolding prints_def
proof (intro allI impI)
  fix d n r
  assume n: "2 * length (jprint nl colon d (JArr xs)) \<le> n"
  show "jvalue n (jprint nl colon d (JArr xs) @ r) = Some (JArr xs, r)"
  proof (cases xs)
    case Nil
    with n show ?thesis
      by (cases n) (simp_all add: skip_ws_Cons HasPrefix_def)
  next
    case (Cons y ys)
    obtain m where m: "n = Suc m" using n Cons by (cases n) auto
    have "jelems m (jprint_elems nl colon (Suc d) xs @ nl d @ CHR '']'' # r) = Some (xs, r)"
      using n assms by (intro elems_print) (auto simp: Cons m nl_ws)
    moreover have "\<not> HasPrefix (skip_ws (jprint_elems nl colon (Suc d) xs @ nl d @ CHR '']'' # r)) '']''"
      using assms Cons skip_elems by auto
    ultimately show ?thesis
      by (simp add: Cons m skip_ws_Cons del: jprint_elems.simps)
  qed
qed

lemma obj_prints:
  assumes "\<forall>m \<in> set ms. ascii (fst m) \<and> prints (snd m)"
  shows "prints (JObj ms)"
  unfolding prints_def
proof (intro allI impI)
  fix d n r
  assume n: "2 * length (jprint nl colon d (JObj ms)) \<le> n"
  show "jvalue n (jprint nl colon d (JObj ms) @ r) = Some (JObj ms, r)"
  proof (cases ms)
    case Nil
    with n show ?thesis
      by (cases n) (simp_all add: skip_ws_Cons HasPrefix_def)
  next
    case (Cons y ys)
    obtain m where m: "n = Suc m" using n Cons by (cases n) auto
    have "jmembers m (jprint_members nl colon (Suc d) ms @ nl d @ CHR ''}'' # r) = Some (ms, r)"
      using n assms by (intro members_print) (auto simp: Cons m nl_ws)
    moreover have "\<not> HasPrefix (skip_ws (jprint_members nl colon (Suc d) ms @ nl d @ CHR ''}'' # r)) ''}''"
      using Cons skip_members by auto
    ultimately show ?thesis
      by (simp add: Cons m skip_ws_Cons del: jprint_members.simps)
  qed
qed

lemma wf_prints: "wf_json j \<Longrightarrow> prints j"
proof (induction j)
  case (JArr xs)
  then show ?case by (intro arr_prints) auto
next
  case (JObj ms)
  then show ?case
    by (intro obj_prints) (auto intro: snds.intros)
qed (simp_all add: num_prints str_prints)

lemma parse_print: "wf_json j \<Longrightarrow> json_parse (jprint nl colon 0 j) = Some j"
  using printsD [OF wf_prints, of j 0 "2 * length (jprint nl colon 0 j) + 2" "[]"]
  by (simp add: json_parse_def not_num_def skip_ws_def)

end

interpretation compact: json_layout "\<lambda>_. []" "'':''" "[]"
  by unfold_locales simp_all

interpretation indented: json_layout "\<lambda>d. char_of (10::nat) # replicate (2 * d) CHR '' ''" "'': ''" "'' ''"
  by unfold_locales (simp_all add: is_ws_def byte_val_def list_all_iff)

lemma Marshal_parse: "wf_json j \<Longrightarrow> json_parse (json_Marshal j) = Some j"
  by (simp add: json_Marshal_def compact.parse_print)

lemma MarshalIndent_parse: "wf_json j \<Longrightarrow> json_parse (json_MarshalIndent j) = Some j"
  by (simp add: json_MarshalIndent_def indented.parse_print)

section \<open>The fuel is enough\<close>

lemma length_skip_ws: "length (skip_ws s) \<le> length s"
  by (simp add: skip_ws_def length_dropWhile_le)

lemma skip_ws_ConsD: "skip_ws s = c # r \<Longrightarrow> length r < length s"
  using length_skip_ws [of s] by simp

lemma jstring_shorter: "jstring s = Some (t, r) \<Longrightarrow> length r < length s"
proof (induction s arbitrary: t rule: jstring.induct)
  case (2 c s)
  show ?case
  proof (cases "c = quote_char")
    case False
    with "2.prems" obtain d n t' where "jchar (c # s) = Some (d, n)"
      and "jstring (drop (n - 1) s) = Some (t', r)"
      by (auto split: option.splits prod.splits)
    then have "length r < length (drop (n - 1) s)"
      using "2.IH" False by blast
    then show ?thesis by simp
  qed (use "2.prems" in simp)
qed simp

lemma jnumber_shorter: "jnumber s = Some (j, r) \<Longrightarrow> length r < length s"
proof -
  assume "jnumber s = Some (j, r)"
  then have v: "valid_number (takeWhile is_num_char s)" and r: "r = dropWhile is_num_char s"
    by (auto simp: jnumber_def Let_def split: if_splits)
  have "takeWhile is_num_char s \<noteq> []"
    using valid_number_hd [OF v] by auto
  moreover have "length s = length (takeWhile is_num_char s) + length (dropWhile is_num_char s)"
    by (metis length_append takeWhile_dropWhile_id)
  ultimately show ?thesis
    by (simp add: r)
qed

lemma jliteral_shorter: "jliteral w j s = Some (k, r) \<Longrightarrow> w \<noteq> [] \<Longrightarrow> length r < length s"
  by (auto simp: jliteral_def HasPrefix_iff split: if_splits)

lemma HasPrefix_tl: "HasPrefix t [c] \<Longrightarrow> length (tl t) < length t"
  by (cases t) (auto simp: HasPrefix_def)

lemma parse_shorter:
  "(\<forall>s j r. jvalue n s = Some (j, r) \<longrightarrow> length r < length s) \<and>
   (\<forall>s xs r. jelems n s = Some (xs, r) \<longrightarrow> length r < length s) \<and>
   (\<forall>s ms r. jmembers n s = Some (ms, r) \<longrightarrow> length r < length s)"
proof (induction n)
  case (Suc n)
  have v: "length r < length s" if "jvalue (Suc n) s = Some (j, r)" for s j r
  proof (cases "skip_ws s")
    case (Cons c t)
    have "length r < length (c # t)"
      using that Suc length_skip_ws [of t] HasPrefix_tl [of "skip_ws t"]
      by (fastforce simp: Cons dest: jstring_shorter jnumber_shorter jliteral_shorter split: if_splits)
    then show ?thesis
      using length_skip_ws [of s] by (simp add: Cons)
  qed (use that in simp)
  have e: "length r < length s" if "jelems (Suc n) s = Some (xs, r)" for s xs r
    using that Suc
    by (fastforce split: option.splits prod.splits list.splits if_splits dest: skip_ws_ConsD)
  have m: "length r < length s" if "jmembers (Suc n) s = Some (ms, r)" for s ms r
    using that Suc
    by (fastforce split: option.splits prod.splits list.splits if_splits dest: skip_ws_ConsD jstring_shorter)
  show ?case
    using v e m by blast
qed simp

lemmas jvalue_shorter = parse_shorter [THEN conjunct1, rule_format]

lemma parse_more_fuel:
  "(\<forall>s. 2 * length s < n \<longrightarrow> jvalue (Suc n) s = jvalue n s) \<and>
   (\<forall>s. 2 * length s + 1 < n \<longrightarrow> jelems (Suc n) s = jelems n s) \<and>
   (\<forall>s. 2 * length s + 1 < n \<longrightarrow> jmembers (Suc n) s = jmembers n s)"
proof (induction n)
  case (Suc n)
  have v: "jvalue (Suc (Suc n)) s = jvalue (Suc n) s" if "2 * length s < Suc n" for s
  proof (cases "skip_ws s")
    case (Cons c r)
    have "2 * length r + 1 < n"
      using that skip_ws_ConsD [OF Cons] by simp
    then have "jelems (Suc n) r = jelems n r" "jmembers (Suc n) r = jmembers n r"
      using Suc by blast+
    then show ?thesis
      unfolding jvalue.simps(2) [of "Suc n" s] jvalue.simps(2) [of n s]
      by (simp add: Cons del: jelems.simps jmembers.simps)
  qed simp
  have e: "jelems (Suc (Suc n)) s = jelems (Suc n) s" if "2 * length s + 1 < Suc n" for s
  proof -
    have "jvalue (Suc n) s = jvalue n s"
      using Suc that by simp
    moreover have "jelems (Suc n) t = jelems n t" if "jvalue n s = Some (x, r)" "skip_ws r = c # t" for x r c t
      using Suc \<open>2 * length s + 1 < Suc n\<close> jvalue_shorter [OF that(1)] skip_ws_ConsD [OF that(2)] by simp
    ultimately show ?thesis
      unfolding jelems.simps(2) [of "Suc n" s] jelems.simps(2) [of n s]
      by (simp del: jelems.simps jvalue.simps split: option.split list.split prod.split)
  qed
  have m: "jmembers (Suc (Suc n)) s = jmembers (Suc n) s" if "2 * length s + 1 < Suc n" for s
  proof -
    have "jvalue (Suc n) u = jvalue n u" if "skip_ws s = q # r" "jstring r = Some (k, t)" "skip_ws t = c # u"
      for q r k t c u
      using Suc \<open>2 * length s + 1 < Suc n\<close> skip_ws_ConsD [OF that(1)] jstring_shorter [OF that(2)]
        skip_ws_ConsD [OF that(3)] by simp
    moreover have "jmembers (Suc n) w = jmembers n w"
      if "skip_ws s = q # r" "jstring r = Some (k, t)" "skip_ws t = c # u" "jvalue n u = Some (x, v)"
        "skip_ws v = c' # w" for q r k t c u x v c' w
      using Suc \<open>2 * length s + 1 < Suc n\<close> skip_ws_ConsD [OF that(1)] jstring_shorter [OF that(2)]
        skip_ws_ConsD [OF that(3)] jvalue_shorter [OF that(4)] skip_ws_ConsD [OF that(5)] by simp
    ultimately show ?thesis
      unfolding jmembers.simps(2) [of "Suc n" s] jmembers.simps(2) [of n s]
      by (simp del: jmembers.simps jvalue.simps split: option.split list.split prod.split)
  qed
  show ?case
    using v e m by blast
qed simp

lemma jvalue_enough: "jvalue (2 * length s + 2 + k) s = jvalue (2 * length s + 2) s"
proof (induction k)
  case (Suc k)
  have "jvalue (Suc (2 * length s + 2 + k)) s = jvalue (2 * length s + 2 + k) s"
    using parse_more_fuel [of "2 * length s + 2 + k"] by simp
  with Suc show ?case by simp
qed simp

section \<open>Decoding into Go structs\<close>

text \<open>
  \<^verbatim>\<open>json.Unmarshal\<close> into a struct: members are read in order, a key selects the field of that name
  (exactly or up to letter case), \<^verbatim>\<open>null\<close> leaves the field as it is, unknown keys are skipped, and a
  value of the wrong type is an error.
\<close>

text \<open>
  Unicode's case folding as far as it can reach an ASCII name: besides the ASCII letters, the long s
  (U+017F) folds to s and the Kelvin sign (U+212A) to k.
\<close>

function fold_key :: "string \<Rightarrow> string" where
  "fold_key [] = []"
| "fold_key (c # s) =
     (if c = CHR 0xC5 \<and> take 1 s = [CHR 0xBF] then CHR ''s'' # fold_key (drop 1 s)
      else if c = CHR 0xE2 \<and> take 2 s = [CHR 0x84, CHR 0xAA] then CHR ''k'' # fold_key (drop 2 s)
      else lower_char c # fold_key s)"
  by pat_completeness auto
termination
  by (relation "measure length") auto

definition key_matches :: "string \<Rightarrow> string \<Rightarrow> bool" where
  "key_matches name key = (key = name \<or> fold_key key = fold_key name)"

definition UnmarshalTypeError :: goerr where
  "UnmarshalTypeError = ErrText ''json: cannot unmarshal value into Go struct field''"

definition JsonSyntaxError :: goerr where
  "JsonSyntaxError = ErrText ''json: invalid character''"

fun get_string :: "string \<Rightarrow> string \<Rightarrow> (string \<times> json) list \<Rightarrow> string result" where
  "get_string name acc [] = Inr acc"
| "get_string name acc ((k, v) # ms) =
     (if key_matches name k then
        (case v of JStr s \<Rightarrow> get_string name s ms | JNull \<Rightarrow> get_string name acc ms | _ \<Rightarrow> Inl UnmarshalTypeError)
      else get_string name acc ms)"

fun get_int64 :: "string \<Rightarrow> int \<Rightarrow> (string \<times> json) list \<Rightarrow> int result" where
  "get_int64 name acc [] = Inr acc"
| "get_int64 name acc ((k, v) # ms) =
     (if key_matches name k then
        (case v of
           JNum l \<Rightarrow> (case ParseInt l of Some i \<Rightarrow> get_int64 name i ms | None \<Rightarrow> Inl UnmarshalTypeError)
         | JNull \<Rightarrow> get_int64 name acc ms
         | _ \<Rightarrow> Inl UnmarshalTypeError)
      else get_int64 name acc ms)"

definition bindR :: "'a result \<Rightarrow> ('a \<Rightarrow> 'b result) \<Rightarrow> 'b result" where
  "bindR r f = (case r of Inl e \<Rightarrow> Inl e | Inr x \<Rightarrow> f x)"

lemma bindR_simps [simp]: "bindR (Inl e) f = Inl e" "bindR (Inr x) f = f x"
  by (simp_all add: bindR_def)

lemma bindR_success: "bindR r f = Inr y \<longleftrightarrow> (\<exists>x. r = Inr x \<and> f x = Inr y)"
  by (cases r) auto

lemma is_digit_num_char [simp]: "is_digit c \<Longrightarrow> is_num_char c"
  by (simp add: is_num_char_def)

lemma show_nat_no_leading_zero: "hd (show_nat n) = CHR ''0'' \<longrightarrow> length (show_nat n) = 1"
proof (induction n rule: show_nat.induct)
  case (1 n)
  show ?case
  proof (cases "n < 10")
    case True
    then show ?thesis by (subst (1 2) show_nat.simps) simp
  next
    case False
    have "0 < n div 10" using False by simp
    moreover have "hd (show_nat (n div 10)) = CHR ''0'' \<longrightarrow> length (show_nat (n div 10)) = 1"
      using "1" False by blast
    moreover have "show_nat (n div 10) = [CHR ''0''] \<Longrightarrow> n div 10 = 0"
      using digits_val_show_nat [of "n div 10"] by (simp add: digits_val_def digit_val_def)
    ultimately have "hd (show_nat (n div 10)) \<noteq> CHR ''0''"
      by (metis One_nat_def length_0_conv length_Suc_conv list.sel(1) less_not_refl)
    with False show ?thesis
      by (subst (1) show_nat.simps) simp
  qed
qed

lemma valid_number_show_int: "valid_number (show_int i)"
proof -
  have ds: "list_all is_digit (show_nat n)" for n
    by (rule show_nat_digits)
  then have tw: "takeWhile is_digit (show_nat n) = show_nat n" "dropWhile is_digit (show_nat n) = []" for n
    by (simp_all add: takeWhile_eq_all_conv dropWhile_eq_Nil_conv list_all_iff)
  obtain c cs where c: "show_nat (nat i) = c # cs" "is_digit c"
    using show_nat_hd by blast
  show ?thesis
  proof (cases "i < 0")
    case True
    then show ?thesis
      using show_nat_no_leading_zero by (simp add: valid_number_def show_int_def tw valid_frac_def)
  next
    case False
    have "(case show_nat (nat i) of c # r \<Rightarrow> if c = CHR ''-'' then r else show_nat (nat i)
            | [] \<Rightarrow> show_nat (nat i)) = show_nat (nat i)"
      using c digit_not_sign [OF c(2)] by simp
    with False show ?thesis
      using show_nat_no_leading_zero [of "nat i"]
      by (simp add: valid_number_def show_int_def valid_frac_def tw Let_def)
  qed
qed

lemma num_chars_show_int: "list_all is_num_char (show_int i)"
proof -
  have "list_all is_num_char (show_nat n)" for n
    using show_nat_digits [of n] by (auto simp: list_all_iff)
  then show ?thesis
    by (simp add: show_int_def) (simp add: is_num_char_def)
qed

lemma wf_json_show_int [simp]: "wf_json (JNum (show_int i))"
  by (simp add: valid_number_show_int num_chars_show_int)

end
