(* ===== verification/Go_Crypto.thy ===== *)
theory Go_Crypto
  imports Go_Encoding
begin

unbundle bit_operations_syntax

text \<open>
  The cryptographic primitives the service takes from Go's standard library, written out: SHA-256
  (\<^verbatim>\<open>crypto/sha256\<close>), HMAC (\<^verbatim>\<open>crypto/hmac\<close>) and AES-256 in Galois counter mode with 96-bit nonces
  and 128-bit tags (\<^verbatim>\<open>crypto/aes\<close>, \<^verbatim>\<open>crypto/cipher\<close>). What clients rely on is the locale \<open>aead\<close>;
  secrecy and unforgeability are computational notions and are not stated.
\<close>

section \<open>SHA-256\<close>

text \<open>
  The constants as FIPS 180-4 defines them: the first 32 bits of the fractional parts of the cube roots
  of the first 64 primes, and of the square roots of the first eight. \<open>int_root k n\<close> is the integer part of
  the \<open>k\<close>-th root of \<open>n\<close>, found bit by bit; scaling by a power of two brings the fraction in front.
\<close>

fun root_bits :: "nat \<Rightarrow> int \<Rightarrow> nat \<Rightarrow> int \<Rightarrow> int" where
  "root_bits k n 0 r = r"
| "root_bits k n (Suc i) r = root_bits k n i (if (r + 2 ^ i) ^ k \<le> n then r + 2 ^ i else r)"

definition int_root :: "nat \<Rightarrow> int \<Rightarrow> int" where
  "int_root k n = root_bits k n 40 0"

definition first_primes :: "int list" where
  "first_primes = [2, 3, 5, 7, 11, 13, 17, 19, 23, 29, 31, 37, 41, 43, 47, 53, 59, 61, 67, 71, 73, 79, 83, 89,
     97, 101, 103, 107, 109, 113, 127, 131, 137, 139, 149, 151, 157, 163, 167, 173, 179, 181, 191, 193, 197,
     199, 211, 223, 227, 229, 233, 239, 241, 251, 257, 263, 269, 271, 277, 281, 283, 293, 307, 311]"

definition root_fraction :: "nat \<Rightarrow> int \<Rightarrow> uint32" where
  "root_fraction k p = word_of_int (int_root k (p * 2 ^ (32 * k)))"

definition sha_K :: "uint32 list" where
  "sha_K = map (root_fraction 3) first_primes"

definition sha_H0 :: "uint32 list" where
  "sha_H0 = map (root_fraction 2) (take 8 first_primes)"

definition be_bytes :: "nat \<Rightarrow> nat \<Rightarrow> bytes" where
  "be_bytes k n = map (\<lambda>i. word_of_nat (n div 256 ^ (k - 1 - i))) [0..<k]"

definition be_word :: "bytes \<Rightarrow> uint32" where
  "be_word bs = foldl (\<lambda>w b. push_bit 8 w OR ucast b) 0 bs"

definition sha_pad :: "bytes \<Rightarrow> bytes" where
  "sha_pad m = m @ 0x80 # replicate ((119 - length m mod 64) mod 64) 0 @ be_bytes 8 (8 * length m)"

fun chunks :: "nat \<Rightarrow> 'a list \<Rightarrow> 'a list list" where
  "chunks k [] = []"
| "chunks k (x # xs) = (if k = 0 then [x # xs] else take k (x # xs) # chunks k (drop k (x # xs)))"

fun sha_schedule :: "nat \<Rightarrow> uint32 list \<Rightarrow> uint32 list" where
  "sha_schedule 0 w = w"
| "sha_schedule (Suc n) w =
     (let t = length w; a = w ! (t - 15); b = w ! (t - 2);
          s0 = word_rotr 7 a XOR word_rotr 18 a XOR drop_bit 3 a;
          s1 = word_rotr 17 b XOR word_rotr 19 b XOR drop_bit 10 b
      in sha_schedule n (w @ [w ! (t - 16) + s0 + w ! (t - 7) + s1]))"

fun sha_round :: "uint32 list \<Rightarrow> uint32 \<times> uint32 \<Rightarrow> uint32 list" where
  "sha_round [a, b, c, d, e, f, g, h] (k, w) =
     (let S1 = word_rotr 6 e XOR word_rotr 11 e XOR word_rotr 25 e;
          ch = (e AND f) XOR (NOT e AND g);
          t1 = h + S1 + ch + k + w;
          S0 = word_rotr 2 a XOR word_rotr 13 a XOR word_rotr 22 a;
          maj = (a AND b) XOR (a AND c) XOR (b AND c)
      in [t1 + S0 + maj, a, b, c, d + t1, e, f, g])"
| "sha_round s kw = s"

definition sha_block :: "uint32 list \<Rightarrow> bytes \<Rightarrow> uint32 list" where
  "sha_block h blk =
     map2 (+) h (foldl sha_round h (zip sha_K (sha_schedule 48 (map be_word (chunks 4 blk)))))"

definition sha256 :: "bytes \<Rightarrow> bytes" where
  "sha256 m = concat (map (\<lambda>w. be_bytes 4 (unat w)) (foldl sha_block sha_H0 (chunks 64 (sha_pad m))))"

definition hmac_key :: "bytes \<Rightarrow> bytes" where
  "hmac_key key = (let k = (if length key > 64 then sha256 key else key)
                   in k @ replicate (64 - length k) 0)"

definition hmac_sha256 :: "bytes \<Rightarrow> bytes \<Rightarrow> bytes" where
  "hmac_sha256 key m =
     (let k = hmac_key key
      in sha256 (map (\<lambda>b. b XOR 0x5c) k @ sha256 (map (\<lambda>b. b XOR 0x36) k @ m)))"

section \<open>AES-256\<close>

definition aes_sbox :: "byte list" where
  "aes_sbox = [
    0x63, 0x7c, 0x77, 0x7b, 0xf2, 0x6b, 0x6f, 0xc5, 0x30, 0x01, 0x67, 0x2b, 0xfe, 0xd7, 0xab, 0x76,
    0xca, 0x82, 0xc9, 0x7d, 0xfa, 0x59, 0x47, 0xf0, 0xad, 0xd4, 0xa2, 0xaf, 0x9c, 0xa4, 0x72, 0xc0,
    0xb7, 0xfd, 0x93, 0x26, 0x36, 0x3f, 0xf7, 0xcc, 0x34, 0xa5, 0xe5, 0xf1, 0x71, 0xd8, 0x31, 0x15,
    0x04, 0xc7, 0x23, 0xc3, 0x18, 0x96, 0x05, 0x9a, 0x07, 0x12, 0x80, 0xe2, 0xeb, 0x27, 0xb2, 0x75,
    0x09, 0x83, 0x2c, 0x1a, 0x1b, 0x6e, 0x5a, 0xa0, 0x52, 0x3b, 0xd6, 0xb3, 0x29, 0xe3, 0x2f, 0x84,
    0x53, 0xd1, 0x00, 0xed, 0x20, 0xfc, 0xb1, 0x5b, 0x6a, 0xcb, 0xbe, 0x39, 0x4a, 0x4c, 0x58, 0xcf,
    0xd0, 0xef, 0xaa, 0xfb, 0x43, 0x4d, 0x33, 0x85, 0x45, 0xf9, 0x02, 0x7f, 0x50, 0x3c, 0x9f, 0xa8,
    0x51, 0xa3, 0x40, 0x8f, 0x92, 0x9d, 0x38, 0xf5, 0xbc, 0xb6, 0xda, 0x21, 0x10, 0xff, 0xf3, 0xd2,
    0xcd, 0x0c, 0x13, 0xec, 0x5f, 0x97, 0x44, 0x17, 0xc4, 0xa7, 0x7e, 0x3d, 0x64, 0x5d, 0x19, 0x73,
    0x60, 0x81, 0x4f, 0xdc, 0x22, 0x2a, 0x90, 0x88, 0x46, 0xee, 0xb8, 0x14, 0xde, 0x5e, 0x0b, 0xdb,
    0xe0, 0x32, 0x3a, 0x0a, 0x49, 0x06, 0x24, 0x5c, 0xc2, 0xd3, 0xac, 0x62, 0x91, 0x95, 0xe4, 0x79,
    0xe7, 0xc8, 0x37, 0x6d, 0x8d, 0xd5, 0x4e, 0xa9, 0x6c, 0x56, 0xf4, 0xea, 0x65, 0x7a, 0xae, 0x08,
    0xba, 0x78, 0x25, 0x2e, 0x1c, 0xa6, 0xb4, 0xc6, 0xe8, 0xdd, 0x74, 0x1f, 0x4b, 0xbd, 0x8b, 0x8a,
    0x70, 0x3e, 0xb5, 0x66, 0x48, 0x03, 0xf6, 0x0e, 0x61, 0x35, 0x57, 0xb9, 0x86, 0xc1, 0x1d, 0x9e,
    0xe1, 0xf8, 0x98, 0x11, 0x69, 0xd9, 0x8e, 0x94, 0x9b, 0x1e, 0x87, 0xe9, 0xce, 0x55, 0x28, 0xdf,
    0x8c, 0xa1, 0x89, 0x0d, 0xbf, 0xe6, 0x42, 0x68, 0x41, 0x99, 0x2d, 0x0f, 0xb0, 0x54, 0xbb, 0x16]"

definition sub_byte :: "byte \<Rightarrow> byte" where
  "sub_byte b = aes_sbox ! unat b"

definition xtime :: "byte \<Rightarrow> byte" where
  "xtime b = (if bit b 7 then push_bit 1 b XOR 0x1b else push_bit 1 b)"

definition xor_bytes :: "bytes \<Rightarrow> bytes \<Rightarrow> bytes" where
  "xor_bytes xs ys = map2 (XOR) xs ys"

fun rcon :: "nat \<Rightarrow> byte" where
  "rcon 0 = 1"
| "rcon (Suc n) = xtime (rcon n)"

text \<open>The key schedule: words of four bytes, the newest last.\<close>

fun aes_expand :: "nat \<Rightarrow> bytes list \<Rightarrow> bytes list" where
  "aes_expand 0 w = w"
| "aes_expand (Suc n) w =
     (let i = length w; t = w ! (i - 1); r = w ! (i - 8);
          t' = (if i mod 8 = 0 then xor_bytes (map sub_byte (rotate1 t)) [rcon (i div 8 - 1), 0, 0, 0]
                else if i mod 8 = 4 then map sub_byte t else t)
      in aes_expand n (w @ [xor_bytes r t']))"

definition aes_round_keys :: "bytes \<Rightarrow> bytes list" where
  "aes_round_keys key = chunks 16 (concat (aes_expand 52 (chunks 4 key)))"

definition shift_rows :: "bytes \<Rightarrow> bytes" where
  "shift_rows s = map (\<lambda>i. s ! ((i + 4 * (i mod 4)) mod 16)) [0..<16]"

fun mix_column :: "bytes \<Rightarrow> bytes" where
  "mix_column [a, b, c, d] =
     [xtime a XOR xtime b XOR b XOR c XOR d, a XOR xtime b XOR xtime c XOR c XOR d,
      a XOR b XOR xtime c XOR xtime d XOR d, xtime a XOR a XOR b XOR c XOR xtime d]"
| "mix_column s = s"

definition mix_columns :: "bytes \<Rightarrow> bytes" where
  "mix_columns s = concat (map mix_column (chunks 4 s))"

fun aes_rounds :: "bytes list \<Rightarrow> bytes \<Rightarrow> bytes" where
  "aes_rounds [] s = s"
| "aes_rounds [k] s = xor_bytes (shift_rows (map sub_byte s)) k"
| "aes_rounds (k # l # ks) s = aes_rounds (l # ks) (xor_bytes (mix_columns (shift_rows (map sub_byte s))) k)"

definition aes_block :: "bytes \<Rightarrow> bytes \<Rightarrow> bytes" where
  "aes_block key blk =
     (case aes_round_keys key of [] \<Rightarrow> blk | k # ks \<Rightarrow> aes_rounds ks (xor_bytes blk k))"

section \<open>Galois counter mode\<close>

definition block_word :: "bytes \<Rightarrow> 128 word" where
  "block_word bs = foldl (\<lambda>w b. push_bit 8 w OR ucast b) 0 bs"

definition word_block :: "128 word \<Rightarrow> bytes" where
  "word_block w = map (\<lambda>i. ucast (drop_bit (8 * (15 - i)) w)) [0..<16]"

definition gf_half :: "128 word \<Rightarrow> 128 word" where
  "gf_half v = (if bit v 0 then drop_bit 1 v XOR push_bit 120 0xe1 else drop_bit 1 v)"

definition gf_mul :: "128 word \<Rightarrow> 128 word \<Rightarrow> 128 word" where
  "gf_mul x y =
     fst (foldl (\<lambda>(z, v) i. (if bit x (127 - i) then z XOR v else z, gf_half v)) (0, y) [0..<128])"

definition pad16 :: "bytes \<Rightarrow> bytes" where
  "pad16 bs = bs @ replicate ((16 - length bs mod 16) mod 16) 0"

definition ghash :: "128 word \<Rightarrow> bytes \<Rightarrow> 128 word" where
  "ghash h bs = foldl (\<lambda>y blk. gf_mul (y XOR block_word blk) h) 0 (chunks 16 bs)"

definition gcm_NonceSize :: nat where "gcm_NonceSize = 12"
definition gcm_Overhead :: nat where "gcm_Overhead = 16"

definition gcm_keystream :: "bytes \<Rightarrow> bytes \<Rightarrow> nat \<Rightarrow> bytes" where
  "gcm_keystream key nonce n =
     concat (map (\<lambda>i. aes_block key (nonce @ be_bytes 4 (i + 2))) [0..<(n + 15) div 16])"

definition gcm_crypt :: "bytes \<Rightarrow> bytes \<Rightarrow> bytes \<Rightarrow> bytes" where
  "gcm_crypt key nonce txt =
     map (\<lambda>(i, b). b XOR (let ks = gcm_keystream key nonce (length txt) in if i < length ks then ks ! i else 0))
       (enumerate 0 txt)"

definition gcm_tag :: "bytes \<Rightarrow> bytes \<Rightarrow> bytes \<Rightarrow> bytes" where
  "gcm_tag key nonce ct =
     (let h = block_word (aes_block key (replicate 16 0));
          s = ghash h (pad16 ct @ be_bytes 8 0 @ be_bytes 8 (8 * length ct))
      in word_block (s XOR block_word (aes_block key (nonce @ be_bytes 4 1))))"

definition gcm_Seal :: "bytes \<Rightarrow> bytes \<Rightarrow> bytes \<Rightarrow> bytes" where
  "gcm_Seal key nonce pt = (let ct = gcm_crypt key nonce pt in ct @ gcm_tag key nonce ct)"

definition gcm_Open :: "bytes \<Rightarrow> bytes \<Rightarrow> bytes \<Rightarrow> bytes option" where
  "gcm_Open key nonce c =
     (if length c < gcm_Overhead then None
      else let n = length c - gcm_Overhead; ct = take n c
           in if drop n c = gcm_tag key nonce ct then Some (gcm_crypt key nonce ct) else None)"

section \<open>The interface of an authenticated cipher\<close>

text \<open>
  Opening what was sealed gives the plaintext back, and only sealed values open: a text that opens
  to \<open>p\<close> is the sealing of \<open>p\<close> under the same key and nonce.
\<close>

locale aead =
  fixes seal :: "bytes \<Rightarrow> bytes \<Rightarrow> bytes \<Rightarrow> bytes"
    and opn :: "bytes \<Rightarrow> bytes \<Rightarrow> bytes \<Rightarrow> bytes option"
    and overhead :: nat
  assumes open_seal: "opn k n (seal k n p) = Some p"
    and open_sound: "opn k n c = Some p \<Longrightarrow> c = seal k n p"
    and seal_length: "length (seal k n p) = length p + overhead"
begin

lemma open_iff: "opn k n c = Some p \<longleftrightarrow> c = seal k n p"
  using open_seal open_sound by blast

lemma seal_inject: "seal k n p = seal k n q \<longleftrightarrow> p = q"
  by (metis open_seal option.inject)

lemma open_too_short: "length c < overhead \<Longrightarrow> opn k n c = None"
proof (cases "opn k n c")
  case (Some p)
  assume "length c < overhead"
  with seal_length [of k n p] open_sound [OF Some] show ?thesis by simp
qed

lemma open_length: "opn k n c = Some p \<Longrightarrow> length c = length p + overhead"
  by (simp add: open_iff seal_length)

end

lemma length_gcm_crypt [simp]: "length (gcm_crypt k n p) = length p"
  by (simp add: gcm_crypt_def)

lemma nth_gcm_crypt:
  "i < length p \<Longrightarrow> gcm_crypt k n p ! i =
     p ! i XOR (let ks = gcm_keystream k n (length p) in if i < length ks then ks ! i else 0)"
  by (simp add: gcm_crypt_def nth_enumerate_eq)

lemma gcm_crypt_involutive [simp]: "gcm_crypt k n (gcm_crypt k n p) = p"
  by (rule nth_equalityI) (simp_all add: nth_gcm_crypt xor.assoc)

lemma length_gcm_tag [simp]: "length (gcm_tag k n c) = gcm_Overhead"
  by (simp add: gcm_tag_def word_block_def gcm_Overhead_def Let_def)

interpretation gcm: aead gcm_Seal gcm_Open gcm_Overhead
proof unfold_locales
  fix k n p c
  show "length (gcm_Seal k n p) = length p + gcm_Overhead"
    by (simp add: gcm_Seal_def Let_def)
  show "gcm_Open k n (gcm_Seal k n p) = Some p"
    by (simp add: gcm_Seal_def gcm_Open_def Let_def)
  assume o: "gcm_Open k n c = Some p"
  define m where "m = length c - gcm_Overhead"
  from o have tag: "drop m c = gcm_tag k n (take m c)" and p: "p = gcm_crypt k n (take m c)"
    by (auto simp: gcm_Open_def Let_def m_def split: if_splits)
  have "gcm_Seal k n p = take m c @ drop m c"
    by (simp add: gcm_Seal_def Let_def p tag)
  then show "c = gcm_Seal k n p" by simp
qed

section \<open>Sizes\<close>

lemma length_be_bytes [simp]: "length (be_bytes k n) = k"
  by (simp add: be_bytes_def)

lemma length_sha_round [simp]: "length (sha_round s kw) = length s"
  by (induction s kw rule: sha_round.induct) (simp_all add: Let_def)

lemma length_foldl_sha_round [simp]: "length (foldl sha_round s kws) = length s"
  by (induction kws arbitrary: s) simp_all

lemma length_foldl_sha_block [simp]: "length (foldl sha_block h bs) = length h"
  by (induction bs arbitrary: h) (simp_all add: sha_block_def)

lemma length_sha256 [simp]: "length (sha256 m) = 32"
proof -
  have "length (concat (map (\<lambda>w. be_bytes 4 (unat w)) ws)) = 4 * length ws" for ws :: "uint32 list"
    by (induction ws) auto
  then show ?thesis
    by (simp add: sha256_def sha_H0_def first_primes_def)
qed

lemma length_hmac_sha256 [simp]: "length (hmac_sha256 k m) = 32"
  by (simp add: hmac_sha256_def Let_def)

end
