(* ===== verification/Go_OS.thy ===== *)
theory Go_OS
  imports Go_Crypto
begin

text \<open>
  The host the process runs on: files, randomness, the clock. Every primitive can fail: the fault
  fields say which call of the environment's choice fails and how. A failing \<^verbatim>\<open>os.WriteFile\<close> has
  created or truncated the file and written some prefix of the data. \<^verbatim>\<open>crypto/rand\<close> hands out the
  bytes of \<open>entropy\<close> and fails when they run out. The clock counts nanoseconds since the epoch; the
  environment advances it between calls.
\<close>

record host =
  files :: "(string \<times> string) list"
  read_fault :: "string \<Rightarrow> goerr option"
  write_fault :: "string \<Rightarrow> (goerr \<times> nat) option"
  rename_fault :: "string \<Rightarrow> goerr option"
  mkdir_fault :: "string \<Rightarrow> goerr option"
  entropy :: bytes
  clock :: int

definition lookup_file :: "'z host_scheme \<Rightarrow> string \<Rightarrow> string option" where
  "lookup_file h p = map_of (files h) p"

definition put_file :: "string \<Rightarrow> string \<Rightarrow> 'z host_scheme \<Rightarrow> 'z host_scheme" where
  "put_file p c h = h\<lparr>files := AList.update p c (files h)\<rparr>"

definition os_ReadFile :: "string \<Rightarrow> ('z host_scheme, string) action" where
  "os_ReadFile p = (\<lambda>h. case read_fault h p of
       Some e \<Rightarrow> (Inl e, h)
     | None \<Rightarrow> (case lookup_file h p of None \<Rightarrow> (Inl ErrNotExist, h) | Some c \<Rightarrow> (Inr c, h)))"

definition os_WriteFile :: "string \<Rightarrow> string \<Rightarrow> ('z host_scheme, unit) action" where
  "os_WriteFile p c = (\<lambda>h. case write_fault h p of
       Some (e, k) \<Rightarrow> (Inl e, put_file p (take k c) h)
     | None \<Rightarrow> (Inr (), put_file p c h))"

definition os_Rename :: "string \<Rightarrow> string \<Rightarrow> ('z host_scheme, unit) action" where
  "os_Rename a b = (\<lambda>h. case rename_fault h b of
       Some e \<Rightarrow> (Inl e, h)
     | None \<Rightarrow> (case lookup_file h a of
           None \<Rightarrow> (Inl ErrNotExist, h)
         | Some c \<Rightarrow> (Inr (), put_file b c (h\<lparr>files := AList.delete a (files h)\<rparr>))))"

definition os_MkdirAll :: "string \<Rightarrow> ('z host_scheme, unit) action" where
  "os_MkdirAll p = (\<lambda>h. case mkdir_fault h p of Some e \<Rightarrow> (Inl e, h) | None \<Rightarrow> (Inr (), h))"

definition rand_Read :: "nat \<Rightarrow> ('z host_scheme, bytes) action" where
  "rand_Read n = (\<lambda>h. if length (entropy h) < n then (Inl (ErrText ''unexpected EOF''), h)
     else (Inr (take n (entropy h)), h\<lparr>entropy := drop n (entropy h)\<rparr>))"

definition time_Now :: "('z host_scheme, int) action" where
  "time_Now = getS clock"

text \<open>\<^verbatim>\<open>t.Unix()\<close>: whole seconds, rounded down.\<close>

definition unix_seconds :: "int \<Rightarrow> int" where
  "unix_seconds t = t div time_Second"

text \<open>\<^verbatim>\<open>filepath.Join\<close> of a clean directory path and a plain name.\<close>

definition filepath_Join :: "string \<Rightarrow> string \<Rightarrow> string" where
  "filepath_Join d n =
     (if d = [] then n else if last d = CHR ''/'' then d @ n else d @ CHR ''/'' # n)"

section \<open>Laws\<close>

lemma lookup_put_file [simp]: "lookup_file (put_file p c h) q = (if q = p then Some c else lookup_file h q)"
  by (simp add: lookup_file_def put_file_def update_conv')

lemma put_file_fields [simp]:
  "entropy (put_file p c h) = entropy h" "clock (put_file p c h) = clock h"
  "read_fault (put_file p c h) = read_fault h" "write_fault (put_file p c h) = write_fault h"
  "rename_fault (put_file p c h) = rename_fault h" "mkdir_fault (put_file p c h) = mkdir_fault h"
  by (simp_all add: put_file_def)

lemma put_file_more [simp]: "host.more (put_file p c h) = host.more h"
  by (simp add: put_file_def)

lemma lookup_delete_file [simp]:
  "lookup_file (h\<lparr>files := AList.delete a (files h)\<rparr>) q = (if q = a then None else lookup_file h q)"
  by (simp add: lookup_file_def delete_conv')

lemma lookup_entropy_update [simp]: "lookup_file (h\<lparr>entropy := e\<rparr>) p = lookup_file h p"
  by (simp add: lookup_file_def)

lemma os_ReadFile_state [simp]: "snd (os_ReadFile p h) = h"
  by (simp add: os_ReadFile_def split: option.splits)

lemma os_MkdirAll_state [simp]: "snd (os_MkdirAll p h) = h"
  by (simp add: os_MkdirAll_def split: option.splits)

lemma rand_Read_success:
  "rand_Read n h = (Inr r, h') \<longleftrightarrow>
     n \<le> length (entropy h) \<and> r = take n (entropy h) \<and> h' = h\<lparr>entropy := drop n (entropy h)\<rparr>"
  by (auto simp: rand_Read_def)

lemma filepath_Join_inject [simp]: "filepath_Join d a = filepath_Join d b \<longleftrightarrow> a = b"
  by (simp add: filepath_Join_def)

text \<open>The frame of the host primitives: which part of the state they leave alone.\<close>

definition same_more :: "'z host_scheme \<Rightarrow> 'z host_scheme \<Rightarrow> bool" where
  "same_more h h' \<longleftrightarrow> host.more h' = host.more h \<and> clock h' = clock h"

interpretation same_more: frame_relation same_more
  by unfold_locales (auto simp: same_more_def)

lemma same_more_ReadFile: "keeps same_more (os_ReadFile p)"
  by (simp add: keeps_def same_more_def)

lemma same_more_MkdirAll: "keeps same_more (os_MkdirAll p)"
  by (simp add: keeps_def same_more_def)

lemma same_more_WriteFile: "keeps same_more (os_WriteFile p c)"
  by (auto simp: keeps_def same_more_def os_WriteFile_def split: option.splits)

lemma same_more_Rename: "keeps same_more (os_Rename a b)"
  by (auto simp: keeps_def same_more_def os_Rename_def put_file_def split: option.splits)

lemma same_more_rand_Read: "keeps same_more (rand_Read n)"
  by (auto simp: keeps_def same_more_def rand_Read_def)

lemmas same_more_host = same_more_ReadFile same_more_MkdirAll same_more_WriteFile
  same_more_Rename same_more_rand_Read

end
