(* ===== verification/Encryption.thy ===== *)
theory Encryption
  imports Go_OS
begin

text \<open>
  Sealing of wallet secrets at rest: \<^verbatim>\<open>internal/service/encryption.go\<close>. A sealed value is the text
  \<^verbatim>\<open>v1:\<close> and the base64 form of a fresh nonce followed by the AES-256-GCM sealing of the secret. The
  theorems show that opening inverts sealing, and that nothing else opens.
\<close>

section \<open>Definitions\<close>

definition sealedPrefix :: string where
  "sealedPrefix = ''v1:''"

definition aeadForKey :: "bytes \<Rightarrow> bytes result" where
  "aeadForKey key =
     (if length key \<noteq> 32 then Inl (ErrText ''data key must be 32 bytes'') else Inr key)"

definition sealString :: "bytes \<Rightarrow> string \<Rightarrow> ('z host_scheme, string) action" where
  "sealString key plaintext =
     (if plaintext = [] then returnE []
      else
        bindE (liftR (aeadForKey key)) (\<lambda>cipher.
        bindE (rand_Read gcm_NonceSize) (\<lambda>nonce.
        let ciphertext = gcm_Seal cipher nonce (bytes_of_string plaintext);
            buf = nonce @ ciphertext
        in returnE (sealedPrefix @ RawURL_EncodeToString buf))))"

definition openString :: "bytes \<Rightarrow> string \<Rightarrow> string result" where
  "openString key sealed =
     (if sealed = [] then Inr []
      else if \<not> HasPrefix sealed sealedPrefix then Inl (ErrText ''unsupported sealed value'')
      else (case RawURL_DecodeString (TrimPrefix sealed sealedPrefix) of
        Inl e \<Rightarrow> Inl e
      | Inr raw \<Rightarrow>
         (case aeadForKey key of
            Inl e \<Rightarrow> Inl e
          | Inr cipher \<Rightarrow>
             if length raw < gcm_NonceSize then Inl (ErrText ''sealed value too short'')
             else (case gcm_Open cipher (take gcm_NonceSize raw) (drop gcm_NonceSize raw) of
                    None \<Rightarrow> Inl (ErrText ''cipher: message authentication failed'')
                  | Some plaintext \<Rightarrow> Inr (string_of_bytes plaintext)))))"

section \<open>Sealing\<close>

lemma sealString_Nil [simp]: "sealString key [] h = (Inr [], h)"
  by (simp add: sealString_def returnE_def)

lemma sealString_success:
  "sealString key p h = (Inr s, h') \<longleftrightarrow>
     (if p = [] then s = [] \<and> h' = h
      else length key = 32 \<and> 12 \<le> length (entropy h)
        \<and> s = sealedPrefix @ RawURL_EncodeToString
                (take 12 (entropy h) @ gcm_Seal key (take 12 (entropy h)) (bytes_of_string p))
        \<and> h' = h\<lparr>entropy := drop 12 (entropy h)\<rparr>)"
  by (auto simp: sealString_def act_simps aeadForKey_def rand_Read_def gcm_NonceSize_def Let_def
      split: if_splits)

lemma same_more_sealString: "keeps same_more (sealString key p)"
  unfolding sealString_def Let_def
  by (auto intro!: same_more.keeps_bindE same_more.keeps_returnE same_more.keeps_liftR same_more_host)

lemma sealString_files: "lookup_file (snd (sealString key p h)) = lookup_file h"
  by (rule ext)
    (auto simp: sealString_def act_simps aeadForKey_def rand_Read_def Let_def split: if_splits)

lemma sealString_total:
  assumes "length key = 32" and "12 \<le> length (entropy h)"
  shows "\<exists>s h'. sealString key p h = (Inr s, h')"
proof (cases "p = []")
  case False
  with assms show ?thesis
    using sealString_success [of key p h] by auto
qed simp

section \<open>Opening\<close>

lemma openString_prefixed:
  "openString key (sealedPrefix @ t) =
     (case RawURL_DecodeString t of
        Inl e \<Rightarrow> Inl e
      | Inr raw \<Rightarrow>
         (case aeadForKey key of
            Inl e \<Rightarrow> Inl e
          | Inr cipher \<Rightarrow>
             if length raw < 12 then Inl (ErrText ''sealed value too short'')
             else (case gcm_Open cipher (take 12 raw) (drop 12 raw) of
                    None \<Rightarrow> Inl (ErrText ''cipher: message authentication failed'')
                  | Some plaintext \<Rightarrow> Inr (string_of_bytes plaintext))))"
  unfolding openString_def gcm_NonceSize_def
  by (simp add: sealedPrefix_def HasPrefix_def TrimPrefix_def)

lemma openString_sealed:
  assumes "length key = 32" and "length nonce = 12"
  shows "openString key (sealedPrefix @ RawURL_EncodeToString (nonce @ gcm_Seal key nonce p))
           = Inr (string_of_bytes p)"
  using assms by (simp add: openString_prefixed rawurl.dec_enc aeadForKey_def gcm.open_seal)

lemma open_of_seal:
  assumes "sealString key p h = (Inr s, h')"
  shows "openString key s = Inr p"
proof (cases "p = []")
  case True
  with assms show ?thesis by (simp add: openString_def)
next
  case False
  with assms show ?thesis
    by (auto simp: sealString_success openString_sealed)
qed

lemma openString_success:
  assumes "openString key s = Inr p" and "s \<noteq> []"
  shows "length key = 32 \<and> (\<exists>t nonce. s = sealedPrefix @ t \<and> length nonce = 12
           \<and> RawURL_DecodeString t = Inr (nonce @ gcm_Seal key nonce (bytes_of_string p)))"
proof -
  from assms obtain t where s: "s = sealedPrefix @ t"
    by (auto simp: openString_def HasPrefix_iff split: if_splits)
  obtain raw where raw: "RawURL_DecodeString t = Inr raw" and key: "length key = 32"
    and len: "\<not> length raw < 12" and op: "gcm_Open key (take 12 raw) (drop 12 raw) = Some (bytes_of_string p)"
    using assms(1) unfolding s openString_prefixed aeadForKey_def
    by (auto split: sum.splits if_splits option.splits)
  have "drop 12 raw = gcm_Seal key (take 12 raw) (bytes_of_string p)"
    using op by (simp add: gcm.open_iff)
  then have "raw = take 12 raw @ gcm_Seal key (take 12 raw) (bytes_of_string p)"
    by (metis append_take_drop_id)
  with s raw key len show ?thesis
    by (intro conjI exI [of _ t] exI [of _ "take 12 raw"]) auto
qed

section \<open>Properties\<close>

text \<open>
  C22. Sealing succeeds under every 32-byte key as long as the random source delivers the nonce, and
  opening the sealed value with the same key gives the plaintext back, whatever its bytes.
\<close>

theorem seal_open_roundtrip:
  assumes "length key = 32" and "12 \<le> length (entropy h)"
  shows "\<exists>s h'. sealString key p h = (Inr s, h') \<and> openString key s = Inr p"
  using sealString_total [OF assms, of p] open_of_seal by blast

theorem seal_open_roundtrip_witness:
  "\<exists>s h'. sealString (replicate 32 7) ''abandon ability'' \<lparr>files = [], read_fault = \<lambda>_. None,
       write_fault = \<lambda>_. None, rename_fault = \<lambda>_. None, mkdir_fault = \<lambda>_. None,
       entropy = replicate 12 1, clock = 0\<rparr> = (Inr s, h')
     \<and> openString (replicate 32 7) s = Inr ''abandon ability''"
  by (rule seal_open_roundtrip) simp_all

text \<open>
  C23. Only sealed values open: when a non-empty text opens to \<open>p\<close>, the key has 32 bytes and the
  text is the version prefix followed by the encoding of a 12-byte nonce and the sealing of \<open>p\<close> under
  exactly that key and nonce. A changed ciphertext, nonce or key never opens to a different secret
  than the one its tag was made for.
\<close>

theorem open_only_sealed:
  assumes "openString key s = Inr p" and "s \<noteq> []"
  shows "length key = 32 \<and> (\<exists>t nonce. s = sealedPrefix @ t \<and> length nonce = 12
           \<and> RawURL_DecodeString t = Inr (nonce @ gcm_Seal key nonce (bytes_of_string p)))"
  using assms by (rule openString_success)

theorem open_only_sealed_witness:
  "let key = replicate 32 7; nonce = replicate 12 1;
       s = sealedPrefix @ RawURL_EncodeToString (nonce @ gcm_Seal key nonce (bytes_of_string ''seed''))
   in length key = 32 \<and> (\<exists>t nonce. s = sealedPrefix @ t \<and> length nonce = 12
        \<and> RawURL_DecodeString t = Inr (nonce @ gcm_Seal key nonce (bytes_of_string ''seed'')))"
  unfolding Let_def
  by (rule open_only_sealed) (simp_all add: openString_sealed, simp add: sealedPrefix_def)

end
