(* ===== verification/State_File.thy ===== *)
theory State_File
  imports Go_Json Encryption
begin

text \<open>
  Wallet identities and the state file of \<^verbatim>\<open>internal/service/service.go\<close>: what a tenant or wallet
  identifier may look like, the keys and file names derived from a pair of them, the persisted
  record of a wallet and its JSON form. The lemmas show that the derived key determines the pair,
  and that the JSON form reads back as what was written.
\<close>

section \<open>Status errors\<close>

definition invalid :: "string \<Rightarrow> goerr" where
  "invalid m = Status InvalidArgument m"

definition internal :: "goerr \<Rightarrow> goerr" where
  "internal err = Status Internal (error_text err)"

section \<open>Identifiers\<close>

text \<open>The regular expression \<^verbatim>\<open>^[A-Za-z0-9][A-Za-z0-9_.-]{0,127}$\<close>.\<close>

definition id_first :: "char \<Rightarrow> bool" where
  "id_first c = (let n = byte_val c in 65 \<le> n \<and> n \<le> 90 \<or> 97 \<le> n \<and> n \<le> 122 \<or> 48 \<le> n \<and> n \<le> 57)"

definition id_rest :: "char \<Rightarrow> bool" where
  "id_rest c = (id_first c \<or> c = CHR ''_'' \<or> c = CHR ''.'' \<or> c = CHR ''-'')"

fun idRE :: "string \<Rightarrow> bool" where
  "idRE [] = False"
| "idRE (c # cs) = (id_first c \<and> length cs \<le> 127 \<and> list_all id_rest cs)"

definition validateTenant :: "string \<Rightarrow> unit result" where
  "validateTenant tenantID =
     (if \<not> idRE tenantID then Inl (invalid ''tenant_id must match [A-Za-z0-9][A-Za-z0-9_.-]{0,127}'')
      else Inr ())"

definition validateTenantWallet :: "string \<Rightarrow> string \<Rightarrow> unit result" where
  "validateTenantWallet tenantID walletID =
     bindR (validateTenant tenantID) (\<lambda>_.
     if \<not> idRE walletID then Inl (invalid ''wallet_id must match [A-Za-z0-9][A-Za-z0-9_.-]{0,127}'')
     else Inr ())"

definition walletKey :: "string \<Rightarrow> string \<Rightarrow> string" where
  "walletKey tenantID walletID = tenantID @ CHR 0x00 # walletID"

definition sdkWalletName :: "string \<Rightarrow> string \<Rightarrow> string" where
  "sdkWalletName tenantID walletID =
     (let sum = sha256 (bytes_of_string (tenantID @ CHR 0x00 # walletID))
      in ''bsvms:'' @ Hex_EncodeToString (take 16 sum))"

definition matches :: "string \<Rightarrow> string \<Rightarrow> string \<Rightarrow> string \<Rightarrow> bool" where
  "matches reqTenant reqWallet tenant wallet =
     (if reqTenant \<noteq> [] \<and> reqTenant \<noteq> tenant then False
      else if reqWallet \<noteq> [] \<and> reqWallet \<noteq> wallet then False
      else True)"

section \<open>The state file\<close>

record walletMeta =
  TenantID :: string
  WalletID :: string
  SDKName :: string
  Mnemonic :: string
  Passphrase :: string
  MnemonicCiphertext :: string
  PassphraseCiphertext :: string

definition walletFileID :: "walletMeta \<Rightarrow> string" where
  "walletFileID m =
     (let sum = sha256 (bytes_of_string (TenantID m @ CHR 0x00 # WalletID m)) in Hex_EncodeToString sum)"

definition zero_meta :: walletMeta where
  "zero_meta = \<lparr>TenantID = [], WalletID = [], SDKName = [], Mnemonic = [], Passphrase = [],
     MnemonicCiphertext = [], PassphraseCiphertext = []\<rparr>"

text \<open>A string field with \<^verbatim>\<open>omitempty\<close>.\<close>

definition omitempty :: "string \<Rightarrow> string \<Rightarrow> (string \<times> json) list" where
  "omitempty name v = (if v = [] then [] else [(name, JStr v)])"

definition meta_json :: "walletMeta \<Rightarrow> json" where
  "meta_json m = JObj
     ([(''tenant_id'', JStr (TenantID m)), (''wallet_id'', JStr (WalletID m)), (''sdk_name'', JStr (SDKName m))]
      @ omitempty ''mnemonic'' (Mnemonic m) @ omitempty ''passphrase'' (Passphrase m)
      @ omitempty ''mnemonic_ciphertext'' (MnemonicCiphertext m)
      @ omitempty ''passphrase_ciphertext'' (PassphraseCiphertext m))"

text \<open>\<^verbatim>\<open>stateFile\<close>; the slice of an empty state is nil, which is printed as \<^verbatim>\<open>null\<close>.\<close>

definition state_json :: "walletMeta list \<Rightarrow> json" where
  "state_json ms = JObj [(''wallets'', if ms = [] then JNull else JArr (map meta_json ms))]"

text \<open>
  \<^verbatim>\<open>json.Unmarshal\<close>: a value is decoded over what the variable holds; a null leaves a struct as it is
  and empties a slice; elements of a slice that is already there are decoded in place.
\<close>

definition decode_meta :: "walletMeta \<Rightarrow> json \<Rightarrow> walletMeta result" where
  "decode_meta old j =
     (case j of
        JObj ms \<Rightarrow>
          bindR (get_string ''tenant_id'' (TenantID old) ms) (\<lambda>t.
          bindR (get_string ''wallet_id'' (WalletID old) ms) (\<lambda>w.
          bindR (get_string ''sdk_name'' (SDKName old) ms) (\<lambda>n.
          bindR (get_string ''mnemonic'' (Mnemonic old) ms) (\<lambda>mn.
          bindR (get_string ''passphrase'' (Passphrase old) ms) (\<lambda>pp.
          bindR (get_string ''mnemonic_ciphertext'' (MnemonicCiphertext old) ms) (\<lambda>mc.
          bindR (get_string ''passphrase_ciphertext'' (PassphraseCiphertext old) ms) (\<lambda>pc.
          Inr \<lparr>TenantID = t, WalletID = w, SDKName = n, Mnemonic = mn, Passphrase = pp,
               MnemonicCiphertext = mc, PassphraseCiphertext = pc\<rparr>)))))))
      | JNull \<Rightarrow> Inr old
      | _ \<Rightarrow> Inl UnmarshalTypeError)"

fun decode_metas :: "walletMeta list \<Rightarrow> json list \<Rightarrow> walletMeta list result" where
  "decode_metas old [] = Inr []"
| "decode_metas old (j # js) =
     bindR (decode_meta (case old of [] \<Rightarrow> zero_meta | m # _ \<Rightarrow> m) j) (\<lambda>m.
     bindR (decode_metas (tl old) js) (\<lambda>ms. Inr (m # ms)))"

fun get_metas :: "walletMeta list \<Rightarrow> (string \<times> json) list \<Rightarrow> walletMeta list result" where
  "get_metas acc [] = Inr acc"
| "get_metas acc ((k, v) # ms) =
     (if key_matches ''wallets'' k then
        (case v of
           JArr js \<Rightarrow> bindR (decode_metas acc js) (\<lambda>acc'. get_metas acc' ms)
         | JNull \<Rightarrow> get_metas [] ms
         | _ \<Rightarrow> Inl UnmarshalTypeError)
      else get_metas acc ms)"

definition unmarshal_state :: "string \<Rightarrow> walletMeta list result" where
  "unmarshal_state raw =
     (case json_parse raw of
        None \<Rightarrow> Inl JsonSyntaxError
      | Some (JObj ms) \<Rightarrow> get_metas [] ms
      | Some JNull \<Rightarrow> Inr []
      | Some _ \<Rightarrow> Inl UnmarshalTypeError)"

section \<open>Identifiers determine their key\<close>

lemma id_first_ascii: "id_first c \<Longrightarrow> byte_val c < 128"
  by (auto simp: id_first_def Let_def)

lemma id_rest_ascii: "id_rest c \<Longrightarrow> byte_val c < 128"
  by (auto simp: id_rest_def byte_val_def dest: id_first_ascii [unfolded byte_val_def])

lemma idRE_ascii: "idRE s \<Longrightarrow> ascii s"
  by (cases s) (auto simp: ascii_def list_all_iff dest: id_first_ascii id_rest_ascii)

lemma id_rest_no_NUL: "\<not> id_rest (CHR 0x00)"
  by (simp add: id_rest_def id_first_def byte_val_def)

lemma idRE_no_NUL: "idRE s \<Longrightarrow> CHR 0x00 \<notin> set s"
  using id_rest_no_NUL by (cases s) (auto simp: list_all_iff id_rest_def)

lemma idRE_not_Nil: "idRE s \<Longrightarrow> s \<noteq> []"
  by (cases s) auto

lemma validateTenant_ok: "validateTenant t = Inr u \<longleftrightarrow> idRE t"
  by (simp add: validateTenant_def)

lemma validateTenantWallet_ok: "validateTenantWallet t w = Inr u \<longleftrightarrow> idRE t \<and> idRE w"
  by (simp add: validateTenantWallet_def validateTenant_def)

lemma walletKey_eq:
  assumes "idRE t" and "idRE t'"
  shows "walletKey t w = walletKey t' w' \<longleftrightarrow> t = t' \<and> w = w'"
  using assms append_sep_eq [of "CHR 0x00" t t' w w']
  by (auto simp: walletKey_def dest: idRE_no_NUL)

lemma walletKey_tenant:
  assumes "idRE t" and "CHR 0x00 \<notin> set t'"
  shows "walletKey t w = walletKey t' w' \<longleftrightarrow> t = t' \<and> w = w'"
  using assms append_sep_eq [of "CHR 0x00" t t' w w']
  by (auto simp: walletKey_def dest: idRE_no_NUL)

lemma matches_iff:
  "matches rt rw t w \<longleftrightarrow> (rt = [] \<or> rt = t) \<and> (rw = [] \<or> rw = w)"
  by (auto simp: matches_def)

section \<open>Reading back what was written\<close>

definition wf_meta :: "walletMeta \<Rightarrow> bool" where
  "wf_meta m \<longleftrightarrow> ascii (TenantID m) \<and> ascii (WalletID m) \<and> ascii (SDKName m) \<and> ascii (Mnemonic m)
     \<and> ascii (Passphrase m) \<and> ascii (MnemonicCiphertext m) \<and> ascii (PassphraseCiphertext m)"

lemma get_string_omitempty:
  "get_string n acc (omitempty k v @ ms) = get_string n (if key_matches n k \<and> v \<noteq> [] then v else acc) ms"
  by (simp add: omitempty_def)

lemma get_string_omitempty_last:
  "get_string n acc (omitempty k v) = Inr (if key_matches n k \<and> v \<noteq> [] then v else acc)"
  using get_string_omitempty [of n acc k v "[]"] by simp

lemma wf_json_meta: "wf_meta m \<Longrightarrow> wf_json (meta_json m)"
  by (simp add: meta_json_def wf_meta_def omitempty_def byte_val_def)

lemma wf_json_state: "list_all wf_meta ms \<Longrightarrow> wf_json (state_json ms)"
  by (auto simp: state_json_def list_all_iff wf_json_meta byte_val_def)

lemma decode_meta_json: "decode_meta zero_meta (meta_json m) = Inr m"
  by (simp add: decode_meta_def meta_json_def zero_meta_def get_string_omitempty
      get_string_omitempty_last key_matches_def lower_char_def)

lemma decode_metas_json: "decode_metas [] (map meta_json ms) = Inr ms"
  by (induction ms) (simp_all add: decode_meta_json)

lemma unmarshal_MarshalIndent_state:
  assumes "list_all wf_meta ms"
  shows "unmarshal_state (json_MarshalIndent (state_json ms)) = Inr ms"
  using MarshalIndent_parse [OF wf_json_state [OF assms]]
  by (simp add: unmarshal_state_def state_json_def decode_metas_json key_matches_def)

end
