(* ===== verification/Options.thy ===== *)
theory Options
  imports Encryption
begin

text \<open>
  The service options and the secrets they default to: \<^verbatim>\<open>internal/service/options.go\<close>. The theorems
  show that resolved options are usable (key sizes, non-zero lifetimes) and that a generated secret
  is found again, unchanged, after a restart.
\<close>

record Options =
  AuthEnabled :: bool
  EnableCustomSpend :: bool
  JWTSecret :: bytes
  DataKey :: bytes
  AccessTTL :: int
  RefreshTTL :: int
  BroadcastFanout :: int
  DisablePendingTxTracking :: bool

definition defaultOptions :: Options where
  "defaultOptions =
     \<lparr>AuthEnabled = False, EnableCustomSpend = False, JWTSecret = [], DataKey = [],
      AccessTTL = 15 * time_Minute, RefreshTTL = 24 * time_Hour,
      BroadcastFanout = 0, DisablePendingTxTracking = False\<rparr>"

definition filepath_Dir :: "string \<Rightarrow> string" where
  "filepath_Dir p =
     (let d = rev (dropWhile (\<lambda>c. c \<noteq> CHR ''/'') (rev p))
      in if d = [] then ''.'' else if d = ''/'' then d else butlast d)"

definition loadOrCreateSecret :: "string \<Rightarrow> ('z host_scheme, bytes) action" where
  "loadOrCreateSecret path =
     bindE (tryE (os_ReadFile path)) (\<lambda>r.
     case r of
       Inr raw \<Rightarrow> liftR (Std_DecodeString raw)
     | Inl err \<Rightarrow>
         if err \<noteq> ErrNotExist then throwE err
         else
           bindE (rand_Read 32) (\<lambda>key.
           bindE (os_MkdirAll (filepath_Dir path)) (\<lambda>_.
           bindE (os_WriteFile path (Std_EncodeToString key)) (\<lambda>_.
           returnE key))))"

text \<open>\<^verbatim>\<open>fmt.Errorf("label: %w", err)\<close> around a failing action.\<close>

definition wrapE :: "string \<Rightarrow> ('s, 'a) action \<Rightarrow> ('s, 'a) action" where
  "wrapE label m = (\<lambda>s. case m s of (Inl e, s') \<Rightarrow> (Inl (ErrWrap label e), s') | (Inr x, s') \<Rightarrow> (Inr x, s'))"

definition withDefaults :: "Options \<Rightarrow> string \<Rightarrow> ('z host_scheme, Options) action" where
  "withDefaults opts dataDir =
     (let o1 = (if AccessTTL opts = 0 then opts\<lparr>AccessTTL := 15 * time_Minute\<rparr> else opts);
          o2 = (if RefreshTTL o1 = 0 then o1\<lparr>RefreshTTL := 24 * time_Hour\<rparr> else o1)
      in bindE
          (if DataKey o2 = []
           then bindE (wrapE ''data key'' (loadOrCreateSecret (filepath_Join dataDir ''data.key'')))
                  (\<lambda>k. returnE (o2\<lparr>DataKey := k\<rparr>))
           else returnE o2) (\<lambda>o3.
         if length (DataKey o3) \<noteq> 32 then throwE (ErrText ''data key must be 32 bytes'')
         else bindE
          (if AuthEnabled o3 \<and> JWTSecret o3 = []
           then bindE (wrapE ''jwt secret'' (loadOrCreateSecret (filepath_Join dataDir ''jwt.secret'')))
                  (\<lambda>k. returnE (o3\<lparr>JWTSecret := k\<rparr>))
           else returnE o3) (\<lambda>o4.
         if AuthEnabled o4 \<and> length (JWTSecret o4) < 32
         then throwE (ErrText ''jwt secret must be at least 32 bytes'')
         else returnE o4)))"

section \<open>Secrets\<close>

lemma wrapE_success [simp]: "wrapE l m s = (Inr x, t) \<longleftrightarrow> m s = (Inr x, t)"
  by (auto simp: wrapE_def split: prod.splits sum.splits)

lemma same_more_wrapE: "keeps same_more m \<Longrightarrow> keeps same_more (wrapE l m)"
  by (simp add: keeps_def wrapE_def split_beta split: sum.split)

lemma same_more_loadOrCreateSecret: "keeps same_more (loadOrCreateSecret p)"
  unfolding loadOrCreateSecret_def
  by (auto intro!: same_more.keeps_bindE same_more.keeps_tryE same_more.keeps_returnE
      same_more.keeps_throwE same_more.keeps_liftR same_more_host split: sum.splits)

lemma loadOrCreateSecret_success:
  assumes "loadOrCreateSecret p h = (Inr k, h')"
  shows "(\<exists>raw. lookup_file h p = Some raw \<and> Std_DecodeString raw = Inr k \<and> h' = h) \<or>
         (length k = 32 \<and> h' = put_file p (Std_EncodeToString k) (h\<lparr>entropy := drop 32 (entropy h)\<rparr>))"
  using assms
  by (auto simp: loadOrCreateSecret_def act_simps os_ReadFile_def os_MkdirAll_def os_WriteFile_def
      rand_Read_def split: option.splits if_splits)

lemma loadOrCreateSecret_fields:
  assumes "loadOrCreateSecret p h = (Inr k, h')"
  shows "read_fault h' = read_fault h" and "\<And>q. q \<noteq> p \<Longrightarrow> lookup_file h' q = lookup_file h q"
  using loadOrCreateSecret_success [OF assms] by auto

lemma load_after_create:
  assumes "loadOrCreateSecret p h = (Inr k, h')" and "read_fault h p = None"
  shows "\<exists>raw. lookup_file h' p = Some raw \<and> Std_DecodeString raw = Inr k"
  using loadOrCreateSecret_success [OF assms(1)] by (auto simp: std64.dec_enc)

lemma load_existing:
  assumes "lookup_file h p = Some raw" and "Std_DecodeString raw = Inr k" and "read_fault h p = None"
  shows "loadOrCreateSecret p h = (Inr k, h)"
  using assms by (simp add: loadOrCreateSecret_def act_simps os_ReadFile_def)

section \<open>Resolved options\<close>

definition ttl_defaults :: "Options \<Rightarrow> Options" where
  "ttl_defaults opts =
     opts\<lparr>AccessTTL := (if AccessTTL opts = 0 then 15 * time_Minute else AccessTTL opts),
          RefreshTTL := (if RefreshTTL opts = 0 then 24 * time_Hour else RefreshTTL opts)\<rparr>"

lemma withDefaults_success:
  assumes "withDefaults opts d h = (Inr r, h')"
  shows "\<exists>k s h1.
       (if DataKey opts = [] then loadOrCreateSecret (filepath_Join d ''data.key'') h = (Inr k, h1)
        else k = DataKey opts \<and> h1 = h) \<and>
       (if AuthEnabled opts \<and> JWTSecret opts = [] then loadOrCreateSecret (filepath_Join d ''jwt.secret'') h1 = (Inr s, h')
        else s = JWTSecret opts \<and> h' = h1) \<and>
       length k = 32 \<and> (AuthEnabled opts \<longrightarrow> 32 \<le> length s) \<and>
       r = (ttl_defaults opts)\<lparr>DataKey := k, JWTSecret := s\<rparr>"
  using assms
  by (auto simp: withDefaults_def Let_def bindE_success ttl_defaults_def returnE_def throwE_def
      split: if_splits)

lemma withDefaults_run:
  assumes "if DataKey opts = [] then loadOrCreateSecret (filepath_Join d ''data.key'') h = (Inr k, h1)
           else k = DataKey opts \<and> h1 = h"
    and "if AuthEnabled opts \<and> JWTSecret opts = [] then loadOrCreateSecret (filepath_Join d ''jwt.secret'') h1 = (Inr s, h2)
         else s = JWTSecret opts \<and> h2 = h1"
    and "length k = 32" and "AuthEnabled opts \<longrightarrow> 32 \<le> length s"
  shows "withDefaults opts d h = (Inr ((ttl_defaults opts)\<lparr>DataKey := k, JWTSecret := s\<rparr>), h2)"
  using assms
  by (cases "DataKey opts = []"; cases "AuthEnabled opts \<and> JWTSecret opts = []")
    (auto simp: withDefaults_def Let_def ttl_defaults_def act_simps wrapE_def not_less)

text \<open>
  C24. Options that resolve are usable: the data key has the 32 bytes AES-256 needs, with
  authentication on the signing secret has at least 32 bytes, both token lifetimes are non-zero, and
  every setting the operator gave is kept.
\<close>

theorem withDefaults_usable:
  assumes "withDefaults opts d h = (Inr r, h')"
  shows "length (DataKey r) = 32 \<and> (AuthEnabled r \<longrightarrow> 32 \<le> length (JWTSecret r))
    \<and> AccessTTL r \<noteq> 0 \<and> RefreshTTL r \<noteq> 0
    \<and> AuthEnabled r = AuthEnabled opts \<and> EnableCustomSpend r = EnableCustomSpend opts
    \<and> BroadcastFanout r = BroadcastFanout opts
    \<and> DisablePendingTxTracking r = DisablePendingTxTracking opts
    \<and> (DataKey opts \<noteq> [] \<longrightarrow> DataKey r = DataKey opts)
    \<and> (JWTSecret opts \<noteq> [] \<longrightarrow> JWTSecret r = JWTSecret opts)
    \<and> (AccessTTL opts \<noteq> 0 \<longrightarrow> AccessTTL r = AccessTTL opts)
    \<and> (RefreshTTL opts \<noteq> 0 \<longrightarrow> RefreshTTL r = RefreshTTL opts)"
proof -
  obtain k s where r: "r = (ttl_defaults opts)\<lparr>DataKey := k, JWTSecret := s\<rparr>"
    and len: "length k = 32" "AuthEnabled opts \<longrightarrow> 32 \<le> length s"
    and k: "DataKey opts \<noteq> [] \<longrightarrow> k = DataKey opts" and s: "JWTSecret opts \<noteq> [] \<longrightarrow> s = JWTSecret opts"
    using withDefaults_success [OF assms] by (metis (full_types))
  from len k s show ?thesis
    unfolding r by (simp add: ttl_defaults_def time_Minute_def time_Hour_def time_Second_def)
qed

definition quiet_host :: "bytes \<Rightarrow> host" where
  "quiet_host e = \<lparr>files = [], read_fault = \<lambda>_. None, write_fault = \<lambda>_. None,
     rename_fault = \<lambda>_. None, mkdir_fault = \<lambda>_. None, entropy = e, clock = 0\<rparr>"

lemma withDefaults_given:
  assumes "length (DataKey opts) = 32" and "\<not> AuthEnabled opts"
  shows "withDefaults opts d h = (Inr (ttl_defaults opts), h)"
proof -
  have "DataKey opts \<noteq> []" using assms(1) by auto
  with assms show ?thesis
    by (simp add: withDefaults_def Let_def ttl_defaults_def act_simps)
qed

theorem withDefaults_usable_witness:
  "let opts = defaultOptions\<lparr>DataKey := replicate 32 1, AccessTTL := 0\<rparr>; r = ttl_defaults opts
   in length (DataKey r) = 32 \<and> (AuthEnabled r \<longrightarrow> 32 \<le> length (JWTSecret r))
    \<and> AccessTTL r \<noteq> 0 \<and> RefreshTTL r \<noteq> 0
    \<and> AuthEnabled r = AuthEnabled opts \<and> EnableCustomSpend r = EnableCustomSpend opts
    \<and> BroadcastFanout r = BroadcastFanout opts
    \<and> DisablePendingTxTracking r = DisablePendingTxTracking opts
    \<and> (DataKey opts \<noteq> [] \<longrightarrow> DataKey r = DataKey opts)
    \<and> (JWTSecret opts \<noteq> [] \<longrightarrow> JWTSecret r = JWTSecret opts)
    \<and> (AccessTTL opts \<noteq> 0 \<longrightarrow> AccessTTL r = AccessTTL opts)
    \<and> (RefreshTTL opts \<noteq> 0 \<longrightarrow> RefreshTTL r = RefreshTTL opts)"
  unfolding Let_def
  by (rule withDefaults_usable [of _ "''data''" "quiet_host []"], rule withDefaults_given)
    (simp_all add: defaultOptions_def)

text \<open>
  C25. Generated secrets survive a restart: when the options resolve on a host whose files can be
  read, resolving them again on the host as it was left gives the same options, draws no new
  randomness and writes nothing.
\<close>

theorem withDefaults_restart:
  assumes "withDefaults opts d h = (Inr r, h')" and "\<forall>p. read_fault h p = None"
  shows "withDefaults opts d h' = (Inr r, h')"
proof -
  obtain k s h1 where
    k: "if DataKey opts = [] then loadOrCreateSecret (filepath_Join d ''data.key'') h = (Inr k, h1)
        else k = DataKey opts \<and> h1 = h" and
    s: "if AuthEnabled opts \<and> JWTSecret opts = [] then loadOrCreateSecret (filepath_Join d ''jwt.secret'') h1 = (Inr s, h')
        else s = JWTSecret opts \<and> h' = h1" and
    len: "length k = 32" "AuthEnabled opts \<longrightarrow> 32 \<le> length s" and
    r: "r = (ttl_defaults opts)\<lparr>DataKey := k, JWTSecret := s\<rparr>"
    using withDefaults_success [OF assms(1)] by blast
  have h1: "read_fault h1 = read_fault h"
    using k by (cases "DataKey opts = []") (auto dest: loadOrCreateSecret_fields(1))
  have h': "read_fault h' = read_fault h"
    using s h1 by (cases "AuthEnabled opts \<and> JWTSecret opts = []") (auto dest: loadOrCreateSecret_fields(1))
  have k': "loadOrCreateSecret (filepath_Join d ''data.key'') h' = (Inr k, h')" if no_key: "DataKey opts = []"
  proof -
    obtain raw where raw: "lookup_file h1 (filepath_Join d ''data.key'') = Some raw" "Std_DecodeString raw = Inr k"
      using k no_key assms(2) by (auto dest: load_after_create)
    have "lookup_file h' (filepath_Join d ''data.key'') = lookup_file h1 (filepath_Join d ''data.key'')"
    proof (cases "AuthEnabled opts \<and> JWTSecret opts = []")
      case True
      with s loadOrCreateSecret_fields(2) [of "filepath_Join d ''jwt.secret''" h1 s h'] show ?thesis by simp
    qed (use s in auto)
    with raw show ?thesis
      using h' assms(2) by (auto intro: load_existing)
  qed
  have s': "loadOrCreateSecret (filepath_Join d ''jwt.secret'') h' = (Inr s, h')"
    if auth: "AuthEnabled opts" "JWTSecret opts = []"
  proof -
    have "loadOrCreateSecret (filepath_Join d ''jwt.secret'') h1 = (Inr s, h')"
      using s auth by simp
    then obtain raw where "lookup_file h' (filepath_Join d ''jwt.secret'') = Some raw" "Std_DecodeString raw = Inr s"
      using h1 assms(2) by (auto dest: load_after_create)
    then show ?thesis
      using h' assms(2) by (auto intro: load_existing)
  qed
  show ?thesis
    unfolding r
    by (rule withDefaults_run [where ?h1.0 = h']) (use len k s k' s' in auto)
qed

lemma withDefaults_fresh:
  assumes "length e = 64"
  shows "\<exists>r h'. withDefaults (defaultOptions\<lparr>AuthEnabled := True\<rparr>) d (quiet_host e) = (Inr r, h')"
proof -
  have "filepath_Join d ''jwt.secret'' \<noteq> filepath_Join d ''data.key''"
    by simp
  with assms show ?thesis
    by (simp add: withDefaults_def Let_def act_simps wrapE_def loadOrCreateSecret_def os_ReadFile_def
        os_MkdirAll_def os_WriteFile_def rand_Read_def quiet_host_def defaultOptions_def
        time_Minute_def time_Hour_def time_Second_def lookup_file_def put_file_def update_conv')
qed

theorem withDefaults_restart_witness:
  "\<exists>r h'. withDefaults (defaultOptions\<lparr>AuthEnabled := True\<rparr>) ''data'' (quiet_host (replicate 64 5)) = (Inr r, h')
     \<and> withDefaults (defaultOptions\<lparr>AuthEnabled := True\<rparr>) ''data'' h' = (Inr r, h')"
proof -
  obtain r h' where "withDefaults (defaultOptions\<lparr>AuthEnabled := True\<rparr>) ''data''
      (quiet_host (replicate 64 5)) = (Inr r, h')"
    using withDefaults_fresh [of "replicate 64 5" "''data''"] by auto
  with withDefaults_restart [OF this] show ?thesis
    by (auto simp: quiet_host_def)
qed

end
