(* ===== verification/Messages.thy ===== *)
theory Messages
  imports Prelude
begin

text \<open>
  The messages of the gRPC API (\<^verbatim>\<open>gen/bsvms/v1/bsvms.pb.go\<close>, generated from
  \<^verbatim>\<open>proto/bsvms/v1/bsvms.proto\<close>): one record per message, its fields in the order of the descriptor.
  Requests that start with \<^verbatim>\<open>tenant_id\<close> and \<^verbatim>\<open>wallet_id\<close> extend the record \<open>TenantWallet\<close>, so the two
  getters are shared; requests with just these two fields are a \<open>TenantWallet\<close>. Singular message
  fields may be absent. A \<^verbatim>\<open>double\<close> is its IEEE bit pattern, which the service passes on unread.
  \<open>rpc_request\<close> is a call with its request message, \<open>request_fields\<close> the reflection view of that
  message: the fields its descriptor declares, with their kinds.
\<close>

type_synonym float64 = "64 word"

section \<open>Records\<close>

record TenantWallet =
  tenant_id :: string
  wallet_id :: string

record StatusResponse =
  StatusResp_network :: "string"
  StatusResp_chain_height :: "int"
  StatusResp_best_peer_height :: "int"
  StatusResp_peer_count :: "int"
  StatusResp_data_dir :: "string"
  StatusResp_peer_heights :: "(string \<times> int) list"
  StatusResp_coinbase_maturity :: "int"

record AuthTokens =
  AuthTokens_access_token :: "string"
  AuthTokens_refresh_token :: "string"
  AuthTokens_token_type :: "string"
  AuthTokens_expires_at :: "string"
  AuthTokens_tenant_id :: "string"
  AuthTokens_wallet_id :: "string"

record RefreshTokenRequest =
  RefreshTokenReq_refresh_token :: "string"

record ConnectPeerRequest =
  ConnectPeerReq_address :: "string"

record Wallet =
  Wallet_tenant_id :: "string"
  Wallet_wallet_id :: "string"
  Wallet_addresses :: "string list"
  Wallet_balance_satoshis :: "int"
  Wallet_balance_bsv :: "float64"
  Wallet_next_external_index :: "uint32"
  Wallet_next_change_index :: "uint32"
  Wallet_selector :: "string"
  Wallet_spendable_satoshis :: "int"
  Wallet_immature_satoshis :: "int"

record ListWalletsRequest =
  ListWalletsReq_tenant_id :: "string"

record ListWalletsResponse =
  ListWalletsResp_wallets :: "Wallet list"

record CreateWalletResponse =
  CreateWalletResp_wallet :: "Wallet option"
  CreateWalletResp_mnemonic :: "string"
  CreateWalletResp_tokens :: "AuthTokens option"

record RestoreWalletRequest = TenantWallet +
  RestoreWalletReq_mnemonic :: "string"
  RestoreWalletReq_passphrase :: "string"

record WalletResponse =
  WalletResp_wallet :: "Wallet option"
  WalletResp_tokens :: "AuthTokens option"

record DerivedAddress =
  DerivedAddress_address :: "string"
  DerivedAddress_path :: "string"
  DerivedAddress_pub_key :: "bytes"
  DerivedAddress_script :: "bytes"
  DerivedAddress_branch :: "uint32"
  DerivedAddress_index :: "uint32"

record AddressResponse =
  AddressResp_address :: "DerivedAddress option"

record BatchNewAddressesRequest = TenantWallet +
  BatchNewAddressesReq_count :: "int"

record BatchNewAddressesResponse =
  BatchNewAddressesResp_addresses :: "DerivedAddress list"

record DeriveAtRequest = TenantWallet +
  DeriveAtReq_branch :: "uint32"
  DeriveAtReq_index :: "uint32"

record PubKeyAtRequest = TenantWallet +
  PubKeyAtReq_branch :: "uint32"
  PubKeyAtReq_index :: "uint32"

record PubKeyAtResponse =
  PubKeyAtResp_pub_key :: "bytes"
  PubKeyAtResp_address :: "string"

record SignHashAtRequest = TenantWallet +
  SignHashAtReq_branch :: "uint32"
  SignHashAtReq_index :: "uint32"
  SignHashAtReq_hash :: "bytes"

record SignHashAtResponse =
  SignHashAtResp_signature :: "bytes"
  SignHashAtResp_pub_key :: "bytes"

record NextIndexRequest = TenantWallet +
  NextIndexReq_branch :: "uint32"

record NextIndexResponse =
  NextIndexResp_next_index :: "uint32"

record BalanceResponse =
  BalanceResp_satoshis :: "int"
  BalanceResp_bsv :: "float64"
  BalanceResp_spendable :: "int"
  BalanceResp_immature :: "int"

record UTXO =
  UTXO_txid :: "string"
  UTXO_vout :: "uint32"
  UTXO_value :: "int"
  UTXO_script :: "bytes"
  UTXO_height :: "int"
  UTXO_is_coinbase :: "bool"

record ListUTXOsResponse =
  ListUTXOsResp_utxos :: "UTXO list"

record ImportUTXORequest = TenantWallet +
  ImportUTXOReq_txid :: "string"
  ImportUTXOReq_vout :: "uint32"
  ImportUTXOReq_value :: "int"
  ImportUTXOReq_script :: "bytes"
  ImportUTXOReq_height :: "int"
  ImportUTXOReq_force :: "bool"
  ImportUTXOReq_is_coinbase :: "bool"

record ProcessRawTxRequest = TenantWallet +
  ProcessRawTxReq_raw_tx :: "bytes"
  ProcessRawTxReq_height :: "int"

record ClearUTXOsResponse =
  ClearUTXOsResp_cleared :: "int"

record ReloadFromStoreResponse =
  ReloadFromStoreResp_loaded :: "int"

record WipeWalletResponse =
  WipeWalletResp_removed :: "int"

record PruneUnknownUTXOsResponse =
  PruneUnknownUTXOsResp_removed :: "int"

record IgnoreOutpointRequest = TenantWallet +
  IgnoreOutpointReq_txid :: "string"
  IgnoreOutpointReq_vout :: "uint32"
  IgnoreOutpointReq_unignore :: "bool"

record IsOutpointIgnoredRequest = TenantWallet +
  IsOutpointIgnoredReq_txid :: "string"
  IsOutpointIgnoredReq_vout :: "uint32"

record IsOutpointIgnoredResponse =
  IsOutpointIgnoredResp_ignored :: "bool"

record UntrackUTXORequest = TenantWallet +
  UntrackUTXOReq_txid :: "string"
  UntrackUTXOReq_vout :: "uint32"

record UntrackUTXOResponse =
  UntrackUTXOResp_removed_value :: "int"

record CanCoverRequest = TenantWallet +
  CanCoverReq_total_out :: "int"
  CanCoverReq_fee_per_byte :: "int"
  CanCoverReq_fixed_outputs :: "int"

record SendRequest = TenantWallet +
  SendReq_to_address :: "string"
  SendReq_amount_satoshis :: "int"

record SendAllRequest = TenantWallet +
  SendAllReq_to_address :: "string"
  SendAllReq_detailed :: "bool"

record SpendResponse =
  SpendResp_txid :: "string"

record OutputSpec =
  OutputSpec_script :: "bytes"
  OutputSpec_value :: "int"

record OutPoint =
  OutPoint_txid :: "string"
  OutPoint_vout :: "uint32"

record SpendToOutputsRequest = TenantWallet +
  SpendToOutputsReq_outputs :: "OutputSpec list"
  SpendToOutputsReq_ignore_fixed_outputs :: "bool"
  SpendToOutputsReq_from_inputs :: "OutPoint list"

record SpendDetail =
  SpendDetail_txid :: "string"
  SpendDetail_spent_utxos :: "UTXO list"
  SpendDetail_change_utxo :: "UTXO option"
  SpendDetail_raw_tx :: "bytes"

record SpendDetailResponse =
  SpendDetailResp_detail :: "SpendDetail option"

record CustomInput =
  CustomInput_txid :: "string"
  CustomInput_vout :: "uint32"
  CustomInput_script_sig :: "bytes"
  CustomInput_sequence :: "uint32"

record BroadcastCustomSpendRequest =
  BroadcastCustomSpendReq_inputs :: "CustomInput list"
  BroadcastCustomSpendReq_outputs :: "OutputSpec list"

record P2PKHOutputRequest =
  P2PKHOutputReq_address :: "string"
  P2PKHOutputReq_value :: "int"

record OpReturnOutputRequest =
  OpReturnOutputReq_data :: "bytes"

record AnyoneCanSpendOutputRequest =
  AnyoneCanSpendOutputReq_value :: "int"

record ParseTransactionRequest =
  ParseTransactionReq_raw_tx :: "bytes"

record TxInput =
  TxInput_prev_txid :: "string"
  TxInput_prev_vout :: "uint32"
  TxInput_script_sig :: "bytes"
  TxInput_coinbase :: "bool"
  TxInput_sender_address :: "string"

record TxOutput =
  TxOutput_vout :: "uint32"
  TxOutput_value :: "int"
  TxOutput_script :: "bytes"
  TxOutput_address :: "string"

record Transaction =
  Transaction_txid :: "string"
  Transaction_raw_tx :: "bytes"
  Transaction_inputs :: "TxInput list"
  Transaction_outputs :: "TxOutput list"

record BroadcastRawRequest =
  BroadcastRawReq_raw_tx :: "bytes"

record BroadcastRawResponse =
  BroadcastRawResp_txid :: "string"

record ExecuteScriptRequest =
  ExecuteScriptReq_script_sig :: "bytes"
  ExecuteScriptReq_script_pub_key :: "bytes"
  ExecuteScriptReq_raw_tx :: "bytes"
  ExecuteScriptReq_input_index :: "int"
  ExecuteScriptReq_amount :: "int"
  ExecuteScriptReq_strict :: "bool"

record ExecuteScriptResponse =
  ExecuteScriptResp_ok :: "bool"
  ExecuteScriptResp_error :: "string"

record DecodeOutputAddressRequest =
  DecodeOutputAddressReq_script_pub_key :: "bytes"

record DecodeOutputAddressResponse =
  DecodeOutputAddressResp_address :: "string"
  DecodeOutputAddressResp_ok :: "bool"

record PendingTransaction =
  PendingTransaction_txid :: "string"
  PendingTransaction_first_broadcast :: "string"
  PendingTransaction_last_broadcast :: "string"
  PendingTransaction_last_announce :: "string"
  PendingTransaction_rebroadcasts :: "int"

record PendingTransactionsResponse =
  PendingTransactionsResp_transactions :: "PendingTransaction list"

record RebroadcastPendingTransactionsResponse =
  RebroadcastPendingTransactionsResp_count :: "int"

record BlockSpend =
  BlockSpend_prev_txid :: "string"
  BlockSpend_prev_vout :: "uint32"
  BlockSpend_spending_txid :: "string"

record Block =
  Block_hash :: "string"
  Block_height :: "int"
  Block_txids :: "string list"
  Block_spends :: "BlockSpend list"
  Block_disconnected :: "bool"

record Payment =
  Payment_tenant_id :: "string"
  Payment_wallet_id :: "string"
  Payment_txid :: "string"
  Payment_amount :: "int"
  Payment_address :: "string"
  Payment_vout :: "uint32"
  Payment_script :: "bytes"

record OwnedOutput =
  OwnedOutput_vout :: "uint32"
  OwnedOutput_value :: "int"
  OwnedOutput_script :: "bytes"
  OwnedOutput_address :: "string"

record SpentOutPoint =
  SpentOutPoint_txid :: "string"
  SpentOutPoint_vout :: "uint32"

record WalletTransaction =
  WalletTransaction_tenant_id :: "string"
  WalletTransaction_wallet_id :: "string"
  WalletTransaction_transaction :: "Transaction option"
  WalletTransaction_owned :: "OwnedOutput list"
  WalletTransaction_spent :: "SpentOutPoint list"

record P2PTraffic =
  P2PTraffic_peer :: "string"
  P2PTraffic_direction :: "string"
  P2PTraffic_command :: "string"
  P2PTraffic_payload_bytes :: "int"
  P2PTraffic_summary :: "string"

record Reject =
  Reject_peer :: "string"
  Reject_command :: "string"
  Reject_code :: "uint32"
  Reject_code_name :: "string"
  Reject_reason :: "string"
  Reject_hash :: "string"

record TxStateRequest = TenantWallet +
  TxStateReq_txid :: "string"

record TxStateResponse =
  TxStateResp_known :: "bool"
  TxStateResp_height :: "int"
  TxStateResp_confirmed :: "bool"
  TxStateResp_conflicted :: "bool"

record AbandonTransactionRequest = TenantWallet +
  AbandonTransactionReq_txid :: "string"

record ClearIgnoredOutpointsResponse =
  ClearIgnoredOutpointsResp_cleared :: "int"

record OwnsScriptRequest = TenantWallet +
  OwnsScriptReq_script_pub_key :: "bytes"

record OwnsScriptResponse =
  OwnsScriptResp_owned :: "bool"

record VerifyTxSeenRequest =
  VerifyTxSeenReq_txid :: "string"
  VerifyTxSeenReq_peers_to_ask :: "int"
  VerifyTxSeenReq_timeout_ms :: "int"

record VerifyTxSeenResponse =
  VerifyTxSeenResp_seen :: "bool"

record WaitForTxRelayRequest =
  WaitForTxRelayReq_txid :: "string"
  WaitForTxRelayReq_timeout_ms :: "int"

record WaitForTxRelayResponse =
  WaitForTxRelayResp_relayed :: "bool"

record RescanRequest = TenantWallet +
  RescanReq_start_block_hash :: "string"
  RescanReq_start_height :: "int"
  RescanReq_max_blocks :: "int"
  RescanReq_headers_timeout_ms :: "int"
  RescanReq_block_timeout_ms :: "int"
  RescanReq_max_consecutive_block_errors :: "int"
  RescanReq_checkpoint_every :: "int"
  RescanReq_gc_every :: "int"
  RescanReq_prefetch :: "int"
  RescanReq_prefetch_bytes :: "int"
  RescanReq_stream_block_bytes :: "int"

record RescanProgress =
  RescanProgress_phase :: "string"
  RescanProgress_peer :: "string"
  RescanProgress_headers_seen :: "int"
  RescanProgress_batch_headers :: "int"
  RescanProgress_blocks_fetched :: "int"
  RescanProgress_txs_replayed :: "int"
  RescanProgress_errors :: "int"
  RescanProgress_block_hash :: "string"
  RescanProgress_message :: "string"

record RescanStats =
  RescanStats_headers_seen :: "int"
  RescanStats_blocks_fetched :: "int"
  RescanStats_txs_replayed :: "int"
  RescanStats_stopped_at :: "string"
  RescanStats_stopped_height :: "int"
  RescanStats_peer_switches :: "int"
  RescanStats_errors :: "string list"

datatype RescanEvent = RescanEvent_Progress RescanProgress | RescanEvent_Stats RescanStats

record GetIncompleteCursorResponse =
  GetIncompleteCursorResp_found :: "bool"
  GetIncompleteCursorResp_block_hash :: "string"
  GetIncompleteCursorResp_height :: "int"
  GetIncompleteCursorResp_tx_done :: "int"
  GetIncompleteCursorResp_tx_total :: "int"

section \<open>Calls and their descriptors\<close>

datatype (plugins del: quickcheck_random quickcheck_exhaustive quickcheck_full_exhaustive
    quickcheck_narrowing quickcheck_bounded_forall lifting transfer) rpc_request =
    Req_Status
  | Req_RefreshToken RefreshTokenRequest
  | Req_ConnectPeer ConnectPeerRequest
  | Req_ListWallets ListWalletsRequest
  | Req_CreateWallet TenantWallet
  | Req_RestoreWallet RestoreWalletRequest
  | Req_GetWallet TenantWallet
  | Req_NewAddress TenantWallet
  | Req_BatchNewAddresses BatchNewAddressesRequest
  | Req_DeriveAt DeriveAtRequest
  | Req_PubKeyAt PubKeyAtRequest
  | Req_SignHashAt SignHashAtRequest
  | Req_NextIndex NextIndexRequest
  | Req_Balance TenantWallet
  | Req_ListUTXOs TenantWallet
  | Req_ImportUTXO ImportUTXORequest
  | Req_ProcessRawTx ProcessRawTxRequest
  | Req_ClearUTXOs TenantWallet
  | Req_ReloadFromStore TenantWallet
  | Req_WipeWallet TenantWallet
  | Req_PruneUnknownUTXOs TenantWallet
  | Req_IgnoreOutpoint IgnoreOutpointRequest
  | Req_IsOutpointIgnored IsOutpointIgnoredRequest
  | Req_UntrackUTXO UntrackUTXORequest
  | Req_CanCover CanCoverRequest
  | Req_Send SendRequest
  | Req_SendAll SendAllRequest
  | Req_SpendToOutputs SpendToOutputsRequest
  | Req_BroadcastCustomSpend BroadcastCustomSpendRequest
  | Req_P2PKHOutput P2PKHOutputRequest
  | Req_OpReturnOutput OpReturnOutputRequest
  | Req_AnyoneCanSpendOutput AnyoneCanSpendOutputRequest
  | Req_ParseTransaction ParseTransactionRequest
  | Req_BroadcastRaw BroadcastRawRequest
  | Req_ExecuteScript ExecuteScriptRequest
  | Req_DecodeOutputAddress DecodeOutputAddressRequest
  | Req_PendingTransactions
  | Req_RebroadcastPendingTransactions
  | Req_StreamTransactions
  | Req_StreamBlocks
  | Req_StreamPayments TenantWallet
  | Req_StreamWalletTransactions TenantWallet
  | Req_StreamP2PTraffic
  | Req_StreamRejects
  | Req_TxState TxStateRequest
  | Req_AbandonTransaction AbandonTransactionRequest
  | Req_ClearIgnoredOutpoints TenantWallet
  | Req_OwnsScript OwnsScriptRequest
  | Req_VerifyTxSeen VerifyTxSeenRequest
  | Req_WaitForTxRelay WaitForTxRelayRequest
  | Req_Rescan RescanRequest
  | Req_GetIncompleteCursor TenantWallet

datatype proto_kind =
    StringKind | BytesKind | Int32Kind | Int64Kind | Uint32Kind | BoolKind | DoubleKind | MessageKind

datatype proto_field = StringField string | OtherField proto_kind

primrec request_fields :: "rpc_request \<Rightarrow> (string \<times> proto_field) list" where
  "request_fields Req_Status = []"
| "request_fields (Req_RefreshToken r) =
     [(''refresh_token'', StringField (RefreshTokenReq_refresh_token r))]"
| "request_fields (Req_ConnectPeer r) =
     [(''address'', StringField (ConnectPeerReq_address r))]"
| "request_fields (Req_ListWallets r) =
     [(''tenant_id'', StringField (ListWalletsReq_tenant_id r))]"
| "request_fields (Req_CreateWallet r) =
     [(''tenant_id'', StringField (tenant_id r)),
      (''wallet_id'', StringField (wallet_id r))]"
| "request_fields (Req_RestoreWallet r) =
     [(''tenant_id'', StringField (tenant_id r)),
      (''wallet_id'', StringField (wallet_id r)),
      (''mnemonic'', StringField (RestoreWalletReq_mnemonic r)),
      (''passphrase'', StringField (RestoreWalletReq_passphrase r))]"
| "request_fields (Req_GetWallet r) =
     [(''tenant_id'', StringField (tenant_id r)),
      (''wallet_id'', StringField (wallet_id r))]"
| "request_fields (Req_NewAddress r) =
     [(''tenant_id'', StringField (tenant_id r)),
      (''wallet_id'', StringField (wallet_id r))]"
| "request_fields (Req_BatchNewAddresses r) =
     [(''tenant_id'', StringField (tenant_id r)),
      (''wallet_id'', StringField (wallet_id r)),
      (''count'', OtherField Int32Kind)]"
| "request_fields (Req_DeriveAt r) =
     [(''tenant_id'', StringField (tenant_id r)),
      (''wallet_id'', StringField (wallet_id r)),
      (''branch'', OtherField Uint32Kind),
      (''index'', OtherField Uint32Kind)]"
| "request_fields (Req_PubKeyAt r) =
     [(''tenant_id'', StringField (tenant_id r)),
      (''wallet_id'', StringField (wallet_id r)),
      (''branch'', OtherField Uint32Kind),
      (''index'', OtherField Uint32Kind)]"
| "request_fields (Req_SignHashAt r) =
     [(''tenant_id'', StringField (tenant_id r)),
      (''wallet_id'', StringField (wallet_id r)),
      (''branch'', OtherField Uint32Kind),
      (''index'', OtherField Uint32Kind),
      (''hash'', OtherField BytesKind)]"
| "request_fields (Req_NextIndex r) =
     [(''tenant_id'', StringField (tenant_id r)),
      (''wallet_id'', StringField (wallet_id r)),
      (''branch'', OtherField Uint32Kind)]"
| "request_fields (Req_Balance r) =
     [(''tenant_id'', StringField (tenant_id r)),
      (''wallet_id'', StringField (wallet_id r))]"
| "request_fields (Req_ListUTXOs r) =
     [(''tenant_id'', StringField (tenant_id r)),
      (''wallet_id'', StringField (wallet_id r))]"
| "request_fields (Req_ImportUTXO r) =
     [(''tenant_id'', StringField (tenant_id r)),
      (''wallet_id'', StringField (wallet_id r)),
      (''txid'', StringField (ImportUTXOReq_txid r)),
      (''vout'', OtherField Uint32Kind),
      (''value'', OtherField Int64Kind),
      (''script'', OtherField BytesKind),
      (''height'', OtherField Int32Kind),
      (''force'', OtherField BoolKind),
      (''is_coinbase'', OtherField BoolKind)]"
| "request_fields (Req_ProcessRawTx r) =
     [(''tenant_id'', StringField (tenant_id r)),
      (''wallet_id'', StringField (wallet_id r)),
      (''raw_tx'', OtherField BytesKind),
      (''height'', OtherField Int32Kind)]"
| "request_fields (Req_ClearUTXOs r) =
     [(''tenant_id'', StringField (tenant_id r)),
      (''wallet_id'', StringField (wallet_id r))]"
| "request_fields (Req_ReloadFromStore r) =
     [(''tenant_id'', StringField (tenant_id r)),
      (''wallet_id'', StringField (wallet_id r))]"
| "request_fields (Req_WipeWallet r) =
     [(''tenant_id'', StringField (tenant_id r)),
      (''wallet_id'', StringField (wallet_id r))]"
| "request_fields (Req_PruneUnknownUTXOs r) =
     [(''tenant_id'', StringField (tenant_id r)),
      (''wallet_id'', StringField (wallet_id r))]"
| "request_fields (Req_IgnoreOutpoint r) =
     [(''tenant_id'', StringField (tenant_id r)),
      (''wallet_id'', StringField (wallet_id r)),
      (''txid'', StringField (IgnoreOutpointReq_txid r)),
      (''vout'', OtherField Uint32Kind),
      (''unignore'', OtherField BoolKind)]"
| "request_fields (Req_IsOutpointIgnored r) =
     [(''tenant_id'', StringField (tenant_id r)),
      (''wallet_id'', StringField (wallet_id r)),
      (''txid'', StringField (IsOutpointIgnoredReq_txid r)),
      (''vout'', OtherField Uint32Kind)]"
| "request_fields (Req_UntrackUTXO r) =
     [(''tenant_id'', StringField (tenant_id r)),
      (''wallet_id'', StringField (wallet_id r)),
      (''txid'', StringField (UntrackUTXOReq_txid r)),
      (''vout'', OtherField Uint32Kind)]"
| "request_fields (Req_CanCover r) =
     [(''tenant_id'', StringField (tenant_id r)),
      (''wallet_id'', StringField (wallet_id r)),
      (''total_out'', OtherField Int64Kind),
      (''fee_per_byte'', OtherField Int64Kind),
      (''fixed_outputs'', OtherField Int32Kind)]"
| "request_fields (Req_Send r) =
     [(''tenant_id'', StringField (tenant_id r)),
      (''wallet_id'', StringField (wallet_id r)),
      (''to_address'', StringField (SendReq_to_address r)),
      (''amount_satoshis'', OtherField Int64Kind)]"
| "request_fields (Req_SendAll r) =
     [(''tenant_id'', StringField (tenant_id r)),
      (''wallet_id'', StringField (wallet_id r)),
      (''to_address'', StringField (SendAllReq_to_address r)),
      (''detailed'', OtherField BoolKind)]"
| "request_fields (Req_SpendToOutputs r) =
     [(''tenant_id'', StringField (tenant_id r)),
      (''wallet_id'', StringField (wallet_id r)),
      (''outputs'', OtherField MessageKind),
      (''ignore_fixed_outputs'', OtherField BoolKind),
      (''from_inputs'', OtherField MessageKind)]"
| "request_fields (Req_BroadcastCustomSpend r) =
     [(''inputs'', OtherField MessageKind),
      (''outputs'', OtherField MessageKind)]"
| "request_fields (Req_P2PKHOutput r) =
     [(''address'', StringField (P2PKHOutputReq_address r)),
      (''value'', OtherField Int64Kind)]"
| "request_fields (Req_OpReturnOutput r) =
     [(''data'', OtherField BytesKind)]"
| "request_fields (Req_AnyoneCanSpendOutput r) =
     [(''value'', OtherField Int64Kind)]"
| "request_fields (Req_ParseTransaction r) =
     [(''raw_tx'', OtherField BytesKind)]"
| "request_fields (Req_BroadcastRaw r) =
     [(''raw_tx'', OtherField BytesKind)]"
| "request_fields (Req_ExecuteScript r) =
     [(''script_sig'', OtherField BytesKind),
      (''script_pub_key'', OtherField BytesKind),
      (''raw_tx'', OtherField BytesKind),
      (''input_index'', OtherField Int32Kind),
      (''amount'', OtherField Int64Kind),
      (''strict'', OtherField BoolKind)]"
| "request_fields (Req_DecodeOutputAddress r) =
     [(''script_pub_key'', OtherField BytesKind)]"
| "request_fields Req_PendingTransactions = []"
| "request_fields Req_RebroadcastPendingTransactions = []"
| "request_fields Req_StreamTransactions = []"
| "request_fields Req_StreamBlocks = []"
| "request_fields (Req_StreamPayments r) =
     [(''tenant_id'', StringField (tenant_id r)),
      (''wallet_id'', StringField (wallet_id r))]"
| "request_fields (Req_StreamWalletTransactions r) =
     [(''tenant_id'', StringField (tenant_id r)),
      (''wallet_id'', StringField (wallet_id r))]"
| "request_fields Req_StreamP2PTraffic = []"
| "request_fields Req_StreamRejects = []"
| "request_fields (Req_TxState r) =
     [(''tenant_id'', StringField (tenant_id r)),
      (''wallet_id'', StringField (wallet_id r)),
      (''txid'', StringField (TxStateReq_txid r))]"
| "request_fields (Req_AbandonTransaction r) =
     [(''tenant_id'', StringField (tenant_id r)),
      (''wallet_id'', StringField (wallet_id r)),
      (''txid'', StringField (AbandonTransactionReq_txid r))]"
| "request_fields (Req_ClearIgnoredOutpoints r) =
     [(''tenant_id'', StringField (tenant_id r)),
      (''wallet_id'', StringField (wallet_id r))]"
| "request_fields (Req_OwnsScript r) =
     [(''tenant_id'', StringField (tenant_id r)),
      (''wallet_id'', StringField (wallet_id r)),
      (''script_pub_key'', OtherField BytesKind)]"
| "request_fields (Req_VerifyTxSeen r) =
     [(''txid'', StringField (VerifyTxSeenReq_txid r)),
      (''peers_to_ask'', OtherField Int32Kind),
      (''timeout_ms'', OtherField Int32Kind)]"
| "request_fields (Req_WaitForTxRelay r) =
     [(''txid'', StringField (WaitForTxRelayReq_txid r)),
      (''timeout_ms'', OtherField Int32Kind)]"
| "request_fields (Req_Rescan r) =
     [(''tenant_id'', StringField (tenant_id r)),
      (''wallet_id'', StringField (wallet_id r)),
      (''start_block_hash'', StringField (RescanReq_start_block_hash r)),
      (''start_height'', OtherField Int32Kind),
      (''max_blocks'', OtherField Int32Kind),
      (''headers_timeout_ms'', OtherField Int32Kind),
      (''block_timeout_ms'', OtherField Int32Kind),
      (''max_consecutive_block_errors'', OtherField Int32Kind),
      (''checkpoint_every'', OtherField Int32Kind),
      (''gc_every'', OtherField Int32Kind),
      (''prefetch'', OtherField Int32Kind),
      (''prefetch_bytes'', OtherField Int64Kind),
      (''stream_block_bytes'', OtherField Int64Kind)]"
| "request_fields (Req_GetIncompleteCursor r) =
     [(''tenant_id'', StringField (tenant_id r)),
      (''wallet_id'', StringField (wallet_id r))]"

primrec rpc_name :: "rpc_request \<Rightarrow> string" where
  "rpc_name Req_Status = ''Status''"
| "rpc_name (Req_RefreshToken r) = ''RefreshToken''"
| "rpc_name (Req_ConnectPeer r) = ''ConnectPeer''"
| "rpc_name (Req_ListWallets r) = ''ListWallets''"
| "rpc_name (Req_CreateWallet r) = ''CreateWallet''"
| "rpc_name (Req_RestoreWallet r) = ''RestoreWallet''"
| "rpc_name (Req_GetWallet r) = ''GetWallet''"
| "rpc_name (Req_NewAddress r) = ''NewAddress''"
| "rpc_name (Req_BatchNewAddresses r) = ''BatchNewAddresses''"
| "rpc_name (Req_DeriveAt r) = ''DeriveAt''"
| "rpc_name (Req_PubKeyAt r) = ''PubKeyAt''"
| "rpc_name (Req_SignHashAt r) = ''SignHashAt''"
| "rpc_name (Req_NextIndex r) = ''NextIndex''"
| "rpc_name (Req_Balance r) = ''Balance''"
| "rpc_name (Req_ListUTXOs r) = ''ListUTXOs''"
| "rpc_name (Req_ImportUTXO r) = ''ImportUTXO''"
| "rpc_name (Req_ProcessRawTx r) = ''ProcessRawTx''"
| "rpc_name (Req_ClearUTXOs r) = ''ClearUTXOs''"
| "rpc_name (Req_ReloadFromStore r) = ''ReloadFromStore''"
| "rpc_name (Req_WipeWallet r) = ''WipeWallet''"
| "rpc_name (Req_PruneUnknownUTXOs r) = ''PruneUnknownUTXOs''"
| "rpc_name (Req_IgnoreOutpoint r) = ''IgnoreOutpoint''"
| "rpc_name (Req_IsOutpointIgnored r) = ''IsOutpointIgnored''"
| "rpc_name (Req_UntrackUTXO r) = ''UntrackUTXO''"
| "rpc_name (Req_CanCover r) = ''CanCover''"
| "rpc_name (Req_Send r) = ''Send''"
| "rpc_name (Req_SendAll r) = ''SendAll''"
| "rpc_name (Req_SpendToOutputs r) = ''SpendToOutputs''"
| "rpc_name (Req_BroadcastCustomSpend r) = ''BroadcastCustomSpend''"
| "rpc_name (Req_P2PKHOutput r) = ''P2PKHOutput''"
| "rpc_name (Req_OpReturnOutput r) = ''OpReturnOutput''"
| "rpc_name (Req_AnyoneCanSpendOutput r) = ''AnyoneCanSpendOutput''"
| "rpc_name (Req_ParseTransaction r) = ''ParseTransaction''"
| "rpc_name (Req_BroadcastRaw r) = ''BroadcastRaw''"
| "rpc_name (Req_ExecuteScript r) = ''ExecuteScript''"
| "rpc_name (Req_DecodeOutputAddress r) = ''DecodeOutputAddress''"
| "rpc_name Req_PendingTransactions = ''PendingTransactions''"
| "rpc_name Req_RebroadcastPendingTransactions = ''RebroadcastPendingTransactions''"
| "rpc_name Req_StreamTransactions = ''StreamTransactions''"
| "rpc_name Req_StreamBlocks = ''StreamBlocks''"
| "rpc_name (Req_StreamPayments r) = ''StreamPayments''"
| "rpc_name (Req_StreamWalletTransactions r) = ''StreamWalletTransactions''"
| "rpc_name Req_StreamP2PTraffic = ''StreamP2PTraffic''"
| "rpc_name Req_StreamRejects = ''StreamRejects''"
| "rpc_name (Req_TxState r) = ''TxState''"
| "rpc_name (Req_AbandonTransaction r) = ''AbandonTransaction''"
| "rpc_name (Req_ClearIgnoredOutpoints r) = ''ClearIgnoredOutpoints''"
| "rpc_name (Req_OwnsScript r) = ''OwnsScript''"
| "rpc_name (Req_VerifyTxSeen r) = ''VerifyTxSeen''"
| "rpc_name (Req_WaitForTxRelay r) = ''WaitForTxRelay''"
| "rpc_name (Req_Rescan r) = ''Rescan''"
| "rpc_name (Req_GetIncompleteCursor r) = ''GetIncompleteCursor''"

end
