(* ===== verification/Jwt.thy ===== *)
theory Jwt
  imports Options Go_Json Messages
begin

text \<open>
  The token half of \<^verbatim>\<open>internal/service/auth.go\<close>: HS256 JSON web tokens bound to one wallet of one
  tenant. \<open>signJWT\<close> and \<open>validateJWT\<close> take the signing secret, \<open>validateJWT\<close> also the current time;
  \<open>issueTokens\<close> reads the clock and the random source of the host.
\<close>

section \<open>Claims\<close>

record jwtClaims =
  Subject :: string
  ClaimTenantID :: string
  ClaimWalletID :: string
  ClaimType :: string
  IssuedAt :: int
  Expires :: int
  JTI :: string

record authSubject =
  SubTenantID :: string
  SubWalletID :: string
  SubType :: string

definition claims_json :: "jwtClaims \<Rightarrow> json" where
  "claims_json c = JObj
     [(''sub'', JStr (Subject c)), (''tenant_id'', JStr (ClaimTenantID c)),
      (''wallet_id'', JStr (ClaimWalletID c)), (''typ'', JStr (ClaimType c)),
      (''iat'', JNum (show_int (IssuedAt c))), (''exp'', JNum (show_int (Expires c))),
      (''jti'', JStr (JTI c))]"

text \<open>\<^verbatim>\<open>json.Unmarshal(body, &claims)\<close> into a zero \<^verbatim>\<open>jwtClaims\<close>.\<close>

definition claims_of_members :: "(string \<times> json) list \<Rightarrow> jwtClaims result" where
  "claims_of_members ms =
     bindR (get_string ''sub'' [] ms) (\<lambda>sub.
     bindR (get_string ''tenant_id'' [] ms) (\<lambda>t.
     bindR (get_string ''wallet_id'' [] ms) (\<lambda>w.
     bindR (get_string ''typ'' [] ms) (\<lambda>ty.
     bindR (get_int64 ''iat'' 0 ms) (\<lambda>iat.
     bindR (get_int64 ''exp'' 0 ms) (\<lambda>ex.
     bindR (get_string ''jti'' [] ms) (\<lambda>jti.
     Inr \<lparr>Subject = sub, ClaimTenantID = t, ClaimWalletID = w, ClaimType = ty,
          IssuedAt = iat, Expires = ex, JTI = jti\<rparr>)))))))"

definition unmarshal_claims :: "string \<Rightarrow> jwtClaims result" where
  "unmarshal_claims s =
     (case json_parse s of
        None \<Rightarrow> Inl JsonSyntaxError
      | Some (JObj ms) \<Rightarrow> claims_of_members ms
      | Some JNull \<Rightarrow> claims_of_members []
      | Some _ \<Rightarrow> Inl UnmarshalTypeError)"

section \<open>Signing and validating\<close>

definition jwt_header :: json where
  "jwt_header = JObj [(''alg'', JStr ''HS256''), (''typ'', JStr ''JWT'')]"

definition b64 :: "string \<Rightarrow> string" where
  "b64 s = RawURL_EncodeToString (bytes_of_string s)"

definition signJWT :: "bytes \<Rightarrow> jwtClaims \<Rightarrow> string" where
  "signJWT secret claims =
     (let unsigned = b64 (json_Marshal jwt_header) @ CHR ''.'' # b64 (json_Marshal (claims_json claims));
          mac = hmac_sha256 secret (bytes_of_string unsigned)
      in unsigned @ CHR ''.'' # RawURL_EncodeToString mac)"

definition unauthenticated :: "string \<Rightarrow> goerr" where
  "unauthenticated m = Status Unauthenticated m"

definition validateJWT :: "bytes \<Rightarrow> int \<Rightarrow> string \<Rightarrow> string \<Rightarrow> authSubject result" where
  "validateJWT secret now token typ =
     (case Split token CHR ''.'' of
        [p0, p1, p2] \<Rightarrow>
          (let unsigned = p0 @ CHR ''.'' # p1 in
           case RawURL_DecodeString p2 of
             Inl _ \<Rightarrow> Inl (unauthenticated ''invalid token signature'')
           | Inr sig \<Rightarrow>
              if sig \<noteq> hmac_sha256 secret (bytes_of_string unsigned)
              then Inl (unauthenticated ''invalid token signature'')
              else (case RawURL_DecodeString p1 of
                 Inl _ \<Rightarrow> Inl (unauthenticated ''invalid token body'')
               | Inr body \<Rightarrow>
                  (case unmarshal_claims (string_of_bytes body) of
                     Inl _ \<Rightarrow> Inl (unauthenticated ''invalid token claims'')
                   | Inr claims \<Rightarrow>
                      if ClaimType claims \<noteq> typ then Inl (unauthenticated ''wrong token type'')
                      else if Expires claims \<le> unix_seconds now then Inl (unauthenticated ''token expired'')
                      else if ClaimTenantID claims = [] \<or> ClaimWalletID claims = []
                      then Inl (unauthenticated ''missing token subject'')
                      else Inr \<lparr>SubTenantID = ClaimTenantID claims, SubWalletID = ClaimWalletID claims,
                                SubType = ClaimType claims\<rparr>)))
      | _ \<Rightarrow> Inl (unauthenticated ''invalid token''))"

section \<open>Issuing\<close>

definition randomID :: "('z host_scheme, string) action" where
  "randomID =
     bindE (tryE (rand_Read 16)) (\<lambda>r.
     returnE (RawURL_EncodeToString (case r of Inr b \<Rightarrow> b | Inl _ \<Rightarrow> replicate 16 0)))"

text \<open>\<^verbatim>\<open>t.Format(time.RFC3339Nano)\<close> for a UTC time: the proleptic Gregorian date, trailing zeros of the
  fraction dropped.\<close>

definition pad_left :: "nat \<Rightarrow> string \<Rightarrow> string" where
  "pad_left n s = replicate (n - length s) CHR ''0'' @ s"

definition civil_date :: "int \<Rightarrow> int \<times> int \<times> int" where
  "civil_date days =
     (let z = days + 719468; era = z div 146097; doe = z mod 146097;
          yoe = (doe - doe div 1460 + doe div 36524 - doe div 146096) div 365;
          doy = doe - (365 * yoe + yoe div 4 - yoe div 100);
          mp = (5 * doy + 2) div 153;
          d = doy - (153 * mp + 2) div 5 + 1;
          m = (if mp < 10 then mp + 3 else mp - 9);
          y = yoe + era * 400 + (if m \<le> 2 then 1 else 0)
      in (y, m, d))"

definition civil_text :: "int \<Rightarrow> string" where
  "civil_text t =
     (let secs = t div time_Second; nanos = t mod time_Second;
          (y, m, d) = civil_date (secs div 86400); sod = secs mod 86400;
          two = (\<lambda>n. pad_left 2 (show_int n));
          frac = rev (dropWhile (\<lambda>c. c = CHR ''0'') (rev (pad_left 9 (show_int nanos))))
      in pad_left 4 (show_int y) @ ''-'' @ two m @ ''-'' @ two d @ ''T''
         @ two (sod div 3600) @ '':'' @ two (sod div 60 mod 60) @ '':'' @ two (sod mod 60)
         @ (if nanos = 0 then [] else CHR ''.'' # frac))"

definition format_RFC3339Nano :: "int \<Rightarrow> string" where
  "format_RFC3339Nano t = civil_text t @ ''Z''"

text \<open>The same for a time in another zone, \<open>off\<close> seconds east of UTC.\<close>

definition zone_text :: "int \<Rightarrow> string" where
  "zone_text off =
     (if off = 0 then ''Z''
      else (let z = \<bar>off\<bar> div 60; two = (\<lambda>n. pad_left 2 (show_int n))
            in (if off \<le> - 60 then ''-'' else ''+'') @ two (z div 60) @ '':'' @ two (z mod 60)))"

definition format_zoned :: "int \<times> int \<Rightarrow> string" where
  "format_zoned tm = (case tm of (t, off) \<Rightarrow> civil_text (t + off * time_Second) @ zone_text off)"

definition token_claims :: "string \<Rightarrow> string \<Rightarrow> string \<Rightarrow> int \<Rightarrow> int \<Rightarrow> string \<Rightarrow> jwtClaims" where
  "token_claims tenantID walletID typ iat ex jti =
     \<lparr>Subject = tenantID @ '':'' @ walletID, ClaimTenantID = tenantID, ClaimWalletID = walletID,
      ClaimType = typ, IssuedAt = iat, Expires = ex, JTI = jti\<rparr>"

definition issueTokens :: "Options \<Rightarrow> string \<Rightarrow> string \<Rightarrow> ('z host_scheme, AuthTokens) action" where
  "issueTokens opts tenantID walletID =
     bindE time_Now (\<lambda>now.
     let accessExp = now + AccessTTL opts; refreshExp = now + RefreshTTL opts in
     bindE randomID (\<lambda>jti.
     let access = signJWT (JWTSecret opts)
           (token_claims tenantID walletID ''access'' (unix_seconds now) (unix_seconds accessExp) jti) in
     bindE randomID (\<lambda>jti'.
     let refresh = signJWT (JWTSecret opts)
           (token_claims tenantID walletID ''refresh'' (unix_seconds now) (unix_seconds refreshExp) jti') in
     returnE \<lparr>AuthTokens_access_token = access, AuthTokens_refresh_token = refresh,
       AuthTokens_token_type = ''Bearer'', AuthTokens_expires_at = format_RFC3339Nano accessExp,
       AuthTokens_tenant_id = tenantID, AuthTokens_wallet_id = walletID\<rparr>)))"

section \<open>Claims survive their encoding\<close>

definition wf_claims :: "jwtClaims \<Rightarrow> bool" where
  "wf_claims c \<longleftrightarrow> ascii (Subject c) \<and> ascii (ClaimTenantID c) \<and> ascii (ClaimWalletID c)
     \<and> ascii (ClaimType c) \<and> ascii (JTI c) \<and> in_int64 (IssuedAt c) \<and> in_int64 (Expires c)"

lemma wf_claims_json: "wf_claims c \<Longrightarrow> wf_json (claims_json c)"
  by (simp add: claims_json_def wf_claims_def valid_number_show_int num_chars_show_int byte_val_def)

lemmas key_eval = key_matches_def lower_char_def

lemma claims_of_members_json:
  assumes "wf_claims c"
  shows "claims_of_members
     [(''sub'', JStr (Subject c)), (''tenant_id'', JStr (ClaimTenantID c)),
      (''wallet_id'', JStr (ClaimWalletID c)), (''typ'', JStr (ClaimType c)),
      (''iat'', JNum (show_int (IssuedAt c))), (''exp'', JNum (show_int (Expires c))),
      (''jti'', JStr (JTI c))] = Inr c"
  using assms
  by (simp add: claims_of_members_def key_eval ParseInt_show_int wf_claims_def)

lemma unmarshal_Marshal_claims:
  assumes "wf_claims c"
  shows "unmarshal_claims (json_Marshal (claims_json c)) = Inr c"
  using Marshal_parse [OF wf_claims_json [OF assms]] claims_of_members_json [OF assms]
  by (simp add: unmarshal_claims_def claims_json_def)

section \<open>Validation\<close>

text \<open>The checks after the signature, on the claims.\<close>

definition check_claims :: "int \<Rightarrow> string \<Rightarrow> jwtClaims \<Rightarrow> authSubject result" where
  "check_claims now typ claims =
     (if ClaimType claims \<noteq> typ then Inl (unauthenticated ''wrong token type'')
      else if Expires claims \<le> unix_seconds now then Inl (unauthenticated ''token expired'')
      else if ClaimTenantID claims = [] \<or> ClaimWalletID claims = []
      then Inl (unauthenticated ''missing token subject'')
      else Inr \<lparr>SubTenantID = ClaimTenantID claims, SubWalletID = ClaimWalletID claims,
                SubType = ClaimType claims\<rparr>)"

lemma validate_signed:
  assumes "wf_claims c"
  shows "validateJWT secret now (signJWT secret c) typ = check_claims now typ c"
proof -
  have "Split (signJWT secret c) CHR ''.'' =
     [b64 (json_Marshal jwt_header), b64 (json_Marshal (claims_json c)),
      RawURL_EncodeToString (hmac_sha256 secret (bytes_of_string
        (b64 (json_Marshal jwt_header) @ CHR ''.'' # b64 (json_Marshal (claims_json c)))))]"
    by (simp add: signJWT_def Let_def b64_def rawurl.enc_split3)
  then show ?thesis
    using unmarshal_Marshal_claims [OF assms]
    by (simp add: validateJWT_def check_claims_def rawurl.dec_enc Let_def)
      (simp add: b64_def rawurl.dec_enc)
qed

text \<open>What a token must be for its validation to succeed.\<close>

definition genuine :: "bytes \<Rightarrow> string \<Rightarrow> jwtClaims \<Rightarrow> bool" where
  "genuine secret token c \<longleftrightarrow> (\<exists>p0 p1 p2 body. token = p0 @ CHR ''.'' # p1 @ CHR ''.'' # p2
     \<and> RawURL_DecodeString p2 = Inr (hmac_sha256 secret (bytes_of_string (p0 @ CHR ''.'' # p1)))
     \<and> RawURL_DecodeString p1 = Inr body \<and> unmarshal_claims (string_of_bytes body) = Inr c)"

lemma validate_success:
  assumes "validateJWT secret now token typ = Inr sub"
  shows "\<exists>c. genuine secret token c \<and> ClaimType c = typ \<and> unix_seconds now < Expires c
    \<and> ClaimTenantID c \<noteq> [] \<and> ClaimWalletID c \<noteq> []
    \<and> sub = \<lparr>SubTenantID = ClaimTenantID c, SubWalletID = ClaimWalletID c, SubType = typ\<rparr>"
proof -
  obtain p0 p1 p2 where sp: "Split token CHR ''.'' = [p0, p1, p2]"
    using assms by (auto simp: validateJWT_def split: list.splits)
  obtain body where sig: "RawURL_DecodeString p2 = Inr (hmac_sha256 secret (bytes_of_string (p0 @ CHR ''.'' # p1)))"
    and body: "RawURL_DecodeString p1 = Inr body"
    using assms by (auto simp: validateJWT_def sp Let_def split: sum.splits if_splits)
  obtain c where c: "unmarshal_claims (string_of_bytes body) = Inr c"
    using assms by (auto simp: validateJWT_def sp sig body Let_def split: sum.splits if_splits)
  have "genuine secret token c"
    unfolding genuine_def using Split_three [OF sp] sig body c by blast
  moreover have "check_claims now typ c = Inr sub"
    using assms by (simp add: validateJWT_def sp sig body c Let_def check_claims_def)
  ultimately show ?thesis
    by (intro exI [of _ c]) (auto simp: check_claims_def split: if_splits)
qed

lemma validate_error:
  "validateJWT secret now token typ = Inl e \<Longrightarrow> \<exists>m. e = Status Unauthenticated m"
  by (auto simp: validateJWT_def unauthenticated_def Let_def split: list.splits sum.splits if_splits)

end
