(* ===== verification/Sdk.thy ===== *)
theory Sdk
  imports Prelude Messages
begin

text \<open>
  The interface to \<^verbatim>\<open>bitcoinsv-sdk-go\<close>, which is not part of the repository: its data as far as the
  service reads or writes it, and its operations as the fields of the records \<open>node_api\<close>,
  \<open>wallet_api\<close> and \<open>pkg_api\<close>. Every definition of the development that calls the SDK takes an \<open>sdk\<close>
  as its argument and works for any. The SDK's own state (the node, its wallets, their stores and
  snapshot files) is a value of the type variable \<open>'n\<close>; the pointers it hands out, \<^verbatim>\<open>*bsv.Wallet\<close> and
  \<^verbatim>\<open>*walletsqlite.Store\<close>, are numbers. A call that can fail returns a result and the new state.
\<close>

section \<open>Data\<close>

record bsv_UTXO =
  u_TxID :: string
  u_Vout :: uint32
  u_Value :: int
  u_Script :: bytes
  u_Height :: int
  u_IsCoinbase :: bool

record bsv_DerivedAddress =
  da_Address :: string
  da_Path :: string
  da_PubKey :: bytes
  da_Script :: bytes
  da_Branch :: uint32
  da_Index :: uint32

record bsv_OutputSpec =
  os_Script :: bytes
  os_Value :: int

record bsv_OutPoint =
  op_Hash :: bytes
  op_Index :: uint32

record bsv_CustomInput =
  ci_TxID :: bytes
  ci_Vout :: uint32
  ci_ScriptSig :: bytes
  ci_Sequence :: uint32

record bsv_SpendDetail =
  sd_TxID :: string
  sd_SpentUTXOs :: "bsv_UTXO list"
  sd_ChangeUTXO :: "bsv_UTXO option"
  sd_RawTx :: bytes

record bsv_TxState =
  ts_Height :: int
  ts_Confirmed :: bool
  ts_Conflicted :: bool

record bsv_TxIn =
  in_PrevTxID :: string
  in_PrevVout :: uint32
  in_ScriptSig :: bytes
  in_IsCoinbase :: bool

record bsv_TxOut =
  out_Value :: int
  out_Script :: bytes

record bsv_Transaction =
  tx_TxID :: string
  tx_Bytes :: bytes
  tx_Inputs :: "bsv_TxIn list"
  tx_Outputs :: "bsv_TxOut list"

record bsv_Payment =
  p_TxID :: string
  p_Amount :: int
  p_Address :: string
  p_Vout :: uint32
  p_Script :: bytes

record bsv_OwnedOutput =
  oo_Vout :: uint32
  oo_Value :: int
  oo_Script :: bytes
  oo_Address :: string

record bsv_SpentOutPoint =
  so_TxID :: string
  so_Vout :: uint32

record bsv_InputSpend =
  is_PrevTxID :: string
  is_PrevVout :: uint32
  is_SpendingTxID :: string

record bsv_Block =
  b_Hash :: string
  b_Height :: int
  b_TxIDs :: "string list"
  b_InputSpends :: "bsv_InputSpend list"

record bsv_P2PTraffic =
  t_Peer :: string
  t_Direction :: string
  t_Command :: string
  t_PayloadBytes :: int
  t_Summary :: string

record bsv_Reject =
  r_Peer :: string
  r_Command :: string
  r_Code :: "8 word"
  r_CodeName :: string
  r_Reason :: string
  r_Hash :: string

text \<open>A \<^verbatim>\<open>time.Time\<close> of the SDK: the instant and the offset of its location from UTC, in seconds.\<close>

type_synonym sdk_time = "int \<times> int"

record bsv_PendingTx =
  pt_TxID :: string
  pt_FirstBroadcast :: sdk_time
  pt_LastBroadcast :: sdk_time
  pt_LastAnnounce :: sdk_time
  pt_Rebroadcasts :: int

text \<open>An address snapshot entry; \<open>se_Rest\<close> stands for the fields the service does not read.\<close>

record bsv_SnapshotEntry =
  se_Address :: string
  se_Index :: uint32
  se_Rest :: bytes

record bsv_Cursor =
  cu_BlockHash :: bytes
  cu_Height :: int
  cu_TxDone :: int
  cu_TxTotal :: int

record bsv_RescanProgress =
  rp_Phase :: string
  rp_Peer :: string
  rp_HeadersSeen :: int
  rp_BatchHeaders :: int
  rp_BlocksFetched :: int
  rp_TxsReplayed :: int
  rp_Errors :: int
  rp_BlockHash :: string
  rp_Message :: string

record bsv_RescanStats =
  rs_HeadersSeen :: int
  rs_BlocksFetched :: int
  rs_TxsReplayed :: int
  rs_StoppedAt :: bytes
  rs_StoppedHeight :: int
  rs_PeerSwitches :: int
  rs_Errors :: "goerr list"

record bsv_RescanOptions =
  ro_MaxBlocks :: int
  ro_HeadersTimeout :: int
  ro_BlockTimeout :: int
  ro_MaxConsecutiveBlockErrors :: int
  ro_GCEvery :: int
  ro_Prefetch :: int
  ro_PrefetchBytes :: int
  ro_StreamBlockBytes :: int
  ro_StartHeight :: int
  ro_CheckpointEvery :: int

section \<open>Operations\<close>

type_synonym handle = nat

record 'n node_api =
  node_Network :: "'n \<Rightarrow> string"
  node_ChainHeight :: "'n \<Rightarrow> int"
  node_BestPeerHeight :: "'n \<Rightarrow> int"
  node_PeerCount :: "'n \<Rightarrow> int"
  node_PeerHeights :: "'n \<Rightarrow> (string \<times> int) list"
  node_ConnectPeer :: "string \<Rightarrow> ('n, unit) action"
  node_CreateWallet :: "string \<Rightarrow> ('n, handle \<times> string) action"
  node_RestoreWallet :: "string \<Rightarrow> string \<Rightarrow> string \<Rightarrow> ('n, handle) action"
  node_SetBroadcastFanout :: "int \<Rightarrow> 'n \<Rightarrow> 'n"
  node_SetPendingTxTracking :: "bool \<Rightarrow> 'n \<Rightarrow> 'n"
  node_P2PKHOutput :: "string \<Rightarrow> int \<Rightarrow> 'n \<Rightarrow> bsv_OutputSpec result"
  node_SpendCustom :: "bsv_CustomInput list \<Rightarrow> bsv_OutputSpec list \<Rightarrow> ('n, string) action"
  node_BroadcastRaw :: "bytes \<Rightarrow> ('n, string) action"
  node_ExecuteScript :: "bytes \<Rightarrow> bytes \<Rightarrow> bsv_Transaction option \<Rightarrow> int \<Rightarrow> int \<Rightarrow> 'n \<Rightarrow> unit result"
  node_ExecuteScriptStrict :: "bytes \<Rightarrow> bytes \<Rightarrow> bsv_Transaction option \<Rightarrow> int \<Rightarrow> int \<Rightarrow> 'n \<Rightarrow> unit result"
  node_DecodeOutputAddress :: "bytes \<Rightarrow> 'n \<Rightarrow> string \<times> bool"
  node_PendingTransactions :: "'n \<Rightarrow> bsv_PendingTx list"
  node_RebroadcastPendingTransactions :: "'n \<Rightarrow> int \<times> 'n"
  node_SenderAddressFromInput :: "bsv_Transaction \<Rightarrow> int \<Rightarrow> 'n \<Rightarrow> string \<times> bool"
  node_VerifyTxSeen :: "string \<Rightarrow> int \<Rightarrow> int \<Rightarrow> ('n, bool) action"
  node_WaitForTxRelay :: "string \<Rightarrow> int \<Rightarrow> ('n, bool) action"

record 'n wallet_api =
  wal_NewDerivedAddress :: "handle \<Rightarrow> ('n, bsv_DerivedAddress) action"
  wal_BatchNewDerivedAddresses :: "handle \<Rightarrow> int \<Rightarrow> ('n, bsv_DerivedAddress list) action"
  wal_DeriveAt :: "handle \<Rightarrow> uint32 \<Rightarrow> uint32 \<Rightarrow> ('n, string) action"
  wal_PubKeyAt :: "handle \<Rightarrow> uint32 \<Rightarrow> uint32 \<Rightarrow> ('n, bytes \<times> string) action"
  wal_SignHashAt :: "handle \<Rightarrow> uint32 \<Rightarrow> uint32 \<Rightarrow> bytes \<Rightarrow> ('n, bytes \<times> bytes) action"
  wal_NextIndex :: "handle \<Rightarrow> uint32 \<Rightarrow> 'n \<Rightarrow> uint32"
  wal_Balance :: "handle \<Rightarrow> 'n \<Rightarrow> int"
  wal_BalanceBSV :: "handle \<Rightarrow> 'n \<Rightarrow> float64"
  wal_SpendableBalance :: "handle \<Rightarrow> 'n \<Rightarrow> int"
  wal_ImmatureBalance :: "handle \<Rightarrow> 'n \<Rightarrow> int"
  wal_UTXOs :: "handle \<Rightarrow> 'n \<Rightarrow> bsv_UTXO list"
  wal_ForceImportCoin :: "handle \<Rightarrow> bsv_UTXO \<Rightarrow> ('n, unit) action"
  wal_ImportUTXO :: "handle \<Rightarrow> string \<Rightarrow> uint32 \<Rightarrow> int \<Rightarrow> bytes \<Rightarrow> int \<Rightarrow> ('n, unit) action"
  wal_ProcessRawTx :: "handle \<Rightarrow> bytes \<Rightarrow> int \<Rightarrow> ('n, unit) action"
  wal_ClearUTXOs :: "handle \<Rightarrow> 'n \<Rightarrow> int \<times> 'n"
  wal_ReloadFromStore :: "handle \<Rightarrow> ('n, int) action"
  wal_Wipe :: "handle \<Rightarrow> ('n, int) action"
  wal_PruneUnknownUTXOs :: "handle \<Rightarrow> 'n \<Rightarrow> int \<times> 'n"
  wal_IgnoreOutpoint :: "handle \<Rightarrow> string \<Rightarrow> uint32 \<Rightarrow> 'n \<Rightarrow> 'n"
  wal_UnignoreOutpoint :: "handle \<Rightarrow> string \<Rightarrow> uint32 \<Rightarrow> 'n \<Rightarrow> 'n"
  wal_IsOutpointIgnored :: "handle \<Rightarrow> string \<Rightarrow> uint32 \<Rightarrow> 'n \<Rightarrow> bool"
  wal_UntrackUTXO :: "handle \<Rightarrow> string \<Rightarrow> uint32 \<Rightarrow> 'n \<Rightarrow> int \<times> 'n"
  wal_CanCover :: "handle \<Rightarrow> int \<Rightarrow> int \<Rightarrow> int \<Rightarrow> 'n \<Rightarrow> unit result"
  wal_Send :: "handle \<Rightarrow> string \<Rightarrow> int \<Rightarrow> ('n, string) action"
  wal_SendAll :: "handle \<Rightarrow> string \<Rightarrow> ('n, string) action"
  wal_SpendToOutputsDetailed :: "handle \<Rightarrow> bsv_OutputSpec list \<Rightarrow> ('n, bsv_SpendDetail option) action"
  wal_SpendToOutputsDetailedFrom :: "handle \<Rightarrow> bsv_OutPoint list \<Rightarrow> bsv_OutputSpec list \<Rightarrow> ('n, bsv_SpendDetail option) action"
  wal_SpendToOutputsDetailedIgnoringFixed :: "handle \<Rightarrow> bsv_OutputSpec list \<Rightarrow> ('n, bsv_SpendDetail option) action"
  wal_TxState :: "handle \<Rightarrow> string \<Rightarrow> 'n \<Rightarrow> (bsv_TxState \<times> bool) result"
  wal_AbandonTransaction :: "handle \<Rightarrow> string \<Rightarrow> ('n, unit) action"
  wal_ClearIgnoredOutpoints :: "handle \<Rightarrow> 'n \<Rightarrow> int \<times> 'n"
  wal_OwnsScript :: "handle \<Rightarrow> bytes \<Rightarrow> 'n \<Rightarrow> bool"
  wal_GetIncompleteCursor :: "handle \<Rightarrow> 'n \<Rightarrow> (bsv_Cursor option \<times> bool) result"
  wal_SetStore :: "handle \<Rightarrow> handle \<Rightarrow> 'n \<Rightarrow> 'n"
  wal_LoadAddressSnapshot :: "handle \<Rightarrow> bsv_SnapshotEntry list \<Rightarrow> 'n \<Rightarrow> 'n"
  wal_SetNextIndices :: "handle \<Rightarrow> uint32 \<Rightarrow> uint32 \<Rightarrow> 'n \<Rightarrow> 'n"
  wal_LoadFromStore :: "handle \<Rightarrow> ('n, int) action"
  wal_NextIndices :: "handle \<Rightarrow> 'n \<Rightarrow> uint32 \<times> uint32"
  wal_SaveAddressSnapshot :: "handle \<Rightarrow> 'n \<Rightarrow> bsv_SnapshotEntry list"
  wal_Addresses :: "handle \<Rightarrow> 'n \<Rightarrow> string list"
  wal_Selector :: "handle \<Rightarrow> 'n \<Rightarrow> string"

record 'n pkg_api =
  pkg_TxIDFromHex :: "string \<Rightarrow> bytes result"
  pkg_ParseTransaction :: "bytes \<Rightarrow> bsv_Transaction result"
  pkg_OpReturnOutput :: "bytes \<Rightarrow> bsv_OutputSpec"
  pkg_AnyoneCanSpendOutput :: "int \<Rightarrow> bsv_OutputSpec"
  pkg_CoinbaseMaturity :: int
  pkg_ReadAddressSnapshot :: "string \<Rightarrow> 'n \<Rightarrow> (uint32 \<times> uint32 \<times> bsv_SnapshotEntry list) result"
  pkg_WriteAddressSnapshot :: "string \<Rightarrow> uint32 \<Rightarrow> uint32 \<Rightarrow> bsv_SnapshotEntry list \<Rightarrow> ('n, unit) action"
  sqlite_Open :: "string \<Rightarrow> ('n, handle) action"
  sqlite_Close :: "handle \<Rightarrow> ('n, unit) action"

record 'n sdk =
  the_node :: "'n node_api"
  the_wallet :: "'n wallet_api"
  the_pkg :: "'n pkg_api"

end
