(* ===== verification/Broker.thy ===== *)
theory Broker
  imports Prelude "HOL-Library.Sublist"
begin

text \<open>
  The event broker of \<^verbatim>\<open>internal/service/service.go\<close>: publishers hand events to every subscriber's
  buffered channel; a subscriber whose buffer of 64 is full loses the event. The
  operations run under the broker's mutex, so they are atomic; \<open>broker_step\<close> interleaves them, and
  \<open>streamFiltered\<close> is the reader's loop. The channel is the interface \<open>bounded_fifo\<close>.
\<close>

section \<open>Channels\<close>

text \<open>A buffered Go channel: the values in flight, oldest first, and its capacity.\<close>

record 'a chan =
  buf :: "'a list"
  cap :: nat

definition make_chan :: "nat \<Rightarrow> 'a chan" where
  "make_chan n = \<lparr>buf = [], cap = n\<rparr>"

text \<open>\<^verbatim>\<open>select { case ch <- v: default: }\<close>: a send that does not wait.\<close>

definition try_send :: "'a \<Rightarrow> 'a chan \<Rightarrow> 'a chan" where
  "try_send v ch = (if length (buf ch) < cap ch then ch\<lparr>buf := buf ch @ [v]\<rparr> else ch)"

definition recv :: "'a chan \<Rightarrow> ('a \<times> 'a chan) option" where
  "recv ch = (case buf ch of [] \<Rightarrow> None | v # vs \<Rightarrow> Some (v, ch\<lparr>buf := vs\<rparr>))"

locale bounded_fifo =
  fixes send :: "'a \<Rightarrow> 'c \<Rightarrow> 'c" and receive :: "'c \<Rightarrow> ('a \<times> 'c) option"
    and contents :: "'c \<Rightarrow> 'a list" and capacity :: "'c \<Rightarrow> nat"
  assumes send_room: "length (contents c) < capacity c \<Longrightarrow> contents (send v c) = contents c @ [v]"
    and send_full: "\<not> length (contents c) < capacity c \<Longrightarrow> contents (send v c) = contents c"
    and send_capacity: "capacity (send v c) = capacity c"
    and receive_None: "receive c = None \<longleftrightarrow> contents c = []"
    and receive_Some: "receive c = Some (v, c') \<Longrightarrow> contents c = v # contents c' \<and> capacity c' = capacity c"
begin

lemma send_bounded:
  "length (contents c) \<le> capacity c \<Longrightarrow> length (contents (send v c)) \<le> capacity (send v c)"
  by (cases "length (contents c) < capacity c") (simp_all add: send_room send_full send_capacity)

lemma receive_bounded:
  "receive c = Some (v, c') \<Longrightarrow> length (contents c) \<le> capacity c \<Longrightarrow> length (contents c') \<le> capacity c'"
  by (drule receive_Some) auto

lemma foldl_send:
  "\<exists>vs'. contents (foldl (\<lambda>c v. send v c) c vs) = contents c @ vs' \<and> set vs' \<subseteq> set vs"
proof (induction vs arbitrary: c)
  case (Cons v vs)
  obtain vs' where vs': "contents (foldl (\<lambda>c v. send v c) (send v c) vs) = contents (send v c) @ vs'"
      "set vs' \<subseteq> set vs"
    using Cons.IH by blast
  show ?case
  proof (cases "length (contents c) < capacity c")
    case True
    with vs' show ?thesis by (intro exI [of _ "v # vs'"]) (auto simp: send_room)
  next
    case False
    with vs' show ?thesis by (intro exI [of _ vs']) (auto simp: send_full)
  qed
qed simp

lemma foldl_send_room:
  "length (contents c) + length vs \<le> capacity c \<Longrightarrow>
     contents (foldl (\<lambda>c v. send v c) c vs) = contents c @ vs"
  by (induction vs arbitrary: c) (simp_all add: send_room send_capacity)

end

interpretation chan: bounded_fifo try_send recv buf cap
  by unfold_locales (auto simp: try_send_def recv_def split: list.splits)

section \<open>The broker\<close>

record 'a broker =
  nextID :: int
  subs :: "(int \<times> 'a chan) list"

definition newBroker :: "'a broker" where
  "newBroker = \<lparr>nextID = 0, subs = []\<rparr>"

definition subscribe :: "'a broker \<Rightarrow> int \<times> 'a broker" where
  "subscribe b =
     (let ident = nextID b
      in (ident, b\<lparr>nextID := to_int64 (nextID b + 1), subs := AList.update ident (make_chan 64) (subs b)\<rparr>))"

definition unsubscribe :: "int \<Rightarrow> 'a broker \<Rightarrow> 'a broker" where
  "unsubscribe ident b = b\<lparr>subs := AList.delete ident (subs b)\<rparr>"

definition publish :: "'a \<Rightarrow> 'a broker \<Rightarrow> 'a broker" where
  "publish v b = b\<lparr>subs := map (\<lambda>(i, ch). (i, try_send v ch)) (subs b)\<rparr>"

text \<open>What a subscriber finds in its channel; \<open>None\<close> once it is closed.\<close>

definition channel :: "'a broker \<Rightarrow> int \<Rightarrow> 'a chan option" where
  "channel b i = map_of (subs b) i"

text \<open>The subscriber takes one value from its channel.\<close>

definition take_event :: "int \<Rightarrow> 'a broker \<Rightarrow> ('a \<times> 'a broker) option" where
  "take_event i b =
     (case channel b i of
        None \<Rightarrow> None
      | Some ch \<Rightarrow> (case recv ch of
            None \<Rightarrow> None
          | Some (v, ch') \<Rightarrow> Some (v, b\<lparr>subs := AList.update i ch' (subs b)\<rparr>)))"

section \<open>Laws of the operations\<close>

lemma map_of_map_snd: "map_of (map (\<lambda>(i, x). (i, f x)) xs) k = map_option f (map_of xs k)"
  by (induction xs) auto

lemma channel_newBroker [simp]: "channel newBroker i = None"
  by (simp add: channel_def newBroker_def)

lemma channel_publish [simp]: "channel (publish v b) i = map_option (try_send v) (channel b i)"
  by (simp add: channel_def publish_def map_of_map_snd)

lemma channel_unsubscribe [simp]:
  "channel (unsubscribe j b) i = (if i = j then None else channel b i)"
  by (simp add: channel_def unsubscribe_def delete_conv')

lemma channel_subscribe:
  "subscribe b = (j, b') \<Longrightarrow> channel b' i = (if i = j then Some (make_chan 64) else channel b i)"
  by (auto simp: channel_def subscribe_def Let_def update_conv')

lemma channel_take:
  "take_event i b = Some (v, b') \<Longrightarrow>
     (\<exists>ch ch'. channel b i = Some ch \<and> recv ch = Some (v, ch') \<and>
        (\<forall>j. channel b' j = (if j = i then Some ch' else channel b j)))"
  by (auto simp: take_event_def channel_def update_conv' split: option.splits)

text \<open>Which identifiers are in use, and that buffers stay within their capacity.\<close>

definition broker_inv :: "'a broker \<Rightarrow> bool" where
  "broker_inv b \<longleftrightarrow> 0 \<le> nextID b
     \<and> (\<forall>i ch. channel b i = Some ch \<longrightarrow> 0 \<le> i \<and> i < nextID b \<and> cap ch = 64 \<and> length (buf ch) \<le> 64)"

lemma broker_inv_new: "broker_inv newBroker"
  by (simp add: broker_inv_def) (simp add: newBroker_def)

lemma broker_invD:
  "broker_inv b \<Longrightarrow> channel b i = Some ch \<Longrightarrow> 0 \<le> i \<and> i < nextID b \<and> cap ch = 64 \<and> length (buf ch) \<le> 64"
  by (simp add: broker_inv_def)

lemma broker_inv_fresh: "broker_inv b \<Longrightarrow> channel b (nextID b) = None"
  using broker_invD [of b "nextID b"] by (cases "channel b (nextID b)") auto

lemma nextID_simps [simp]:
  "nextID (publish v b) = nextID b" "nextID (unsubscribe i b) = nextID b"
  by (simp_all add: publish_def unsubscribe_def)

lemma broker_inv_publish: "broker_inv b \<Longrightarrow> broker_inv (publish v b)"
  unfolding broker_inv_def by (auto simp: try_send_def)

lemma broker_inv_unsubscribe: "broker_inv b \<Longrightarrow> broker_inv (unsubscribe i b)"
  unfolding broker_inv_def by (auto split: if_splits)

lemma subscribe_no_wrap:
  assumes "broker_inv b" and "nextID b < 2 ^ 63 - 1" and "subscribe b = (j, b')"
  shows "j = nextID b" and "nextID b' = nextID b + 1"
  using assms by (auto simp: subscribe_def Let_def broker_inv_def to_int64_id in_int64_def)

lemma broker_inv_subscribe:
  assumes "broker_inv b" and "nextID b < 2 ^ 63 - 1" and "subscribe b = (j, b')"
  shows "broker_inv b'"
proof -
  note n = subscribe_no_wrap [OF assms]
  have "0 \<le> i \<and> i < nextID b' \<and> cap ch = 64 \<and> length (buf ch) \<le> 64" if "channel b' i = Some ch" for i ch
  proof (cases "i = j")
    case True
    with that show ?thesis
      using channel_subscribe [OF assms(3), of i] n assms(1) by (auto simp: make_chan_def broker_inv_def)
  next
    case False
    with that show ?thesis
      using channel_subscribe [OF assms(3), of i] n broker_invD [OF assms(1), of i ch] by auto
  qed
  with n assms(1) show ?thesis
    by (simp add: broker_inv_def)
qed

lemma take_nextID: "take_event i b = Some (v, b') \<Longrightarrow> nextID b' = nextID b"
  by (auto simp: take_event_def split: option.splits)

lemma broker_inv_take:
  assumes "broker_inv b" and "take_event i b = Some (v, b')"
  shows "broker_inv b'"
proof -
  obtain ch ch' where ch: "channel b i = Some ch" "recv ch = Some (v, ch')"
    and b': "\<And>j. channel b' j = (if j = i then Some ch' else channel b j)"
    using channel_take [OF assms(2)] by blast
  have "0 \<le> j \<and> j < nextID b' \<and> cap c = 64 \<and> length (buf c) \<le> 64" if "channel b' j = Some c" for j c
  proof (cases "j = i")
    case True
    with that b' have "c = ch'" by simp
    with True show ?thesis
      using broker_invD [OF assms(1) ch(1)] chan.receive_Some [OF ch(2)] take_nextID [OF assms(2)] by auto
  next
    case False
    with that b' show ?thesis
      using broker_invD [OF assms(1), of j c] take_nextID [OF assms(2)] by simp
  qed
  with assms(1) show ?thesis
    by (simp add: broker_inv_def take_nextID [OF assms(2)])
qed

section \<open>Interleavings\<close>

text \<open>What the goroutines sharing the broker do to it, one critical section or receive at a time.\<close>

datatype 'a bevent = EvPublish 'a | EvSubscribe | EvUnsubscribe int | EvTake int

fun broker_exec :: "'a bevent \<Rightarrow> 'a broker \<Rightarrow> 'a broker" where
  "broker_exec (EvPublish v) b = publish v b"
| "broker_exec EvSubscribe b = snd (subscribe b)"
| "broker_exec (EvUnsubscribe i) b = unsubscribe i b"
| "broker_exec (EvTake i) b = (case take_event i b of None \<Rightarrow> b | Some (v, b') \<Rightarrow> b')"

fun broker_run :: "'a bevent list \<Rightarrow> 'a broker \<Rightarrow> 'a broker" where
  "broker_run [] b = b"
| "broker_run (e # es) b = broker_run es (broker_exec e b)"

fun published :: "'a bevent list \<Rightarrow> 'a list" where
  "published [] = []"
| "published (EvPublish v # es) = v # published es"
| "published (_ # es) = published es"

text \<open>The values subscriber \<open>i\<close> receives during a run.\<close>

fun delivered :: "int \<Rightarrow> 'a bevent list \<Rightarrow> 'a broker \<Rightarrow> 'a list" where
  "delivered i [] b = []"
| "delivered i (e # es) b =
     (case e of
        EvTake j \<Rightarrow> (if j = i then (case take_event i b of None \<Rightarrow> [] | Some (v, _) \<Rightarrow> [v]) else [])
      | _ \<Rightarrow> []) @ delivered i es (broker_exec e b)"

definition can_subscribe :: "nat \<Rightarrow> 'a broker \<Rightarrow> bool" where
  "can_subscribe n b \<longleftrightarrow> nextID b + int n < 2 ^ 63"

lemma exec_inv:
  assumes "broker_inv b" and "can_subscribe (Suc n) b"
  shows "broker_inv (broker_exec e b) \<and> can_subscribe n (broker_exec e b)"
proof (cases e)
  case EvSubscribe
  obtain j b' where s: "subscribe b = (j, b')" by (cases "subscribe b")
  have "nextID b < 2 ^ 63 - 1"
    using assms(2) by (simp add: can_subscribe_def)
  with s EvSubscribe assms show ?thesis
    using broker_inv_subscribe [OF assms(1) _ s] subscribe_no_wrap [OF assms(1) _ s]
    by (simp add: can_subscribe_def)
next
  case (EvTake i)
  with assms show ?thesis
    by (cases "take_event i b") (auto simp: can_subscribe_def dest: broker_inv_take take_nextID)
qed (use assms in \<open>auto simp: can_subscribe_def broker_inv_publish broker_inv_unsubscribe\<close>)

lemma exec_channel_other:
  assumes "broker_inv b" and "can_subscribe 1 b" and "channel b i = Some ch" and "e \<noteq> EvUnsubscribe i" and "e \<noteq> EvTake i"
  shows "channel (broker_exec e b) i = Some (case e of EvPublish v \<Rightarrow> try_send v ch | _ \<Rightarrow> ch)"
proof (cases e)
  case EvSubscribe
  obtain j b' where s: "subscribe b = (j, b')" by (cases "subscribe b")
  have "j = nextID b"
    using subscribe_no_wrap(1) [OF assms(1) _ s] assms(2) by (simp add: can_subscribe_def)
  then have "i \<noteq> j"
    using broker_invD [OF assms(1,3)] by simp
  with s EvSubscribe assms(3) show ?thesis
    by (simp add: channel_subscribe [OF s])
next
  case (EvTake j)
  with assms show ?thesis
    by (cases "take_event j b") (auto dest!: channel_take)
qed (use assms in auto)

text \<open>What an event of another goroutine does to the channel of a subscriber.\<close>

definition reached :: "'a bevent \<Rightarrow> 'a chan \<Rightarrow> 'a chan" where
  "reached e ch = (case e of EvPublish v \<Rightarrow> try_send v ch | _ \<Rightarrow> ch)"

lemma reached_account:
  shows "subseq (buf (reached e ch) @ published es) (buf ch @ published (e # es))"
    and "cap ch = 64 \<Longrightarrow> length (buf ch) + length (published (e # es)) \<le> 64 \<Longrightarrow>
      length (buf (reached e ch)) + length (published es) \<le> 64
      \<and> buf (reached e ch) @ published es = buf ch @ published (e # es)"
  by (cases e; auto simp: reached_def try_send_def intro!: list_emb_append_mono list_emb_Cons)+

text \<open>
  The account of a subscriber: what it has received and what waits in its channel, together, are
  taken in order from what was waiting before and what was published.
\<close>

lemma run_account:
  assumes "broker_inv b" and "can_subscribe (length es) b" and "channel b i = Some ch"
    and "EvUnsubscribe i \<notin> set es"
  shows "\<exists>ch'. channel (broker_run es b) i = Some ch' \<and>
           subseq (delivered i es b @ buf ch') (buf ch @ published es) \<and>
           (length (buf ch) + length (published es) \<le> 64 \<longrightarrow>
              delivered i es b @ buf ch' = buf ch @ published es)"
  using assms
proof (induction es arbitrary: b ch)
  case (Cons e es)
  have inv: "broker_inv (broker_exec e b)" "can_subscribe (length es) (broker_exec e b)"
    using exec_inv [OF Cons.prems(1)] Cons.prems(2) by simp_all
  have one: "can_subscribe 1 b"
    using Cons.prems(2) by (simp add: can_subscribe_def)
  show ?case
  proof (cases "e = EvTake i \<and> take_event i b \<noteq> None")
    case True
    then obtain v b' where t: "take_event i b = Some (v, b')" by auto
    obtain ch' where c: "recv ch = Some (v, ch')" "channel b' i = Some ch'"
      using channel_take [OF t] Cons.prems(3) by auto
    have "buf ch = v # buf ch'"
      using chan.receive_Some [OF c(1)] by simp
    with True t c Cons.IH [OF inv, of ch'] Cons.prems(4) show ?thesis
      by auto
  next
    case False
    then have same: "channel (broker_exec e b) i = Some (reached e ch)"
      using exec_channel_other [OF Cons.prems(1) one Cons.prems(3), of e] Cons.prems(3,4)
      by (cases "e = EvTake i"; cases "take_event i b") (auto simp: reached_def)
    have no: "delivered i (e # es) b = delivered i es (broker_exec e b)"
      using False by (cases "take_event i b") (auto split: bevent.splits)
    obtain ch' where ch': "channel (broker_run es (broker_exec e b)) i = Some ch'"
      "subseq (delivered i es (broker_exec e b) @ buf ch') (buf (reached e ch) @ published es)"
      "length (buf (reached e ch)) + length (published es) \<le> 64 \<longrightarrow>
         delivered i es (broker_exec e b) @ buf ch' = buf (reached e ch) @ published es"
      using Cons.IH [OF inv, of "reached e ch"] same Cons.prems(4) by auto
    have cap: "cap ch = 64" using broker_invD [OF Cons.prems(1,3)] by simp
    from ch' no show ?thesis
      using reached_account(1) [of e ch es] reached_account(2) [OF cap, of e es] by (auto intro: subseq_order.trans)
  qed
qed simp

section \<open>Streams\<close>

text \<open>
  \<^verbatim>\<open>streamFiltered\<close>: the goroutine subscribes, then waits for its context to end or its channel to
  deliver; kept values are sent to the client, whose \<open>n\<close>-th send may fail. \<open>Env\<close> ticks are the other
  goroutines' actions on the broker; \<open>Ready\<close> is the reader taking the receive case (it waits when
  nothing is there); \<open>Done\<close> is the context ending. The result is \<open>None\<close> while the loop still waits,
  otherwise the returned error. Leaving the loop always unsubscribes (the deferred call).
\<close>

datatype 'a tick = Env "'a bevent" | Ready | Done

fun stream_loop :: "('a \<Rightarrow> bool) \<Rightarrow> (nat \<Rightarrow> 'a \<Rightarrow> goerr option) \<Rightarrow> int \<Rightarrow> 'a tick list \<Rightarrow> 'a list
    \<Rightarrow> 'a broker \<Rightarrow> unit result option \<times> 'a list \<times> 'a broker" where
  "stream_loop keep send i [] sent b = (None, sent, b)"
| "stream_loop keep send i (Env e # ts) sent b = stream_loop keep send i ts sent (broker_exec e b)"
| "stream_loop keep send i (Done # ts) sent b = (Some (Inr ()), sent, unsubscribe i b)"
| "stream_loop keep send i (Ready # ts) sent b =
     (case channel b i of
        None \<Rightarrow> (Some (Inr ()), sent, unsubscribe i b)
      | Some _ \<Rightarrow>
         (case take_event i b of
            None \<Rightarrow> stream_loop keep send i ts sent b
          | Some (v, b') \<Rightarrow>
             if keep v then
               (case send (length sent) v of
                  Some e \<Rightarrow> (Some (Inl e), sent, unsubscribe i b')
                | None \<Rightarrow> stream_loop keep send i ts (sent @ [v]) b')
             else stream_loop keep send i ts sent b'))"

definition streamFiltered :: "('a \<Rightarrow> bool) \<Rightarrow> (nat \<Rightarrow> 'a \<Rightarrow> goerr option) \<Rightarrow> 'a tick list
    \<Rightarrow> 'a broker \<Rightarrow> unit result option \<times> 'a list \<times> 'a broker" where
  "streamFiltered keep send ts b =
     (case subscribe b of (i, b') \<Rightarrow> stream_loop keep send i ts [] b')"

definition streamAll :: "(nat \<Rightarrow> 'a \<Rightarrow> goerr option) \<Rightarrow> 'a tick list
    \<Rightarrow> 'a broker \<Rightarrow> unit result option \<times> 'a list \<times> 'a broker" where
  "streamAll send ts b = streamFiltered (\<lambda>_. True) send ts b"

fun env_events :: "'a tick list \<Rightarrow> 'a bevent list" where
  "env_events [] = []"
| "env_events (Env e # ts) = e # env_events ts"
| "env_events (_ # ts) = env_events ts"

text \<open>Other goroutines neither close nor read this reader's channel: they do not know its number.\<close>

definition foreign :: "int \<Rightarrow> 'a tick list \<Rightarrow> bool" where
  "foreign i ts \<longleftrightarrow> EvUnsubscribe i \<notin> set (env_events ts) \<and> EvTake i \<notin> set (env_events ts)"

lemma foreign_Cons: "foreign i (t # ts) \<Longrightarrow> foreign i ts"
  by (cases t) (auto simp: foreign_def)

lemma stream_loop_account:
  assumes "broker_inv b" and "can_subscribe (length ts) b" and "channel b i = Some ch" and "foreign i ts"
    and "stream_loop keep send i ts sent b = (r, out, b')"
  shows "subseq out (sent @ filter keep (buf ch @ published (env_events ts)))
    \<and> (r \<noteq> None \<longrightarrow> channel b' i = None)"
  using assms
proof (induction keep send i ts sent b arbitrary: ch rule: stream_loop.induct)
  case (1 keep send i sent b)
  then show ?case by auto
next
  case (2 keep send i e ts sent b)
  have inv: "broker_inv (broker_exec e b)" "can_subscribe (length ts) (broker_exec e b)"
    using exec_inv [OF "2.prems"(1)] "2.prems"(2) by simp_all
  have ne: "e \<noteq> EvUnsubscribe i" "e \<noteq> EvTake i" and f: "foreign i ts"
    using "2.prems"(4) by (auto simp: foreign_def)
  have one: "can_subscribe 1 b"
    using "2.prems"(2) by (simp add: can_subscribe_def)
  have c: "channel (broker_exec e b) i = Some (reached e ch)"
    using exec_channel_other [OF "2.prems"(1) one "2.prems"(3) ne] by (simp add: reached_def)
  have "subseq (filter keep (buf (reached e ch) @ published (env_events ts)))
     (filter keep (buf ch @ published (env_events (Env e # ts))))"
    using subseq_filter [OF reached_account(1) [of e ch "env_events ts"]] by simp
  then show ?case
    using "2.IH" [OF inv c f] "2.prems"(5)
    by (auto intro: subseq_order.trans list_emb_append_mono)
next
  case (3 keep send i ts sent b)
  then show ?case by auto
next
  case (4 keep send i ts sent b)
  have can: "can_subscribe (length ts) b'" if "nextID b' = nextID b" for b' :: "'a broker"
    using "4.prems"(2) that by (simp add: can_subscribe_def)
  show ?case
  proof (cases "take_event i b")
    case None
    with "4" show ?thesis
      using can foreign_Cons [OF "4.prems"(4)] by auto
  next
    case (Some vb)
    obtain v b1 where t: "take_event i b = Some (v, b1)"
      using Some by (cases vb) auto
    obtain ch' where c: "recv ch = Some (v, ch')" "channel b1 i = Some ch'"
      using channel_take [OF t] "4.prems"(3) by auto
    have hd: "buf ch = v # buf ch'"
      using chan.receive_Some [OF c(1)] by simp
    have rest: "broker_inv b1" "can_subscribe (length ts) b1" "foreign i ts"
      using broker_inv_take [OF "4.prems"(1) t] can take_nextID [OF t] foreign_Cons [OF "4.prems"(4)] by auto
    consider (drop) "\<not> keep v" | (fail) e where "keep v" "send (length sent) v = Some e"
      | (sent) "keep v" "send (length sent) v = None"
      by (cases "send (length sent) v") auto
    then show ?thesis
    proof cases
      case drop
      then show ?thesis
        using "4.IH"(3) [OF "4.prems"(3) t refl] "4.prems"(3,5) t rest c(2) hd by auto
    next
      case fail
      then show ?thesis
        using "4.prems"(3,5) t by auto
    next
      case sent
      then show ?thesis
        using "4.IH"(2) [OF "4.prems"(3) t refl] "4.prems"(3,5) t rest c(2) hd by auto
    qed
  qed
qed

section \<open>Properties\<close>

lemma run_inv: "broker_inv b \<Longrightarrow> can_subscribe (length es) b \<Longrightarrow> broker_inv (broker_run es b)"
  by (induction es arbitrary: b) (use exec_inv in auto)

text \<open>
  C26. A subscriber's events. However publishers, subscribers and readers interleave, a subscriber that
  stays subscribed receives events in the order they were published, each at most once and none that
  was not published; and while no more than 64 events are outstanding since it last caught up, it
  loses none of them.
\<close>

theorem broker_delivery:
  assumes "broker_inv b" and "can_subscribe (length es) b" and "channel b i = Some ch"
    and "EvUnsubscribe i \<notin> set es"
  shows "\<exists>ch'. channel (broker_run es b) i = Some ch' \<and>
           subseq (delivered i es b @ buf ch') (buf ch @ published es) \<and>
           (length (buf ch) + length (published es) \<le> 64 \<longrightarrow>
              delivered i es b @ buf ch' = buf ch @ published es)"
  using assms by (rule run_account)

theorem broker_delivery_witness:
  "let b = snd (subscribe newBroker); es = [EvPublish (5::nat), EvSubscribe, EvTake 0, EvPublish 6]
   in \<exists>ch'. channel (broker_run es b) 0 = Some ch' \<and>
        subseq (delivered 0 es b @ buf ch') (buf (make_chan 64) @ published es) \<and>
        (length (buf (make_chan 64) :: nat list) + length (published es) \<le> 64 \<longrightarrow>
           delivered 0 es b @ buf ch' = buf (make_chan 64) @ published es)"
proof -
  have s: "subscribe (newBroker :: nat broker) = (0, \<lparr>nextID = 1, subs = [(0, make_chan 64)]\<rparr>)"
    by (simp add: subscribe_def newBroker_def to_int64_def)
  have inv: "broker_inv (snd (subscribe (newBroker :: nat broker)))"
    using broker_inv_subscribe [OF broker_inv_new _ s] by (simp add: s) (simp add: newBroker_def)
  show ?thesis
    unfolding Let_def
    by (rule broker_delivery [OF inv]) (simp_all add: s can_subscribe_def channel_def)
qed

text \<open>
  C27. Memory is bounded, and a slow reader costs nobody else anything. Whatever the goroutines do, starting
  from a new broker: no subscriber's channel ever holds more than 64 events; publishing once more appends
  the event to every channel that has room, and leaves exactly the full ones as they are; and a new
  subscription gets a number that is not in use and an empty channel, and leaves the others alone.
\<close>

theorem broker_bounded:
  assumes "int (length es) < 2 ^ 63 - 1" and "b = broker_run es newBroker" and "subscribe b = (j, b')"
  shows "(\<forall>i ch. channel b i = Some ch \<longrightarrow> length (buf ch) \<le> 64
       \<and> map_option buf (channel (publish v b) i) = Some (if length (buf ch) < 64 then buf ch @ [v] else buf ch))
    \<and> (\<forall>i. channel b i = None \<longrightarrow> channel (publish v b) i = None)
    \<and> channel b j = None \<and> map_option buf (channel b' j) = Some [] \<and> (\<forall>i. i \<noteq> j \<longrightarrow> channel b' i = channel b i)"
proof -
  have "can_subscribe (length es) newBroker"
    using assms(1) by (simp add: can_subscribe_def newBroker_def)
  then have inv: "broker_inv b"
    unfolding assms(2) by (rule run_inv [OF broker_inv_new])
  have "j = nextID b" using assms(3) by (simp add: subscribe_def Let_def)
  then have fresh: "channel b j = None" using broker_inv_fresh [OF inv] by simp
  show ?thesis
    using broker_invD [OF inv] fresh channel_subscribe [OF assms(3)] by (auto simp: try_send_def make_chan_def)
qed

theorem broker_bounded_witness:
  "let es = EvSubscribe # map EvPublish [0..<100]; b = broker_run es (newBroker :: nat broker)
   in (\<forall>i ch. channel b i = Some ch \<longrightarrow> length (buf ch) \<le> 64) \<and> channel b (fst (subscribe b)) = None"
proof -
  let ?es = "EvSubscribe # map EvPublish [0..<100]"
  let ?b = "broker_run ?es (newBroker :: nat broker)"
  obtain j b' where s: "subscribe ?b = (j, b')" by (cases "subscribe ?b")
  have "int (length ?es) < 2 ^ 63 - 1" by simp
  from broker_bounded [OF this refl s, of 0] s show ?thesis by (simp add: Let_def)
qed

text \<open>
  C28. A stream sends exactly what its filter keeps: the messages a client gets are, in order, events
  that were published while it was connected and that its filter accepts; and when the stream ends,
  for whatever reason, its subscription is gone.
\<close>

theorem streamFiltered_sound:
  assumes "broker_inv b" and "can_subscribe (Suc (length ts)) b" and "foreign (nextID b) ts"
    and "streamFiltered keep send ts b = (r, out, b')"
  shows "subseq out (filter keep (published (env_events ts))) \<and> list_all keep out
    \<and> (r \<noteq> None \<longrightarrow> channel b' (nextID b) = None)"
proof -
  obtain j b1 where s: "subscribe b = (j, b1)" by (cases "subscribe b")
  have lt: "nextID b < 2 ^ 63 - 1"
    using assms(2) by (simp add: can_subscribe_def)
  note n = subscribe_no_wrap [OF assms(1) lt s]
  have "can_subscribe (length ts) b1"
    using assms(2) n by (simp add: can_subscribe_def)
  moreover have "channel b1 j = Some (make_chan 64)"
    by (simp add: channel_subscribe [OF s])
  ultimately have *: "subseq out (filter keep (published (env_events ts))) \<and> (r \<noteq> None \<longrightarrow> channel b' j = None)"
    using stream_loop_account [OF broker_inv_subscribe [OF assms(1) lt s], of ts j "make_chan 64" keep send "[]" r out b']
      assms(3,4) n by (simp add: streamFiltered_def s make_chan_def)
  moreover have "list_all keep out"
    unfolding list_all_iff
  proof
    fix x assume "x \<in> set out"
    then obtain y where "y \<in> set (filter keep (published (env_events ts)))" "x = y"
      using * by (auto elim: list_emb_set)
    then show "keep x" by simp
  qed
  ultimately show ?thesis
    using n by simp
qed

definition demo_ticks :: "nat tick list" where
  "demo_ticks = [Env (EvPublish 2), Env (EvPublish 5), Ready, Ready, Done]"

theorem streamFiltered_sound_witness:
  "case streamFiltered (\<lambda>n. 2 < n) (\<lambda>_ _. None) demo_ticks newBroker of
     (r, out, b') \<Rightarrow> subseq out (filter (\<lambda>n. 2 < n) (published (env_events demo_ticks)))
       \<and> list_all (\<lambda>n. 2 < n) out \<and> (r \<noteq> None \<longrightarrow> channel b' (nextID (newBroker :: nat broker)) = None)"
proof (cases "streamFiltered (\<lambda>n. 2 < n) (\<lambda>_ _. None) demo_ticks newBroker")
  case (fields r out b')
  have "can_subscribe (Suc (length demo_ticks)) (newBroker :: nat broker)"
    by (simp add: can_subscribe_def newBroker_def demo_ticks_def)
  moreover have "foreign (nextID (newBroker :: nat broker)) demo_ticks"
    by (simp add: foreign_def demo_ticks_def)
  ultimately show ?thesis
    using streamFiltered_sound [OF broker_inv_new _ _ fields] fields by simp
qed

end
