(* ===== verification/Registry.thy ===== *)
theory Registry
  imports State_File Jwt Sdk Broker "HOL-Library.List_Lexorder" "HOL-Library.Char_ord"
begin

text \<open>
  The state of the service and its wallet registry (\<^verbatim>\<open>internal/service/service.go\<close>): construction with
  the migration of legacy plaintext secrets, creation, restoration and lookup of wallets, the state
  file, address snapshots, and the callbacks that turn SDK events into published events. The host
  (files, randomness, clock) is the front part of the state, the SDK's state the field \<open>s_node\<close>; the
  SDK's operations are the argument \<open>A\<close>. \<open>Service.mu\<close> is held throughout the operations that change
  the registry, so they are atomic actions.
\<close>

section \<open>State\<close>

record tenantWallet =
  tw_meta :: walletMeta
  tw_w :: handle
  tw_store :: handle
  tw_rescanning :: bool

text \<open>
  \<open>s_wallets\<close> is the map from wallet keys; \<open>node_events\<close> and \<open>wallet_events\<close> are the callbacks handed to
  the SDK: a wallet callback is a closure over the tenant and wallet identifier.
\<close>

record 'n service = host +
  s_node :: 'n
  s_dataDir :: string
  s_opts :: Options
  s_state :: "walletMeta list"
  s_wallets :: "(string \<times> tenantWallet) list"
  txBroker :: "Transaction option broker"
  blockBroker :: "Block broker"
  paymentBroker :: "Payment broker"
  walletTxBroker :: "WalletTransaction broker"
  trafficBroker :: "P2PTraffic broker"
  rejectBroker :: "Reject broker"
  node_events :: bool
  wallet_events :: "(handle \<times> string \<times> string) list"

type_synonym ('n, 'a) operation = "('n service, 'a) action"

text \<open>Calls into the SDK: fallible ones, queries, and updates.\<close>

definition sdkE :: "('n, 'a) action \<Rightarrow> ('n, 'a) operation" where
  "sdkE m = (\<lambda>s. case m (s_node s) of (r, n) \<Rightarrow> (r, s\<lparr>s_node := n\<rparr>))"

definition sdkQ :: "('n \<Rightarrow> 'a) \<Rightarrow> ('n, 'a) operation" where
  "sdkQ f = (\<lambda>s. (Inr (f (s_node s)), s))"

definition sdkU :: "('n \<Rightarrow> 'n) \<Rightarrow> ('n, unit) operation" where
  "sdkU f = (\<lambda>s. (Inr (), s\<lparr>s_node := f (s_node s)\<rparr>))"

definition sdkN :: "('n \<Rightarrow> 'a \<times> 'n) \<Rightarrow> ('n, 'a) operation" where
  "sdkN f = (\<lambda>s. case f (s_node s) of (x, n) \<Rightarrow> (Inr x, s\<lparr>s_node := n\<rparr>))"

text \<open>\<^verbatim>\<open>if err != nil { return nil, internal(err) }\<close>.\<close>

definition internalE :: "('s, 'a) action \<Rightarrow> ('s, 'a) action" where
  "internalE m = (\<lambda>s. case m s of (Inl e, s') \<Rightarrow> (Inl (internal e), s') | (Inr x, s') \<Rightarrow> (Inr x, s'))"

definition lookup_wallet :: "'n service \<Rightarrow> string \<Rightarrow> tenantWallet option" where
  "lookup_wallet s key = map_of (s_wallets s) key"

section \<open>Paths\<close>

definition statePath :: "'n service \<Rightarrow> string" where
  "statePath s = filepath_Join (s_dataDir s) ''bsvms-wallets.json''"

definition walletDir :: "'n service \<Rightarrow> string" where
  "walletDir s = filepath_Join (s_dataDir s) ''wallets''"

definition walletStorePath :: "walletMeta \<Rightarrow> 'n service \<Rightarrow> string" where
  "walletStorePath m s = filepath_Join (walletDir s) (walletFileID m @ ''.sqlite'')"

definition walletSnapshotPath :: "walletMeta \<Rightarrow> 'n service \<Rightarrow> string" where
  "walletSnapshotPath m s = filepath_Join (walletDir s) (walletFileID m @ ''.addrsnap'')"

section \<open>Secrets of a wallet\<close>

definition newWalletMeta :: "string \<Rightarrow> string \<Rightarrow> string \<Rightarrow> string \<Rightarrow> string \<Rightarrow> ('n, walletMeta) operation" where
  "newWalletMeta tenantID walletID sdkName mnemonic passphrase =
     bindE (getS (\<lambda>s. DataKey (s_opts s))) (\<lambda>key.
     bindE (sealString key mnemonic) (\<lambda>sealedMnemonic.
     bindE (sealString key passphrase) (\<lambda>sealedPassphrase.
     returnE \<lparr>TenantID = tenantID, WalletID = walletID, SDKName = sdkName, Mnemonic = [], Passphrase = [],
       MnemonicCiphertext = sealedMnemonic, PassphraseCiphertext = sealedPassphrase\<rparr>)))"

definition openWalletSecrets :: "bytes \<Rightarrow> walletMeta \<Rightarrow> (string \<times> string) result" where
  "openWalletSecrets key m =
     (if Mnemonic m \<noteq> [] \<or> Passphrase m \<noteq> [] then Inr (Mnemonic m, Passphrase m)
      else bindR (openString key (MnemonicCiphertext m)) (\<lambda>mnemonic.
           bindR (openString key (PassphraseCiphertext m)) (\<lambda>passphrase.
           Inr (mnemonic, passphrase))))"

definition tokensForWallet :: "walletMeta \<Rightarrow> ('n, AuthTokens option) operation" where
  "tokensForWallet m =
     bindE (getS s_opts) (\<lambda>options.
     if \<not> AuthEnabled options then returnE None
     else bindE (issueTokens options (TenantID m) (WalletID m)) (\<lambda>t. returnE (Some t)))"

section \<open>The state file\<close>

definition loadState :: "('n, unit) operation" where
  "loadState =
     bindE (getS statePath) (\<lambda>path.
     bindE (tryE (os_ReadFile path)) (\<lambda>r.
     case r of
       Inl err \<Rightarrow>
         if errors_is err ErrNotExist then modifyS (\<lambda>s. s\<lparr>s_state := []\<rparr>) else throwE err
     | Inr raw \<Rightarrow>
         bindE (liftR (unmarshal_state raw)) (\<lambda>ms. modifyS (\<lambda>s. s\<lparr>s_state := ms\<rparr>))))"

definition saveStateLocked :: "('n, unit) operation" where
  "saveStateLocked =
     bindE (getS (\<lambda>s. json_MarshalIndent (state_json (s_state s)))) (\<lambda>raw.
     bindE (getS statePath) (\<lambda>path.
     let tmp = path @ ''.tmp'' in
     bindE (os_WriteFile tmp raw) (\<lambda>_.
     os_Rename tmp path)))"

section \<open>Snapshots and wallet views\<close>

definition saveSnapshotLocked :: "'n sdk \<Rightarrow> tenantWallet \<Rightarrow> ('n, unit) operation" where
  "saveSnapshotLocked A tw =
     bindE (sdkQ (wal_NextIndices (the_wallet A) (tw_w tw))) (\<lambda>(nextExternal, nextChange).
     bindE (getS (walletSnapshotPath (tw_meta tw))) (\<lambda>path.
     bindE (sdkQ (wal_SaveAddressSnapshot (the_wallet A) (tw_w tw))) (\<lambda>entries.
     sdkE (pkg_WriteAddressSnapshot (the_pkg A) path nextExternal nextChange entries))))"

definition saveSnapshot :: "'n sdk \<Rightarrow> tenantWallet \<Rightarrow> ('n, unit) operation" where
  "saveSnapshot A tw = bindE (tryE (saveSnapshotLocked A tw)) (\<lambda>_. returnE ())"

text \<open>The loop of \<^verbatim>\<open>walletAddresses\<close>: addresses already seen are skipped.\<close>

fun unseen :: "string list \<Rightarrow> bsv_SnapshotEntry list \<Rightarrow> string list" where
  "unseen seen [] = []"
| "unseen seen (entry # entries) =
     (if se_Address entry \<in> set seen then unseen seen entries
      else se_Address entry # unseen (se_Address entry # seen) entries)"

text \<open>
  \<^verbatim>\<open>sort.Slice\<close> by index is taken to be stable; the library leaves the order of entries with equal
  index open, and \<open>slice_sort\<close> below proves what holds for every such order.
\<close>

definition walletAddresses :: "'n sdk \<Rightarrow> handle \<Rightarrow> 'n \<Rightarrow> string list" where
  "walletAddresses A w n =
     (let entries = wal_SaveAddressSnapshot (the_wallet A) w n in
      if entries = [] then wal_Addresses (the_wallet A) w n
      else unseen [] (sort_key se_Index entries))"

definition walletProtoLocked :: "'n sdk \<Rightarrow> tenantWallet \<Rightarrow> 'n \<Rightarrow> Wallet" where
  "walletProtoLocked A tw n =
     (let (nextExternal, nextChange) = wal_NextIndices (the_wallet A) (tw_w tw) n in
      \<lparr>Wallet_tenant_id = TenantID (tw_meta tw), Wallet_wallet_id = WalletID (tw_meta tw),
       Wallet_addresses = walletAddresses A (tw_w tw) n,
       Wallet_balance_satoshis = wal_Balance (the_wallet A) (tw_w tw) n,
       Wallet_balance_bsv = wal_BalanceBSV (the_wallet A) (tw_w tw) n,
       Wallet_next_external_index = nextExternal, Wallet_next_change_index = nextChange,
       Wallet_selector = wal_Selector (the_wallet A) (tw_w tw) n,
       Wallet_spendable_satoshis = wal_SpendableBalance (the_wallet A) (tw_w tw) n,
       Wallet_immature_satoshis = wal_ImmatureBalance (the_wallet A) (tw_w tw) n\<rparr>)"

definition walletProto :: "'n sdk \<Rightarrow> tenantWallet \<Rightarrow> ('n, Wallet) operation" where
  "walletProto A tw = sdkQ (walletProtoLocked A tw)"

section \<open>Events\<close>

text \<open>\<^verbatim>\<open>transactionProto\<close>: a nil transaction stays nil; the loops run over the inputs and outputs by index.\<close>

definition input_proto :: "'n sdk \<Rightarrow> bsv_Transaction \<Rightarrow> 'n \<Rightarrow> nat \<Rightarrow> TxInput" where
  "input_proto A tx n i =
     (let txin = tx_Inputs tx ! i; (sender, _) = node_SenderAddressFromInput (the_node A) tx (int i) n in
      \<lparr>TxInput_prev_txid = in_PrevTxID txin, TxInput_prev_vout = in_PrevVout txin,
       TxInput_script_sig = in_ScriptSig txin, TxInput_coinbase = in_IsCoinbase txin,
       TxInput_sender_address = sender\<rparr>)"

definition output_proto :: "'n sdk \<Rightarrow> bsv_Transaction \<Rightarrow> 'n \<Rightarrow> nat \<Rightarrow> TxOutput" where
  "output_proto A tx n i =
     (let script = out_Script (tx_Outputs tx ! i); (address, _) = node_DecodeOutputAddress (the_node A) script n in
      \<lparr>TxOutput_vout = of_nat i, TxOutput_value = out_Value (tx_Outputs tx ! i),
       TxOutput_script = script, TxOutput_address = address\<rparr>)"

definition transactionProto :: "'n sdk \<Rightarrow> bsv_Transaction option \<Rightarrow> 'n \<Rightarrow> Transaction option" where
  "transactionProto A mtx n =
     (case mtx of
        None \<Rightarrow> None
      | Some tx \<Rightarrow> Some
         \<lparr>Transaction_txid = tx_TxID tx, Transaction_raw_tx = tx_Bytes tx,
          Transaction_inputs = map (input_proto A tx n) [0..<length (tx_Inputs tx)],
          Transaction_outputs = map (output_proto A tx n) [0..<length (tx_Outputs tx)]\<rparr>)"

text \<open>The callbacks of \<^verbatim>\<open>registerNodeEvents\<close>, as the state changes they make when the SDK calls them.\<close>

definition onTransaction :: "'n sdk \<Rightarrow> bsv_Transaction option \<Rightarrow> 'n service \<Rightarrow> 'n service" where
  "onTransaction A tx s = s\<lparr>txBroker := publish (transactionProto A tx (s_node s)) (txBroker s)\<rparr>"

definition block_proto :: "bsv_Block \<Rightarrow> Block" where
  "block_proto b =
     (let outSpends = map (\<lambda>sp. \<lparr>BlockSpend_prev_txid = is_PrevTxID sp, BlockSpend_prev_vout = is_PrevVout sp,
            BlockSpend_spending_txid = is_SpendingTxID sp\<rparr>) (b_InputSpends b)
      in \<lparr>Block_hash = b_Hash b, Block_height = b_Height b, Block_txids = b_TxIDs b,
          Block_spends = outSpends, Block_disconnected = False\<rparr>)"

definition onBlock :: "bsv_Block \<Rightarrow> 'n service \<Rightarrow> 'n service" where
  "onBlock b s = s\<lparr>blockBroker := publish (block_proto b) (blockBroker s)\<rparr>"

definition onBlockDisconnected :: "string \<Rightarrow> int \<Rightarrow> 'n service \<Rightarrow> 'n service" where
  "onBlockDisconnected hash height s =
     s\<lparr>blockBroker := publish \<lparr>Block_hash = hash, Block_height = height, Block_txids = [],
        Block_spends = [], Block_disconnected = True\<rparr> (blockBroker s)\<rparr>"

definition onP2PTraffic :: "bsv_P2PTraffic \<Rightarrow> 'n service \<Rightarrow> 'n service" where
  "onP2PTraffic t s =
     s\<lparr>trafficBroker := publish \<lparr>P2PTraffic_peer = t_Peer t, P2PTraffic_direction = t_Direction t,
        P2PTraffic_command = t_Command t, P2PTraffic_payload_bytes = to_int32 (t_PayloadBytes t),
        P2PTraffic_summary = t_Summary t\<rparr> (trafficBroker s)\<rparr>"

definition onReject :: "bsv_Reject \<Rightarrow> 'n service \<Rightarrow> 'n service" where
  "onReject r s =
     s\<lparr>rejectBroker := publish \<lparr>Reject_peer = r_Peer r, Reject_command = r_Command r,
        Reject_code = ucast (r_Code r), Reject_code_name = r_CodeName r, Reject_reason = r_Reason r,
        Reject_hash = r_Hash r\<rparr> (rejectBroker s)\<rparr>"

definition registerNodeEvents :: "('n, unit) operation" where
  "registerNodeEvents = modifyS (\<lambda>s. s\<lparr>node_events := True\<rparr>)"

text \<open>The callbacks of \<^verbatim>\<open>registerWalletEvents\<close>, closed over the identifiers of their wallet.\<close>

definition onPayment :: "string \<Rightarrow> string \<Rightarrow> bsv_Payment \<Rightarrow> 'n service \<Rightarrow> 'n service" where
  "onPayment tenantID walletID p s =
     s\<lparr>paymentBroker := publish \<lparr>Payment_tenant_id = tenantID, Payment_wallet_id = walletID,
        Payment_txid = p_TxID p, Payment_amount = p_Amount p, Payment_address = p_Address p,
        Payment_vout = p_Vout p, Payment_script = p_Script p\<rparr> (paymentBroker s)\<rparr>"

definition onWalletTx :: "'n sdk \<Rightarrow> string \<Rightarrow> string \<Rightarrow> bsv_Transaction option \<Rightarrow> bsv_OwnedOutput list
    \<Rightarrow> bsv_SpentOutPoint list \<Rightarrow> 'n service \<Rightarrow> 'n service" where
  "onWalletTx A tenantID walletID tx owned spent s =
     (let ow = map (\<lambda>item. \<lparr>OwnedOutput_vout = oo_Vout item, OwnedOutput_value = oo_Value item,
                 OwnedOutput_script = oo_Script item, OwnedOutput_address = oo_Address item\<rparr>) owned;
          sp = map (\<lambda>item. \<lparr>SpentOutPoint_txid = so_TxID item, SpentOutPoint_vout = so_Vout item\<rparr>) spent
      in s\<lparr>walletTxBroker := publish
            \<lparr>WalletTransaction_tenant_id = tenantID, WalletTransaction_wallet_id = walletID,
             WalletTransaction_transaction = transactionProto A tx (s_node s),
             WalletTransaction_owned = ow, WalletTransaction_spent = sp\<rparr> (walletTxBroker s)\<rparr>)"

definition registerWalletEvents :: "tenantWallet \<Rightarrow> ('n, unit) operation" where
  "registerWalletEvents tw =
     modifyS (\<lambda>s. s\<lparr>wallet_events :=
        wallet_events s @ [(tw_w tw, TenantID (tw_meta tw), WalletID (tw_meta tw))]\<rparr>)"

section \<open>Wallets\<close>

definition attachWalletLocked :: "'n sdk \<Rightarrow> walletMeta \<Rightarrow> handle \<Rightarrow> ('n, tenantWallet) operation" where
  "attachWalletLocked A m w =
     bindE (getS (walletStorePath m)) (\<lambda>spath.
     bindE (internalE (sdkE (sqlite_Open (the_pkg A) spath))) (\<lambda>store.
     bindE (sdkU (wal_SetStore (the_wallet A) w store)) (\<lambda>_.
     bindE (getS (walletSnapshotPath m)) (\<lambda>path.
     bindE (sdkQ (pkg_ReadAddressSnapshot (the_pkg A) path)) (\<lambda>r.
     bindE (case r of
              Inr (nextExternal, nextChange, entries) \<Rightarrow>
                bindE (sdkU (wal_LoadAddressSnapshot (the_wallet A) w entries)) (\<lambda>_.
                sdkU (wal_SetNextIndices (the_wallet A) w nextExternal nextChange))
            | Inl err \<Rightarrow>
                if \<not> errors_is err ErrSnapshotNotFound
                then bindE (tryE (sdkE (sqlite_Close (the_pkg A) store))) (\<lambda>_. throwE (internal err))
                else returnE ()) (\<lambda>_.
     bindE (tryE (sdkE (wal_LoadFromStore (the_wallet A) w))) (\<lambda>l.
     case l of
       Inl err \<Rightarrow> bindE (tryE (sdkE (sqlite_Close (the_pkg A) store))) (\<lambda>_. throwE (internal err))
     | Inr _ \<Rightarrow>
         (let tw = \<lparr>tw_meta = m, tw_w = w, tw_store = store, tw_rescanning = False\<rparr> in
          bindE (modifyS (\<lambda>s. s\<lparr>s_wallets := AList.update (walletKey (TenantID m) (WalletID m)) tw (s_wallets s)\<rparr>)) (\<lambda>_.
          bindE (registerWalletEvents tw) (\<lambda>_.
          returnE tw))))))))))"

definition wallet :: "string \<Rightarrow> string \<Rightarrow> ('n, tenantWallet) operation" where
  "wallet tenantID walletID =
     bindE (liftR (validateTenantWallet tenantID walletID)) (\<lambda>_.
     bindE (getS (\<lambda>s. lookup_wallet s (walletKey tenantID walletID))) (\<lambda>r.
     case r of None \<Rightarrow> throwE (Status NotFound ''wallet not found'') | Some tw \<Rightarrow> returnE tw))"

text \<open>The part \<^verbatim>\<open>CreateWallet\<close> and \<^verbatim>\<open>RestoreWallet\<close> share: record the wallet, save, snapshot, issue tokens.\<close>

definition record_wallet :: "'n sdk \<Rightarrow> walletMeta \<Rightarrow> tenantWallet \<Rightarrow> ('n, AuthTokens option) operation" where
  "record_wallet A m tw =
     bindE (modifyS (\<lambda>s. s\<lparr>s_state := s_state s @ [m]\<rparr>)) (\<lambda>_.
     bindE (internalE saveStateLocked) (\<lambda>_.
     bindE (tryE (saveSnapshotLocked A tw)) (\<lambda>_.
     internalE (tokensForWallet m))))"

definition CreateWallet :: "'n sdk \<Rightarrow> TenantWallet \<Rightarrow> ('n, CreateWalletResponse) operation" where
  "CreateWallet A req =
     bindE (liftR (validateTenantWallet (tenant_id req) (wallet_id req))) (\<lambda>_.
     bindE (getS (\<lambda>s. lookup_wallet s (walletKey (tenant_id req) (wallet_id req)))) (\<lambda>found.
     if found \<noteq> None then throwE (Status AlreadyExists ''wallet exists'')
     else
       (let sdkName = sdkWalletName (tenant_id req) (wallet_id req) in
        bindE (internalE (sdkE (node_CreateWallet (the_node A) sdkName))) (\<lambda>(w, mnemonic).
        bindE (internalE (newWalletMeta (tenant_id req) (wallet_id req) sdkName mnemonic [])) (\<lambda>m.
        bindE (attachWalletLocked A m w) (\<lambda>tw.
        bindE (record_wallet A m tw) (\<lambda>tokens.
        bindE (sdkQ (walletProtoLocked A tw)) (\<lambda>view.
        returnE \<lparr>CreateWalletResp_wallet = Some view, CreateWalletResp_mnemonic = mnemonic,
          CreateWalletResp_tokens = tokens\<rparr>))))))))"

definition RestoreWallet :: "'n sdk \<Rightarrow> RestoreWalletRequest \<Rightarrow> ('n, WalletResponse) operation" where
  "RestoreWallet A req =
     bindE (liftR (validateTenantWallet (tenant_id req) (wallet_id req))) (\<lambda>_.
     if RestoreWalletReq_mnemonic req = [] then throwE (invalid ''mnemonic required'')
     else
       bindE (getS (\<lambda>s. lookup_wallet s (walletKey (tenant_id req) (wallet_id req)))) (\<lambda>found.
       if found \<noteq> None then throwE (Status AlreadyExists ''wallet exists'')
       else
         bindE (internalE (newWalletMeta (tenant_id req) (wallet_id req)
             (sdkWalletName (tenant_id req) (wallet_id req))
             (RestoreWalletReq_mnemonic req) (RestoreWalletReq_passphrase req))) (\<lambda>m.
         bindE (internalE (sdkE (node_RestoreWallet (the_node A) (SDKName m)
             (RestoreWalletReq_mnemonic req) (RestoreWalletReq_passphrase req)))) (\<lambda>w.
         bindE (attachWalletLocked A m w) (\<lambda>tw.
         bindE (record_wallet A m tw) (\<lambda>tokens.
         bindE (sdkQ (walletProtoLocked A tw)) (\<lambda>view.
         returnE \<lparr>WalletResp_wallet = Some view, WalletResp_tokens = tokens\<rparr>)))))))"

definition GetWallet :: "'n sdk \<Rightarrow> TenantWallet \<Rightarrow> ('n, WalletResponse) operation" where
  "GetWallet A req =
     bindE (wallet (tenant_id req) (wallet_id req)) (\<lambda>tw.
     bindE (walletProto A tw) (\<lambda>view.
     returnE \<lparr>WalletResp_wallet = Some view, WalletResp_tokens = None\<rparr>))"

definition tenant_keys :: "string \<Rightarrow> 'n service \<Rightarrow> string list" where
  "tenant_keys tenant s =
     sort (map fst (filter (\<lambda>(key, tw). TenantID (tw_meta tw) = tenant) (s_wallets s)))"

definition ListWallets :: "'n sdk \<Rightarrow> ListWalletsRequest \<Rightarrow> ('n, ListWalletsResponse) operation" where
  "ListWallets A req =
     bindE (liftR (validateTenant (ListWalletsReq_tenant_id req))) (\<lambda>_.
     bindE (getS (tenant_keys (ListWalletsReq_tenant_id req))) (\<lambda>keys.
     bindE (getS (\<lambda>s. map (\<lambda>key. walletProtoLocked A (the (lookup_wallet s key)) (s_node s)) keys)) (\<lambda>views.
     returnE \<lparr>ListWalletsResp_wallets = views\<rparr>)))"

section \<open>Start and stop\<close>

definition has_plaintext :: "walletMeta \<Rightarrow> bool" where
  "has_plaintext m = (Mnemonic m \<noteq> [] \<or> Passphrase m \<noteq> [])"

definition same_wallet :: "walletMeta \<Rightarrow> walletMeta \<Rightarrow> bool" where
  "same_wallet m m' = (TenantID m = TenantID m' \<and> WalletID m = WalletID m')"

definition restoreLoadedWallet :: "'n sdk \<Rightarrow> walletMeta \<Rightarrow> ('n, tenantWallet) operation" where
  "restoreLoadedWallet A m =
     bindE (getS (\<lambda>s. DataKey (s_opts s))) (\<lambda>key.
     bindE (liftR (openWalletSecrets key m)) (\<lambda>(mnemonic, passphrase).
     bindE (sdkE (node_RestoreWallet (the_node A) (SDKName m) mnemonic passphrase)) (\<lambda>w.
     bindE (if has_plaintext m
            then bindE (newWalletMeta (TenantID m) (WalletID m) (SDKName m) mnemonic passphrase) (\<lambda>migrated.
                 bindE (modifyS (\<lambda>s. s\<lparr>s_state := map (\<lambda>x. if same_wallet x migrated then migrated else x) (s_state s)\<rparr>)) (\<lambda>_.
                 returnE migrated))
            else returnE m) (\<lambda>m'.
     attachWalletLocked A m' w))))"

text \<open>
  The loop of \<^verbatim>\<open>NewWithOptions\<close> over the indices of the state. The slice is updated in place while
  the loop runs over it, so each entry is read when its turn comes.
\<close>

fun load_wallets :: "'n sdk \<Rightarrow> nat list \<Rightarrow> bool \<Rightarrow> ('n, bool) operation" where
  "load_wallets A [] migrated = returnE migrated"
| "load_wallets A (i # is) migrated =
     bindE (getS (\<lambda>s. s_state s ! i)) (\<lambda>m.
     bindE (wrapE (''load wallet '' @ TenantID m @ ''/'' @ WalletID m) (restoreLoadedWallet A m)) (\<lambda>_.
     load_wallets A is (migrated \<or> has_plaintext m)))"

text \<open>The service object as the constructor allocates it on a host with an SDK node.\<close>

definition fresh_service :: "'n \<Rightarrow> string \<Rightarrow> Options \<Rightarrow> host \<Rightarrow> 'n service" where
  "fresh_service n dir resolved h = host.extend h
     (service.fields n dir resolved [] [] newBroker newBroker newBroker newBroker newBroker newBroker False [])"

text \<open>The body of \<^verbatim>\<open>NewWithOptions\<close> once the options are resolved.\<close>

definition start_service :: "'n sdk \<Rightarrow> ('n, unit) operation" where
  "start_service A =
     bindE (getS s_opts) (\<lambda>resolved.
     bindE (if BroadcastFanout resolved > 0
            then sdkU (node_SetBroadcastFanout (the_node A) (BroadcastFanout resolved)) else returnE ()) (\<lambda>_.
     bindE (if DisablePendingTxTracking resolved
            then sdkU (node_SetPendingTxTracking (the_node A) False) else returnE ()) (\<lambda>_.
     bindE (getS walletDir) (\<lambda>dir.
     bindE (os_MkdirAll dir) (\<lambda>_.
     bindE loadState (\<lambda>_.
     bindE registerNodeEvents (\<lambda>_.
     bindE (getS (\<lambda>s. [0..<length (s_state s)])) (\<lambda>is.
     bindE (load_wallets A is False) (\<lambda>migrated.
     if migrated then saveStateLocked else returnE ())))))))))"

definition NewWithOptions :: "'n sdk \<Rightarrow> 'n \<Rightarrow> string \<Rightarrow> Options \<Rightarrow> host \<Rightarrow> unit result \<times> 'n service" where
  "NewWithOptions A n dir options h =
     (case withDefaults options dir h of
        (Inl e, h') \<Rightarrow> (Inl e, fresh_service n dir options h')
      | (Inr resolved, h') \<Rightarrow> start_service A (fresh_service n dir resolved h'))"

definition New :: "'n sdk \<Rightarrow> 'n \<Rightarrow> string \<Rightarrow> host \<Rightarrow> unit result \<times> 'n service" where
  "New A n dir h = NewWithOptions A n dir defaultOptions h"

fun close_stores :: "'n sdk \<Rightarrow> tenantWallet list \<Rightarrow> ('n, unit) operation" where
  "close_stores A [] = returnE ()"
| "close_stores A (tw # tws) =
     bindE (tryE (sdkE (sqlite_Close (the_pkg A) (tw_store tw)))) (\<lambda>_. close_stores A tws)"

definition Close :: "'n sdk \<Rightarrow> ('n, unit) operation" where
  "Close A = bindE (getS (\<lambda>s. map snd (s_wallets s))) (\<lambda>tws. close_stores A tws)"

end
