(* ===== verification/Registry_Inv.thy ===== *)
theory Registry_Inv
  imports Registry
begin

text \<open>
  What the operations of the registry do, branch by branch, and the invariant of the service.
\<close>

section \<open>Frames\<close>

text \<open>Actions that change nothing of the service but the SDK's own state.\<close>

definition node_only :: "'n service \<Rightarrow> 'n service \<Rightarrow> bool" where
  "node_only s s' \<longleftrightarrow> s' = s\<lparr>s_node := s_node s'\<rparr>"

interpretation node_only: frame_relation node_only
proof unfold_locales
  fix s t u :: "'n service"
  show "node_only s s" by (simp add: node_only_def)
  assume "node_only s t" and "node_only t u"
  then have "u = s\<lparr>s_node := s_node t\<rparr>\<lparr>s_node := s_node u\<rparr>"
    unfolding node_only_def by metis
  then show "node_only s u" by (simp add: node_only_def)
qed

lemma node_only_sdkE: "keeps node_only (sdkE m)"
  by (simp add: keeps_def node_only_def sdkE_def split_beta)

lemma node_only_sdkQ: "keeps node_only (sdkQ f)"
  by (simp add: keeps_def node_only_def sdkQ_def)

lemma node_only_sdkU: "keeps node_only (sdkU f)"
  by (simp add: keeps_def node_only_def sdkU_def)

lemma node_only_sdkN: "keeps node_only (sdkN f)"
  by (simp add: keeps_def node_only_def sdkN_def split_beta)

lemma node_only_internalE: "keeps node_only m \<Longrightarrow> keeps node_only (internalE m)"
  by (simp add: keeps_def internalE_def split_beta split: sum.split)

lemmas node_only_intros = node_only.keeps_bindE node_only.keeps_returnE node_only.keeps_throwE
  node_only.keeps_liftR node_only.keeps_getS node_only.keeps_tryE node_only_sdkE node_only_sdkQ
  node_only_sdkU node_only_sdkN node_only_internalE

lemma node_only_saveSnapshotLocked: "keeps node_only (saveSnapshotLocked A tw)"
  unfolding saveSnapshotLocked_def by (auto intro!: node_only_intros)

lemma node_only_saveSnapshot: "keeps node_only (saveSnapshot A tw)"
  unfolding saveSnapshot_def by (intro node_only_intros node_only_saveSnapshotLocked)

lemma node_only_wallet: "keeps node_only (wallet t w)"
  unfolding wallet_def by (auto intro!: node_only_intros split: option.splits)

lemma node_only_walletProto: "keeps node_only (walletProto A tw)"
  unfolding walletProto_def by (intro node_only_intros)

lemma node_only_GetWallet: "keeps node_only (GetWallet A req)"
  unfolding GetWallet_def by (intro node_only_intros node_only_wallet node_only_walletProto)

lemma node_only_ListWallets: "keeps node_only (ListWallets A req)"
  unfolding ListWallets_def by (intro node_only_intros)

lemma node_onlyE:
  assumes "keeps node_only m" and "m s = (r, s')"
  obtains n where "s' = s\<lparr>s_node := n\<rparr>"
  using assms unfolding keeps_def node_only_def by (metis snd_conv)

lemma internalE_success [simp]: "internalE m s = (Inr x, s') \<longleftrightarrow> m s = (Inr x, s')"
  by (auto simp: internalE_def split: prod.splits sum.splits)

lemma internalE_failure: "internalE m s = (Inl e, s') \<longleftrightarrow> (\<exists>e'. m s = (Inl e', s') \<and> e = internal e')"
  by (auto simp: internalE_def split: prod.splits sum.splits)

lemma lookup_wallet_simps [simp]:
  "lookup_wallet (s\<lparr>s_node := n\<rparr>) = lookup_wallet s"
  "lookup_wallet (s\<lparr>s_state := ms\<rparr>) = lookup_wallet s"
  "lookup_wallet (s\<lparr>files := f\<rparr>) = lookup_wallet s"
  "lookup_wallet (s\<lparr>entropy := e\<rparr>) = lookup_wallet s"
  "lookup_wallet (s\<lparr>wallet_events := ev\<rparr>) = lookup_wallet s"
  "lookup_wallet (s\<lparr>s_wallets := AList.update j tw ws\<rparr>) k =
     (if k = j then Some tw else map_of ws k)"
  by (simp_all add: lookup_wallet_def update_conv' fun_eq_iff)

section \<open>Lookup\<close>

lemma wallet_success:
  "wallet t w s = (Inr tw, s') \<longleftrightarrow> idRE t \<and> idRE w \<and> lookup_wallet s (walletKey t w) = Some tw \<and> s' = s"
  by (auto simp: wallet_def run_simps validateTenantWallet_ok split: option.splits)

lemma wallet_unknown:
  assumes "idRE t" and "idRE w" and "lookup_wallet s (walletKey t w) = None"
  shows "wallet t w s = (Inl (Status NotFound ''wallet not found''), s)"
proof -
  have "validateTenantWallet t w = Inr ()"
    using assms by (simp add: validateTenantWallet_ok)
  with assms show ?thesis by (simp add: wallet_def act_simps)
qed

section \<open>Saving the state\<close>

lemma save_cases:
  assumes "saveStateLocked s = (r, s')"
  shows "\<exists>f. s' = s\<lparr>files := f\<rparr>
    \<and> (r = Inr () \<longrightarrow> lookup_file s' (statePath s) = Some (json_MarshalIndent (state_json (s_state s))))
    \<and> (r \<noteq> Inr () \<longrightarrow> lookup_file s' (statePath s) = lookup_file s (statePath s))
    \<and> (\<forall>q. q \<noteq> statePath s \<longrightarrow> q \<noteq> statePath s @ ''.tmp'' \<longrightarrow> lookup_file s' q = lookup_file s q)"
  using assms
  by (auto simp: saveStateLocked_def act_simps Let_def os_WriteFile_def os_Rename_def put_file_def
      lookup_file_def update_conv' delete_conv' split: option.splits)

lemma save_outcome:
  "\<exists>r f. saveStateLocked s = (r, s\<lparr>files := f\<rparr>)"
  using save_cases [of s] by (metis surj_pair)

section \<open>Sealing a wallet record\<close>

lemma RawURL_ascii: "ascii (RawURL_EncodeToString bs)"
  using rawurl.enc_printable [of _ bs] by (auto simp: ascii_def list_all_iff byte_val_def)

lemma Hex_ascii: "ascii (Hex_EncodeToString bs)"
  using hex.enc_printable [of _ bs] by (auto simp: ascii_def list_all_iff byte_val_def)

lemma sealString_ascii: "sealString k p h = (Inr c, h') \<Longrightarrow> ascii c"
  using RawURL_ascii by (auto simp: sealString_success sealedPrefix_def byte_val_def split: if_splits)

lemma sdkWalletName_ascii: "ascii (sdkWalletName t w)"
  using Hex_ascii by (simp add: sdkWalletName_def Let_def byte_val_def)

lemma newWalletMeta_success:
  assumes "newWalletMeta t w n mn pp s = (Inr m, s')"
  shows "\<exists>e. s' = s\<lparr>entropy := e\<rparr> \<and> TenantID m = t \<and> WalletID m = w \<and> SDKName m = n
    \<and> (ascii t \<longrightarrow> ascii w \<longrightarrow> ascii n \<longrightarrow> wf_meta m) \<and> \<not> has_plaintext m \<and> openWalletSecrets (DataKey (s_opts s)) m = Inr (mn, pp)"
proof -
  obtain c1 s1 c2 where
    c1: "sealString (DataKey (s_opts s)) mn s = (Inr c1, s1)" and
    c2: "sealString (DataKey (s_opts s)) pp s1 = (Inr c2, s')" and
    m: "m = \<lparr>TenantID = t, WalletID = w, SDKName = n, Mnemonic = [], Passphrase = [],
       MnemonicCiphertext = c1, PassphraseCiphertext = c2\<rparr>"
    using assms by (auto simp: newWalletMeta_def run_simps)
  have "\<exists>e. s1 = s\<lparr>entropy := e\<rparr>"
    using c1 by (auto simp: sealString_success split: if_splits intro: exI [of _ "entropy s"])
  moreover have "\<exists>e. s' = s1\<lparr>entropy := e\<rparr>"
    using c2 by (auto simp: sealString_success split: if_splits intro: exI [of _ "entropy s1"])
  ultimately show ?thesis
    using open_of_seal [OF c1] open_of_seal [OF c2] sealString_ascii [OF c1] sealString_ascii [OF c2]
    by (auto simp: m has_plaintext_def openWalletSecrets_def wf_meta_def)
qed

lemma sealString_failure_state:
  "sealString k p h = (Inl e, h') \<Longrightarrow> h' = h"
  by (auto simp: sealString_def act_simps aeadForKey_def rand_Read_def Let_def split: if_splits)

lemma newWalletMeta_failure:
  assumes "newWalletMeta t w n mn pp s = (Inl err, s')"
  shows "\<exists>e. s' = s\<lparr>entropy := e\<rparr>"
proof (cases "sealString (DataKey (s_opts s)) mn s")
  case (Pair r s1)
  show ?thesis
  proof (cases r)
    case (Inl e)
    with Pair assms have "s' = s"
      by (auto simp: newWalletMeta_def act_simps dest: sealString_failure_state)
    then show ?thesis by (intro exI [of _ "entropy s"]) simp
  next
    case (Inr c1)
    have "\<exists>e. s1 = s\<lparr>entropy := e\<rparr>"
      using Pair Inr by (auto simp: sealString_success split: if_splits intro: exI [of _ "entropy s"])
    moreover have "s' = s1"
      using Pair Inr assms
      by (auto simp: newWalletMeta_def act_simps split: prod.splits sum.splits dest: sealString_failure_state)
    ultimately show ?thesis by simp
  qed
qed

section \<open>Attaching a wallet\<close>

lemma attach_success:
  assumes "attachWalletLocked A m w s = (Inr tw, s')"
  shows "\<exists>n store. tw = \<lparr>tw_meta = m, tw_w = w, tw_store = store, tw_rescanning = False\<rparr>
    \<and> s' = s\<lparr>s_node := n, s_wallets := AList.update (walletKey (TenantID m) (WalletID m)) tw (s_wallets s),
            wallet_events := wallet_events s @ [(w, TenantID m, WalletID m)]\<rparr>"
  using assms
  by (auto simp: attachWalletLocked_def act_simps Let_def registerWalletEvents_def internalE_def
      sdkE_def sdkQ_def sdkU_def split: sum.splits prod.splits if_splits)

lemma attach_failure:
  assumes "attachWalletLocked A m w s = (Inl e, s')"
  shows "\<exists>n. s' = s\<lparr>s_node := n\<rparr>" and "\<exists>e'. e = internal e'"
  using assms
  by (auto simp: attachWalletLocked_def act_simps Let_def registerWalletEvents_def internalE_def
      sdkE_def sdkQ_def sdkU_def split: sum.splits prod.splits if_splits)

section \<open>Issuing tokens\<close>

lemma randomID_outcome: "\<exists>i e. randomID h = (Inr i, h\<lparr>entropy := e\<rparr>)"
  by (auto simp: randomID_def act_simps rand_Read_def intro: exI [of _ "entropy h"])

lemma issueTokens_outcome: "\<exists>t e. issueTokens o' tid wid h = (Inr t, h\<lparr>entropy := e\<rparr>)
   \<and> AuthTokens_tenant_id t = tid \<and> AuthTokens_wallet_id t = wid"
proof -
  obtain i e where 1: "randomID h = (Inr i, h\<lparr>entropy := e\<rparr>)"
    using randomID_outcome by blast
  obtain j e' where 2: "randomID (h\<lparr>entropy := e\<rparr>) = (Inr j, h\<lparr>entropy := e\<rparr>\<lparr>entropy := e'\<rparr>)"
    using randomID_outcome by blast
  show ?thesis
    by (simp add: issueTokens_def act_simps time_Now_def Let_def 1 2) (rule exI [of _ e'], simp)
qed

lemma tokensForWallet_outcome:
  "\<exists>t e. tokensForWallet m s = (Inr t, s\<lparr>entropy := e\<rparr>)
     \<and> (t = None \<longleftrightarrow> \<not> AuthEnabled (s_opts s))
     \<and> (\<forall>x. t = Some x \<longrightarrow> AuthTokens_tenant_id x = TenantID m \<and> AuthTokens_wallet_id x = WalletID m)"
proof (cases "AuthEnabled (s_opts s)")
  case True
  obtain t e where "issueTokens (s_opts s) (TenantID m) (WalletID m) s = (Inr t, s\<lparr>entropy := e\<rparr>)"
    "AuthTokens_tenant_id t = TenantID m" "AuthTokens_wallet_id t = WalletID m"
    using issueTokens_outcome by blast
  with True show ?thesis by (simp add: tokensForWallet_def act_simps) blast
next
  case False
  then show ?thesis
    by (intro exI [of _ None] exI [of _ "entropy s"]) (simp add: tokensForWallet_def act_simps)
qed

section \<open>Adding a wallet\<close>

text \<open>Nothing registered: only the SDK's state and the random source have moved.\<close>

definition quiet :: "'n service \<Rightarrow> 'n service \<Rightarrow> bool" where
  "quiet s s' \<longleftrightarrow> (\<exists>n e. s' = s\<lparr>s_node := n, entropy := e\<rparr>)"

text \<open>One wallet registered, with sealed secrets, in memory and in the list that is saved.\<close>

definition enrolled :: "string \<Rightarrow> string \<Rightarrow> string \<times> string \<Rightarrow> 'n service \<Rightarrow> 'n service \<Rightarrow> bool" where
  "enrolled t w secrets s s' \<longleftrightarrow> (\<exists>m h store n e f.
     TenantID m = t \<and> WalletID m = w \<and> SDKName m = sdkWalletName t w \<and> \<not> has_plaintext m \<and> (idRE t \<longrightarrow> idRE w \<longrightarrow> wf_meta m)
     \<and> openWalletSecrets (DataKey (s_opts s)) m = Inr secrets
     \<and> s' = s\<lparr>s_node := n, entropy := e, files := f, s_state := s_state s @ [m],
          s_wallets := AList.update (walletKey t w)
            \<lparr>tw_meta = m, tw_w = h, tw_store = store, tw_rescanning = False\<rparr> (s_wallets s),
          wallet_events := wallet_events s @ [(h, t, w)]\<rparr>)"

definition saved :: "'n service \<Rightarrow> bool" where
  "saved s \<longleftrightarrow> lookup_file s (statePath s) = Some (json_MarshalIndent (state_json (s_state s)))"

lemma record_success:
  assumes "record_wallet A m tw s = (Inr tok, s')"
  shows "\<exists>n e f. s' = s\<lparr>s_node := n, entropy := e, files := f, s_state := s_state s @ [m]\<rparr>"
    and "saved s'"
    and "\<forall>x. tok = Some x \<longrightarrow> AuthTokens_tenant_id x = TenantID m \<and> AuthTokens_wallet_id x = WalletID m"
    and "tok = None \<longleftrightarrow> \<not> AuthEnabled (s_opts s)"
proof -
  let ?s0 = "s\<lparr>s_state := s_state s @ [m]\<rparr>"
  obtain s1 r s2 where 1: "saveStateLocked ?s0 = (Inr (), s1)"
    and 2: "tryE (saveSnapshotLocked A tw) s1 = (Inr r, s2)"
    and 3: "tokensForWallet m s2 = (Inr tok, s')"
    using assms by (auto simp: record_wallet_def run_simps)
  obtain n where s2: "s2 = s1\<lparr>s_node := n\<rparr>"
    using node_onlyE [OF node_only.keeps_tryE [OF node_only_saveSnapshotLocked] 2] by blast
  obtain f where s1: "s1 = ?s0\<lparr>files := f\<rparr>"
    and f: "lookup_file s1 (statePath ?s0) = Some (json_MarshalIndent (state_json (s_state ?s0)))"
    using save_cases [OF 1] by blast
  obtain e where s': "s' = s2\<lparr>entropy := e\<rparr>"
    and "tok = None \<longleftrightarrow> \<not> AuthEnabled (s_opts s)"
    and "\<forall>x. tok = Some x \<longrightarrow> AuthTokens_tenant_id x = TenantID m \<and> AuthTokens_wallet_id x = WalletID m"
    using tokensForWallet_outcome [of m s2] 3 s1 s2 by auto
  then show "tok = None \<longleftrightarrow> \<not> AuthEnabled (s_opts s)"
    and "\<forall>x. tok = Some x \<longrightarrow> AuthTokens_tenant_id x = TenantID m \<and> AuthTokens_wallet_id x = WalletID m"
    by simp_all
  show "\<exists>n e f. s' = s\<lparr>s_node := n, entropy := e, files := f, s_state := s_state s @ [m]\<rparr>"
    unfolding s' s2 s1 by (intro exI [of _ n] exI [of _ e] exI [of _ f]) simp
  show "saved s'"
    using f unfolding s' s2 s1 by (simp add: saved_def statePath_def lookup_file_def)
qed

lemma record_failure:
  assumes "record_wallet A m tw s = (Inl err, s')"
  shows "\<exists>f. s' = s\<lparr>files := f, s_state := s_state s @ [m]\<rparr>"
    and "lookup_file s' (statePath s) = lookup_file s (statePath s)"
    and "\<exists>e'. err = internal e'"
proof -
  let ?s0 = "s\<lparr>s_state := s_state s @ [m]\<rparr>"
  obtain r s1 where 1: "saveStateLocked ?s0 = (r, s1)"
    by (cases "saveStateLocked ?s0")
  obtain f where s1: "s1 = ?s0\<lparr>files := f\<rparr>"
    and f: "r \<noteq> Inr () \<longrightarrow> lookup_file s1 (statePath ?s0) = lookup_file ?s0 (statePath ?s0)"
    using save_cases [OF 1] by blast
  have "\<exists>e. r = Inl e \<and> err = internal e \<and> s' = s1"
  proof (cases r)
    case (Inl e)
    with 1 assms show ?thesis
      by (auto simp: record_wallet_def act_simps internalE_def)
  next
    case (Inr u)
    obtain r' s2 where 2: "saveSnapshotLocked A tw s1 = (r', s2)"
      by (cases "saveSnapshotLocked A tw s1")
    obtain t e where "tokensForWallet m s2 = (Inr t, s2\<lparr>entropy := e\<rparr>)"
      using tokensForWallet_outcome by blast
    with 1 2 Inr assms show ?thesis
      by (simp add: record_wallet_def act_simps internalE_def)
  qed
  then show "\<exists>e'. err = internal e'" and "\<exists>f. s' = s\<lparr>files := f, s_state := s_state s @ [m]\<rparr>"
    and "lookup_file s' (statePath s) = lookup_file s (statePath s)"
    using f unfolding s1 by (auto simp: statePath_def lookup_file_def intro!: exI [of _ f])
qed

text \<open>The common tail: attach the wallet, then record it.\<close>

lemma attach_record:
  assumes attach: "attachWalletLocked A m h s = (Inr tw, s1)" and rec: "record_wallet A m tw s1 = (r, s')"
    and m: "TenantID m = t" "WalletID m = w" "SDKName m = sdkWalletName t w" "\<not> has_plaintext m"
      "idRE t \<longrightarrow> idRE w \<longrightarrow> wf_meta m" "openWalletSecrets (DataKey (s_opts s)) m = Inr secrets"
  shows "enrolled t w secrets s s'"
    and "case r of Inl e \<Rightarrow> lookup_file s' (statePath s) = lookup_file s (statePath s) | Inr _ \<Rightarrow> saved s'"
proof -
  obtain n store where tw: "tw = \<lparr>tw_meta = m, tw_w = h, tw_store = store, tw_rescanning = False\<rparr>"
    and s1: "s1 = s\<lparr>s_node := n, s_wallets := AList.update (walletKey (TenantID m) (WalletID m)) tw (s_wallets s),
            wallet_events := wallet_events s @ [(h, TenantID m, WalletID m)]\<rparr>"
    using attach_success [OF attach] by blast
  have "\<exists>n e f. s' = s1\<lparr>s_node := n, entropy := e, files := f, s_state := s_state s1 @ [m]\<rparr>"
  proof (cases r)
    case (Inl e)
    with record_failure(1) rec obtain f where "s' = s1\<lparr>files := f, s_state := s_state s1 @ [m]\<rparr>" by blast
    then show ?thesis
      by (intro exI [of _ "s_node s1"] exI [of _ "entropy s1"] exI [of _ f]) simp
  qed (use record_success(1) rec in blast)
  then obtain n' e f where s': "s' = s1\<lparr>s_node := n', entropy := e, files := f, s_state := s_state s1 @ [m]\<rparr>"
    by blast
  show "enrolled t w secrets s s'"
    unfolding enrolled_def
    by (rule exI [of _ m], rule exI [of _ h], rule exI [of _ store], rule exI [of _ n'], rule exI [of _ e],
        rule exI [of _ f]) (use m in \<open>simp add: s' s1 tw\<close>)
  show "case r of Inl e \<Rightarrow> lookup_file s' (statePath s) = lookup_file s (statePath s) | Inr _ \<Rightarrow> saved s'"
  proof (cases r)
    case (Inl e)
    with record_failure(2) rec have "lookup_file s' (statePath s1) = lookup_file s1 (statePath s1)" by blast
    with Inl show ?thesis by (simp add: s1 statePath_def lookup_file_def)
  qed (use record_success(2) rec in auto)
qed

section \<open>The invariant\<close>

text \<open>
  The data key has its 32 bytes; the map of wallets holds each wallet under its own key, and its
  record is in the list that is saved; every saved record is sealed, opens under the data key and has
  a live wallet; every live wallet has its event callbacks registered under its own identifiers.
\<close>

definition meta_key :: "walletMeta \<Rightarrow> string" where
  "meta_key m = walletKey (TenantID m) (WalletID m)"

definition sealed_meta :: "bytes \<Rightarrow> walletMeta \<Rightarrow> bool" where
  "sealed_meta key m \<longleftrightarrow> \<not> has_plaintext m \<and> (\<exists>p. openWalletSecrets key m = Inr p)"

definition live_inv :: "'n service \<Rightarrow> bool" where
  "live_inv s \<longleftrightarrow> (\<forall>k tw. lookup_wallet s k = Some tw \<longrightarrow>
      k = meta_key (tw_meta tw) \<and> tw_meta tw \<in> set (s_state s)
      \<and> (tw_w tw, TenantID (tw_meta tw), WalletID (tw_meta tw)) \<in> set (wallet_events s))"

definition registry_inv :: "'n service \<Rightarrow> bool" where
  "registry_inv s \<longleftrightarrow> length (DataKey (s_opts s)) = 32 \<and> distinct (map fst (s_wallets s)) \<and> live_inv s
     \<and> (\<forall>m \<in> set (s_state s). sealed_meta (DataKey (s_opts s)) m \<and> lookup_wallet s (meta_key m) \<noteq> None)"

text \<open>The list that is saved names each wallet once.\<close>

definition unique_state :: "'n service \<Rightarrow> bool" where
  "unique_state s \<longleftrightarrow> distinct (map meta_key (s_state s))"

text \<open>
  What the registry promises, as one map: the secrets of each wallet. \<open>persisted\<close> is the list the state
  file holds.
\<close>

definition secrets_view :: "bytes \<Rightarrow> (string \<Rightarrow> tenantWallet option) \<Rightarrow> string \<times> string \<Rightarrow> (string \<times> string) option" where
  "secrets_view key look = (\<lambda>(t, w). if idRE t \<and> idRE w then
     (case look (walletKey t w) of
        None \<Rightarrow> None
      | Some tw \<Rightarrow> (case openWalletSecrets key (tw_meta tw) of Inl _ \<Rightarrow> None | Inr p \<Rightarrow> Some p))
     else None)"

definition vault :: "'n service \<Rightarrow> string \<times> string \<Rightarrow> (string \<times> string) option" where
  "vault s = secrets_view (DataKey (s_opts s)) (lookup_wallet s)"

definition persisted :: "'n service \<Rightarrow> walletMeta list" where
  "persisted s =
     (case lookup_file s (statePath s) of
        None \<Rightarrow> []
      | Some raw \<Rightarrow> (case unmarshal_state raw of Inl _ \<Rightarrow> [] | Inr ms \<Rightarrow> ms))"

lemma registry_inv_updates [simp]:
  "registry_inv (s\<lparr>s_node := n\<rparr>) = registry_inv s" "registry_inv (s\<lparr>entropy := e\<rparr>) = registry_inv s"
  "registry_inv (s\<lparr>files := f\<rparr>) = registry_inv s"
  by (simp_all add: registry_inv_def live_inv_def)

lemma vault_updates [simp]:
  "vault (s\<lparr>s_node := n\<rparr>) = vault s" "vault (s\<lparr>entropy := e\<rparr>) = vault s" "vault (s\<lparr>files := f\<rparr>) = vault s"
  by (simp_all add: vault_def)

lemma unique_updates [simp]:
  "unique_state (s\<lparr>s_node := n\<rparr>) = unique_state s" "unique_state (s\<lparr>entropy := e\<rparr>) = unique_state s"
  "unique_state (s\<lparr>files := f\<rparr>) = unique_state s"
  by (simp_all add: unique_state_def)

lemma quiet_keeps:
  assumes "quiet s s'"
  shows "registry_inv s' = registry_inv s" and "vault s' = vault s" and "lookup_wallet s' = lookup_wallet s"
    and "s_state s' = s_state s" and "unique_state s' = unique_state s" and "lookup_file s' = lookup_file s"
    and "wallet_events s' = wallet_events s"
  using assms by (auto simp: quiet_def lookup_wallet_def lookup_file_def intro!: ext)

lemma enrolled_lookup:
  assumes "enrolled t w secrets s s'"
  shows "\<exists>tw. TenantID (tw_meta tw) = t \<and> WalletID (tw_meta tw) = w \<and> \<not> has_plaintext (tw_meta tw)
    \<and> (idRE t \<longrightarrow> idRE w \<longrightarrow> wf_meta (tw_meta tw))
    \<and> openWalletSecrets (DataKey (s_opts s)) (tw_meta tw) = Inr secrets
    \<and> lookup_wallet s' = (lookup_wallet s)(walletKey t w \<mapsto> tw) \<and> s_opts s' = s_opts s
    \<and> s_state s' = s_state s @ [tw_meta tw]
    \<and> wallet_events s' = wallet_events s @ [(tw_w tw, t, w)]
    \<and> s_wallets s' = AList.update (walletKey t w) tw (s_wallets s)"
  using assms unfolding enrolled_def
  by (elim exE conjE, intro exI [of _ "\<lparr>tw_meta = _, tw_w = _, tw_store = _, tw_rescanning = False\<rparr>"])
    (auto simp: lookup_wallet_def update_conv' intro!: ext)

lemma enrolled_inv:
  assumes "enrolled t w secrets s s'" and inv: "registry_inv s"
  shows "registry_inv s'"
proof -
  obtain tw where tw: "TenantID (tw_meta tw) = t" "WalletID (tw_meta tw) = w" "\<not> has_plaintext (tw_meta tw)"
    "openWalletSecrets (DataKey (s_opts s)) (tw_meta tw) = Inr secrets"
    and s': "lookup_wallet s' = (lookup_wallet s)(walletKey t w \<mapsto> tw)" "s_opts s' = s_opts s"
      "s_state s' = s_state s @ [tw_meta tw]" "wallet_events s' = wallet_events s @ [(tw_w tw, t, w)]"
      "s_wallets s' = AList.update (walletKey t w) tw (s_wallets s)"
    using enrolled_lookup [OF assms(1)] by blast
  have "live_inv s'"
    using inv tw unfolding registry_inv_def live_inv_def s' by (auto simp: meta_key_def)
  moreover have "distinct (map fst (s_wallets s'))"
    using inv by (simp add: s' registry_inv_def distinct_update)
  ultimately show ?thesis
    using inv tw unfolding registry_inv_def s' by (auto simp: sealed_meta_def meta_key_def)
qed

lemma enrolled_unique:
  assumes "enrolled t w secrets s s'" and "registry_inv s" and "lookup_wallet s (walletKey t w) = None"
    and "unique_state s"
  shows "unique_state s'"
proof -
  obtain tw :: tenantWallet where tw: "TenantID (tw_meta tw) = t" "WalletID (tw_meta tw) = w"
    and s': "s_state s' = s_state s @ [tw_meta tw]"
    using enrolled_lookup [OF assms(1)] by metis
  have "walletKey t w \<notin> meta_key ` set (s_state s)"
    using assms(2,3) by (auto simp: registry_inv_def)
  with tw assms(4) show ?thesis
    by (simp add: unique_state_def s' meta_key_def)
qed

lemma enrolled_wf:
  assumes "enrolled t w secrets s s'" and "idRE t" and "idRE w" and "list_all wf_meta (s_state s)"
  shows "list_all wf_meta (s_state s')"
  using assms unfolding enrolled_def by (elim exE conjE) simp

lemma enrolled_vault:
  assumes "enrolled t w secrets s s'" and "idRE t" and "idRE w"
  shows "vault s' = (vault s)((t, w) \<mapsto> secrets)"
proof
  fix x :: "string \<times> string"
  obtain t' w' where x: "x = (t', w')" by (cases x)
  obtain tw where "openWalletSecrets (DataKey (s_opts s)) (tw_meta tw) = Inr secrets"
    "lookup_wallet s' = (lookup_wallet s)(walletKey t w \<mapsto> tw)" "s_opts s' = s_opts s"
    using enrolled_lookup [OF assms(1)] by metis
  then show "vault s' x = ((vault s)((t, w) \<mapsto> secrets)) x"
    using assms(2,3) walletKey_eq [of t' t w' w] by (simp add: x vault_def secrets_view_def)
qed

section \<open>Operations that add a wallet\<close>

text \<open>
  The contract \<open>CreateWallet\<close> and \<open>RestoreWallet\<close> share: a call either registers nothing and fails, or
  it enrols the wallet it names, which was not there before. Success says which secrets the wallet
  has, and that the state file holds it; on failure after enrolment the state file is the old one.
\<close>

locale enroller =
  fixes add :: "'q \<Rightarrow> ('n, 'a) operation" and tid wid :: "'q \<Rightarrow> string"
    and secrets :: "'q \<Rightarrow> 'a \<Rightarrow> string \<times> string"
  assumes add_cases: "add q s = (r, s') \<Longrightarrow>
      (quiet s s' \<and> (\<exists>e. r = Inl e)) \<or>
      (idRE (tid q) \<and> idRE (wid q) \<and> lookup_wallet s (walletKey (tid q) (wid q)) = None \<and>
       (\<exists>sec. enrolled (tid q) (wid q) sec s s' \<and>
         (case r of Inl e \<Rightarrow> lookup_file s' (statePath s) = lookup_file s (statePath s)
                  | Inr x \<Rightarrow> sec = secrets q x \<and> saved s')))"
begin

lemma add_inv: "add q s = (r, s') \<Longrightarrow> registry_inv s \<Longrightarrow> registry_inv s'"
  using add_cases [of q s r s'] quiet_keeps(1) [of s s'] enrolled_inv [of _ _ _ s s'] by blast

lemma add_unique:
  "add q s = (r, s') \<Longrightarrow> registry_inv s \<Longrightarrow> unique_state s \<Longrightarrow> unique_state s'"
  using add_cases [of q s r s'] quiet_keeps(5) [of s s'] enrolled_unique [of _ _ _ s s'] by blast

lemma add_keeps_wallets:
  assumes "add q s = (r, s')" and "lookup_wallet s k = Some tw"
  shows "lookup_wallet s' k = Some tw"
  using add_cases [OF assms(1)]
proof (elim disjE conjE exE)
  assume "quiet s s'"
  with assms(2) show ?thesis by (simp add: quiet_keeps(3))
next
  fix sec
  assume none: "lookup_wallet s (walletKey (tid q) (wid q)) = None" and e: "enrolled (tid q) (wid q) sec s s'"
  obtain tw' where "lookup_wallet s' = (lookup_wallet s)(walletKey (tid q) (wid q) \<mapsto> tw')"
    using enrolled_lookup [OF e] by blast
  with none assms(2) show ?thesis by auto
qed

lemma add_success:
  assumes "add q s = (Inr x, s')"
  shows "idRE (tid q)" and "idRE (wid q)" and "lookup_wallet s (walletKey (tid q) (wid q)) = None"
    and "enrolled (tid q) (wid q) (secrets q x) s s'" and "saved s'"
    and "vault s' = (vault s)((tid q, wid q) \<mapsto> secrets q x)"
  using add_cases [OF assms] enrolled_vault [of "tid q" "wid q" "secrets q x" s s'] by auto

lemma add_wf:
  "add q s = (r, s') \<Longrightarrow> list_all wf_meta (s_state s) \<Longrightarrow> list_all wf_meta (s_state s')"
  using add_cases [of q s r s'] quiet_keeps(4) [of s s'] enrolled_wf [of _ _ _ s s'] by auto

lemma add_failure_file:
  assumes "add q s = (Inl e, s')"
  shows "lookup_file s' (statePath s) = lookup_file s (statePath s)"
  using add_cases [OF assms] by (auto simp: quiet_keeps(6))

lemma add_twice:
  assumes "add q s = (r, s')" and "lookup_wallet s (walletKey (tid q) (wid q)) = Some tw"
  shows "quiet s s' \<and> (\<exists>e. r = Inl e)"
  using add_cases [OF assms(1)] assms(2) by auto

end

interpretation quiet: frame_relation quiet
proof unfold_locales
  fix s t u :: "'n service"
  have "s = s\<lparr>s_node := s_node s, entropy := entropy s\<rparr>" by simp
  then show "quiet s s" unfolding quiet_def by blast
  assume "quiet s t" and "quiet t u"
  then obtain n e n' e' where "t = s\<lparr>s_node := n, entropy := e\<rparr>" "u = t\<lparr>s_node := n', entropy := e'\<rparr>"
    unfolding quiet_def by blast
  then have "u = s\<lparr>s_node := n', entropy := e'\<rparr>" by simp
  then show "quiet s u" unfolding quiet_def by blast
qed

lemma quiet_node: "quiet s (s\<lparr>s_node := n\<rparr>)"
  unfolding quiet_def by (intro exI [of _ n] exI [of _ "entropy s"]) simp

lemma quiet_entropy: "quiet s (s\<lparr>entropy := e\<rparr>)"
  unfolding quiet_def by (intro exI [of _ "s_node s"] exI [of _ e]) simp

lemma quiet_of_node_only: "keeps node_only m \<Longrightarrow> keeps quiet m"
  unfolding keeps_def node_only_def by (metis quiet_node)

lemma quiet_newWalletMeta: "newWalletMeta t w n mn pp s = (r, s') \<Longrightarrow> quiet s s'"
  using newWalletMeta_success [of t w n mn pp s _ s'] newWalletMeta_failure [of t w n mn pp s _ s']
  by (cases r) (auto simp: quiet_entropy)

lemma quiet_sdkE: "sdkE m s = (r, s') \<Longrightarrow> quiet s s'"
  by (auto simp: sdkE_def quiet_node split: prod.splits)

lemma quiet_internalE: "internalE m s = (r, s') \<Longrightarrow> (\<And>r. m s = (r, s') \<Longrightarrow> quiet s s') \<Longrightarrow> quiet s s'"
  by (auto simp: internalE_def split: prod.splits sum.splits)

lemma quiet_then_sdk:
  assumes "quiet s s1" and "internalE (sdkE m) s1 = (r, s2)"
  shows "quiet s s2"
  using quiet.frame_trans [OF assms(1)] quiet_internalE [OF assms(2)] quiet_sdkE by blast

lemma quiet_then_meta:
  assumes "quiet s s1" and "internalE (newWalletMeta t w n mn pp) s1 = (r, s2)"
  shows "quiet s s2"
  using quiet.frame_trans [OF assms(1)] quiet_internalE [OF assms(2)] quiet_newWalletMeta by blast

lemma quiet_opts: "quiet s s' \<Longrightarrow> s_opts s' = s_opts s"
  by (auto simp: quiet_def)

lemma quiet_statePath: "quiet s s' \<Longrightarrow> statePath s' = statePath s"
  by (auto simp: quiet_def statePath_def)

lemma enrolled_after_quiet:
  assumes "quiet s s0" and "enrolled t w sec s0 s'"
  shows "enrolled t w sec s s'"
proof -
  obtain n e where s0: "s0 = s\<lparr>s_node := n, entropy := e\<rparr>"
    using assms(1) by (auto simp: quiet_def)
  obtain m h store n' e' f where m: "TenantID m = t" "WalletID m = w" "SDKName m = sdkWalletName t w"
    "\<not> has_plaintext m" "idRE t \<longrightarrow> idRE w \<longrightarrow> wf_meta m" "openWalletSecrets (DataKey (s_opts s)) m = Inr sec"
    and s': "s' = s0\<lparr>s_node := n', entropy := e', files := f, s_state := s_state s0 @ [m],
          s_wallets := AList.update (walletKey t w)
            \<lparr>tw_meta = m, tw_w = h, tw_store = store, tw_rescanning = False\<rparr> (s_wallets s0),
          wallet_events := wallet_events s0 @ [(h, t, w)]\<rparr>"
    using assms(2) unfolding enrolled_def by (auto simp: s0)
  show ?thesis
    unfolding enrolled_def
    by (rule exI [of _ m], rule exI [of _ h], rule exI [of _ store], rule exI [of _ n'], rule exI [of _ e'],
        rule exI [of _ f]) (use m in \<open>simp add: s' s0\<close>)
qed

text \<open>The common end of both operations, run after steps that registered nothing.\<close>

lemma enrol_tail:
  assumes pre: "quiet s s0"
    and m: "TenantID m = t" "WalletID m = w" "SDKName m = sdkWalletName t w" "\<not> has_plaintext m"
      "idRE t \<longrightarrow> idRE w \<longrightarrow> wf_meta m" "openWalletSecrets (DataKey (s_opts s)) m = Inr sec"
    and run: "bindE (attachWalletLocked A m h) (\<lambda>tw. bindE (record_wallet A m tw) (\<lambda>tokens.
        bindE (sdkQ (walletProtoLocked A tw)) (\<lambda>view. returnE (resp view tokens)))) s0 = (r, s')"
  shows "(quiet s s' \<and> (\<exists>e. r = Inl e)) \<or>
     (enrolled t w sec s s' \<and>
       (case r of Inl e \<Rightarrow> lookup_file s' (statePath s) = lookup_file s (statePath s)
                | Inr x \<Rightarrow> (\<exists>view tokens. x = resp view tokens) \<and> saved s'))"
  using run
proof (cases rule: bindE_cases)
  case (fails e)
  then obtain n where "s' = s0\<lparr>s_node := n\<rparr>"
    using attach_failure(1) by blast
  then have "quiet s s'"
    using quiet.frame_trans [OF pre quiet_node] by simp
  with fails show ?thesis by simp
next
  case (goes tw s1)
  note attach = goes(1)
  have m0: "openWalletSecrets (DataKey (s_opts s0)) m = Inr sec"
    using m(6) quiet_opts [OF pre] by simp
  from goes(2) show ?thesis
  proof (cases rule: bindE_cases)
    case (fails e)
    from attach_record [OF attach fails(1) m(1-5) m0] show ?thesis
      using fails(2) enrolled_after_quiet [OF pre] quiet_keeps(6) [OF pre] quiet_statePath [OF pre] by simp
  next
    case (goes tokens s2)
    have s': "s' = s2" and r: "r = Inr (resp (walletProtoLocked A tw (s_node s2)) tokens)"
      using goes(2) by (auto simp: act_simps sdkQ_def)
    have "enrolled t w sec s s'"
      using attach_record(1) [OF attach goes(1) m(1-5) m0] enrolled_after_quiet [OF pre] by (simp add: s')
    with attach_record(2) [OF attach goes(1) m(1-5) m0] show ?thesis
      unfolding r by (auto simp: s')
  qed
qed

lemma newWalletMeta_after:
  assumes "quiet s s1" and "internalE (newWalletMeta t w (sdkWalletName t w) mn pp) s1 = (Inr m, s2)"
  shows "TenantID m = t" "WalletID m = w" "SDKName m = sdkWalletName t w" "\<not> has_plaintext m"
    "idRE t \<longrightarrow> idRE w \<longrightarrow> wf_meta m" "openWalletSecrets (DataKey (s_opts s)) m = Inr (mn, pp)"
  using newWalletMeta_success [of _ _ _ _ _ s1 m s2] assms(2) quiet_opts [OF assms(1)]
  by (auto simp: idRE_ascii sdkWalletName_ascii)

text \<open>The two operations past their checks: they differ in what comes first, the SDK's wallet or the record.\<close>

lemma create_body:
  assumes "bindE (internalE (sdkE (node_CreateWallet (the_node A) (sdkWalletName t w)))) (\<lambda>(h, mnemonic).
        bindE (internalE (newWalletMeta t w (sdkWalletName t w) mnemonic [])) (\<lambda>m.
        bindE (attachWalletLocked A m h) (\<lambda>tw.
        bindE (record_wallet A m tw) (\<lambda>tokens.
        bindE (sdkQ (walletProtoLocked A tw)) (\<lambda>view.
        returnE \<lparr>CreateWalletResp_wallet = Some view, CreateWalletResp_mnemonic = mnemonic,
          CreateWalletResp_tokens = tokens\<rparr>))))) s = (r, s')"
  shows "(quiet s s' \<and> (\<exists>e. r = Inl e)) \<or> (\<exists>sec. enrolled t w sec s s' \<and>
      (case r of Inl e \<Rightarrow> lookup_file s' (statePath s) = lookup_file s (statePath s)
               | Inr x \<Rightarrow> sec = (CreateWalletResp_mnemonic x, []) \<and> saved s'))"
  using assms
proof (cases rule: bindE_cases)
  case (fails e)
  then show ?thesis using quiet_then_sdk [OF quiet.frame_refl fails(1)] by simp
next
  case (goes wm s2)
  obtain h mn where wm: "wm = (h, mn)" by (cases wm)
  have q: "quiet s s2" using quiet_then_sdk [OF quiet.frame_refl goes(1)] .
  from goes(2) show ?thesis
    unfolding wm prod.case
  proof (cases rule: bindE_cases)
    case (fails e)
    then show ?thesis using quiet_then_meta [OF q fails(1)] by simp
  next
    case (goes m s3)
    from enrol_tail [OF quiet_then_meta [OF q goes(1)] newWalletMeta_after [OF q goes(1)] goes(2)] show ?thesis
      by (cases r) auto
  qed
qed

lemma restore_body:
  assumes "bindE (internalE (newWalletMeta t w (sdkWalletName t w) mn pp)) (\<lambda>m.
         bindE (internalE (sdkE (node_RestoreWallet (the_node A) (SDKName m) mn pp))) (\<lambda>h.
         bindE (attachWalletLocked A m h) (\<lambda>tw.
         bindE (record_wallet A m tw) (\<lambda>tokens.
         bindE (sdkQ (walletProtoLocked A tw)) (\<lambda>view.
         returnE \<lparr>WalletResp_wallet = Some view, WalletResp_tokens = tokens\<rparr>))))) s = (r, s')"
  shows "(quiet s s' \<and> (\<exists>e. r = Inl e)) \<or> (\<exists>sec. enrolled t w sec s s' \<and>
      (case r of Inl e \<Rightarrow> lookup_file s' (statePath s) = lookup_file s (statePath s)
               | Inr x \<Rightarrow> sec = (mn, pp) \<and> saved s'))"
  using assms
proof (cases rule: bindE_cases)
  case (fails e)
  then show ?thesis using quiet_then_meta [OF quiet.frame_refl fails(1)] by simp
next
  case (goes m s2)
  have q: "quiet s s2" using quiet_then_meta [OF quiet.frame_refl goes(1)] .
  note m = newWalletMeta_after [OF quiet.frame_refl goes(1)]
  from goes(2) show ?thesis
  proof (cases rule: bindE_cases)
    case (fails e)
    then show ?thesis using quiet_then_sdk [OF q fails(1)] by simp
  next
    case (goes h s3)
    from enrol_tail [OF quiet_then_sdk [OF q goes(1)] m goes(2)] show ?thesis
      by (cases r) auto
  qed
qed

lemma CreateWallet_cases:
  assumes "CreateWallet A req s = (r, s')"
  shows "(quiet s s' \<and> (\<exists>e. r = Inl e)) \<or>
      (idRE (tenant_id req) \<and> idRE (wallet_id req)
       \<and> lookup_wallet s (walletKey (tenant_id req) (wallet_id req)) = None \<and>
       (\<exists>sec. enrolled (tenant_id req) (wallet_id req) sec s s' \<and>
         (case r of Inl e \<Rightarrow> lookup_file s' (statePath s) = lookup_file s (statePath s)
                  | Inr x \<Rightarrow> sec = (CreateWalletResp_mnemonic x, []) \<and> saved s')))"
  using assms unfolding CreateWallet_def
proof (cases rule: bindE_cases)
  case (goes u s1)
  then have valid: "idRE (tenant_id req)" "idRE (wallet_id req)" and s1: "s1 = s"
    by (auto simp: run_simps validateTenantWallet_ok)
  show ?thesis
  proof (cases "lookup_wallet s (walletKey (tenant_id req) (wallet_id req))")
    case None
    with goes(2) valid show ?thesis
      using create_body [of A "tenant_id req" "wallet_id req" s r s'] by (simp add: s1 act_simps Let_def)
  next
    case (Some tw)
    with goes(2) have "s' = s \<and> (\<exists>e. r = Inl e)"
      by (auto simp: s1 act_simps)
    then show ?thesis by (simp add: quiet.frame_refl)
  qed
qed (auto simp: act_simps quiet.frame_refl)

lemma RestoreWallet_cases:
  assumes "RestoreWallet A req s = (r, s')"
  shows "(quiet s s' \<and> (\<exists>e. r = Inl e)) \<or>
      (idRE (tenant_id req) \<and> idRE (wallet_id req)
       \<and> lookup_wallet s (walletKey (tenant_id req) (wallet_id req)) = None \<and>
       (\<exists>sec. enrolled (tenant_id req) (wallet_id req) sec s s' \<and>
         (case r of Inl e \<Rightarrow> lookup_file s' (statePath s) = lookup_file s (statePath s)
                  | Inr x \<Rightarrow> sec = (RestoreWalletReq_mnemonic req, RestoreWalletReq_passphrase req) \<and> saved s')))"
  using assms unfolding RestoreWallet_def
proof (cases rule: bindE_cases)
  case (goes u s1)
  then have valid: "idRE (tenant_id req)" "idRE (wallet_id req)" and s1: "s1 = s"
    by (auto simp: run_simps validateTenantWallet_ok)
  show ?thesis
  proof (cases "RestoreWalletReq_mnemonic req = [] \<or> lookup_wallet s (walletKey (tenant_id req) (wallet_id req)) \<noteq> None")
    case False
    with goes(2) valid show ?thesis
      using restore_body [of "tenant_id req" "wallet_id req" "RestoreWalletReq_mnemonic req" "RestoreWalletReq_passphrase req" A s r s']
      by (simp add: s1 act_simps)
  next
    case True
    with goes(2) have "s' = s \<and> (\<exists>e. r = Inl e)"
      by (auto simp: s1 act_simps split: if_splits)
    then show ?thesis by (simp add: quiet.frame_refl)
  qed
qed (auto simp: act_simps quiet.frame_refl)

interpretation create: enroller "CreateWallet A" tenant_id wallet_id "\<lambda>req x. (CreateWalletResp_mnemonic x, [])" for A
  by unfold_locales (rule CreateWallet_cases)

interpretation restore: enroller "RestoreWallet A" tenant_id wallet_id
    "\<lambda>req x. (RestoreWalletReq_mnemonic req, RestoreWalletReq_passphrase req)" for A
  by unfold_locales (rule RestoreWallet_cases)

end
