(* ===== verification/Registry_Start.thy ===== *)
theory Registry_Start
  imports Registry_Inv
begin

text \<open>
  What construction does with the state file: every record loaded is restored, legacy plaintext
  secrets are sealed in place, and the invariant of the registry is established.
\<close>

section \<open>Restoring one record\<close>

definition put_migrated :: "walletMeta \<Rightarrow> walletMeta list \<Rightarrow> walletMeta list" where
  "put_migrated m ms = map (\<lambda>x. if same_wallet x m then m else x) ms"

lemma restore_loaded_success:
  assumes "restoreLoadedWallet A m s = (Inr tw, s')"
  shows "\<exists>m' p h n e. openWalletSecrets (DataKey (s_opts s)) m = Inr p
    \<and> openWalletSecrets (DataKey (s_opts s)) m' = Inr p \<and> \<not> has_plaintext m'
    \<and> TenantID m' = TenantID m \<and> WalletID m' = WalletID m \<and> SDKName m' = SDKName m
    \<and> (\<not> has_plaintext m \<longrightarrow> m' = m) \<and> (wf_meta m \<longrightarrow> wf_meta m') \<and> tw_meta tw = m' \<and> tw_w tw = h
    \<and> s' = s\<lparr>s_node := n, entropy := e,
         s_state := (if has_plaintext m then put_migrated m' (s_state s) else s_state s),
         s_wallets := AList.update (meta_key m) tw (s_wallets s),
         wallet_events := wallet_events s @ [(h, TenantID m, WalletID m)]\<rparr>"
proof -
  obtain mn pp w s1 m' s2 where
    p: "openWalletSecrets (DataKey (s_opts s)) m = Inr (mn, pp)" and
    w: "sdkE (node_RestoreWallet (the_node A) (SDKName m) mn pp) s = (Inr w, s1)" and
    mig: "(if has_plaintext m
            then bindE (newWalletMeta (TenantID m) (WalletID m) (SDKName m) mn pp) (\<lambda>migrated.
                 bindE (modifyS (\<lambda>s. s\<lparr>s_state := map (\<lambda>x. if same_wallet x migrated then migrated else x) (s_state s)\<rparr>)) (\<lambda>_.
                 returnE migrated))
            else returnE m) s1 = (Inr m', s2)" and
    att: "attachWalletLocked A m' w s2 = (Inr tw, s')"
    using assms by (auto simp: restoreLoadedWallet_def run_simps)
  obtain n1 where s1: "s1 = s\<lparr>s_node := n1\<rparr>"
    using w by (auto simp: sdkE_def split: prod.splits)
  have m': "openWalletSecrets (DataKey (s_opts s)) m' = Inr (mn, pp) \<and> \<not> has_plaintext m'
      \<and> TenantID m' = TenantID m \<and> WalletID m' = WalletID m \<and> SDKName m' = SDKName m
      \<and> (\<not> has_plaintext m \<longrightarrow> m' = m) \<and> (wf_meta m \<longrightarrow> wf_meta m')
      \<and> (\<exists>e. s2 = s1\<lparr>entropy := e, s_state := (if has_plaintext m then put_migrated m' (s_state s) else s_state s)\<rparr>)"
  proof (cases "has_plaintext m")
    case True
    with mig obtain s3 where mm: "newWalletMeta (TenantID m) (WalletID m) (SDKName m) mn pp s1 = (Inr m', s3)"
      and s2: "s2 = s3\<lparr>s_state := put_migrated m' (s_state s3)\<rparr>"
      by (auto simp: run_simps put_migrated_def)
    from newWalletMeta_success [OF mm] True show ?thesis
      by (auto simp: s1 s2 wf_meta_def)
  next
    case False
    with mig p have "m' = m \<and> s2 = s1\<lparr>entropy := entropy s1, s_state := s_state s\<rparr>"
      by (simp add: run_simps s1)
    with False p show ?thesis by (auto intro!: exI [of _ "entropy s1"])
  qed
  then obtain e where s2: "s2 = s1\<lparr>entropy := e, s_state := (if has_plaintext m then put_migrated m' (s_state s) else s_state s)\<rparr>"
    by blast
  obtain n store where "tw = \<lparr>tw_meta = m', tw_w = w, tw_store = store, tw_rescanning = False\<rparr>"
    and "s' = s2\<lparr>s_node := n, s_wallets := AList.update (walletKey (TenantID m') (WalletID m')) tw (s_wallets s2),
            wallet_events := wallet_events s2 @ [(w, TenantID m', WalletID m')]\<rparr>"
    using attach_success [OF att] by blast
  with m' p show ?thesis
    by (intro exI [of _ m'] exI [of _ "(mn, pp)"] exI [of _ w] exI [of _ n] exI [of _ e])
      (simp add: s2 s1 meta_key_def)
qed

section \<open>The loop\<close>

text \<open>After the first \<open>i\<close> records: what is live, and which records are sealed and restored.\<close>

definition load_inv :: "nat \<Rightarrow> 'n service \<Rightarrow> bool" where
  "load_inv i s \<longleftrightarrow> distinct (map fst (s_wallets s)) \<and> live_inv s
     \<and> (\<forall>j < i. sealed_meta (DataKey (s_opts s)) (s_state s ! j) \<and> lookup_wallet s (meta_key (s_state s ! j)) \<noteq> None)"

lemma nth_put_migrated:
  "j < length ms \<Longrightarrow> put_migrated m ms ! j = (if same_wallet (ms ! j) m then m else ms ! j)"
  by (simp add: put_migrated_def)

lemma length_put_migrated [simp]: "length (put_migrated m ms) = length ms"
  by (simp add: put_migrated_def)

lemma put_migrated_keeps: "x \<in> set ms \<Longrightarrow> meta_key x \<noteq> meta_key m \<Longrightarrow> x \<in> set (put_migrated m ms)"
  by (force simp: put_migrated_def same_wallet_def meta_key_def)

lemma map_meta_key_put_migrated [simp]: "map meta_key (put_migrated m ms) = map meta_key ms"
  by (simp add: put_migrated_def same_wallet_def meta_key_def)

lemma load_inv_step:
  assumes run: "restoreLoadedWallet A (s_state s ! i) s = (Inr tw, s')" and inv: "load_inv i s"
    and i: "i < length (s_state s)"
  shows "load_inv (Suc i) s'"
proof -
  let ?m = "s_state s ! i" and ?K = "DataKey (s_opts s)"
  obtain m' p h n e where
    p: "openWalletSecrets ?K m' = Inr p" "\<not> has_plaintext m'"
    and ids: "TenantID m' = TenantID ?m" "WalletID m' = WalletID ?m"
    and same: "\<not> has_plaintext ?m \<longrightarrow> m' = ?m" and tw: "tw_meta tw = m'" "tw_w tw = h"
    and s': "s' = s\<lparr>s_node := n, entropy := e,
         s_state := (if has_plaintext ?m then put_migrated m' (s_state s) else s_state s),
         s_wallets := AList.update (meta_key ?m) tw (s_wallets s),
         wallet_events := wallet_events s @ [(h, TenantID ?m, WalletID ?m)]\<rparr>"
    using restore_loaded_success [OF run] by blast
  have key: "meta_key m' = meta_key ?m"
    using ids by (simp add: meta_key_def)
  have st: "s_state s' = (if has_plaintext ?m then put_migrated m' (s_state s) else s_state s)"
    and lk: "lookup_wallet s' = (lookup_wallet s)(meta_key ?m \<mapsto> tw)"
    and ev: "wallet_events s' = wallet_events s @ [(h, TenantID ?m, WalletID ?m)]"
    and wl: "s_wallets s' = AList.update (meta_key ?m) tw (s_wallets s)" and op: "s_opts s' = s_opts s"
    by (simp_all add: s' fun_eq_iff lookup_wallet_def update_conv')
  have at: "s_state s' ! j = (if j = i then m' else if has_plaintext ?m \<and> same_wallet (s_state s ! j) m' then m'
      else s_state s ! j)" if "j \<le> i" for j
    using that i ids same by (simp add: st nth_put_migrated same_wallet_def)
  have m'_in: "m' \<in> set (s_state s')"
    using at [of i] i nth_mem [of i "s_state s'"] by (simp add: st split: if_splits)
  have stays: "x \<in> set (s_state s')" if "x \<in> set (s_state s)" and "meta_key x \<noteq> meta_key ?m" for x
    using that put_migrated_keeps key by (simp add: st)
  have "live_inv s'"
    unfolding live_inv_def
  proof (intro allI impI)
    fix k tw' assume "lookup_wallet s' k = Some tw'"
    then show "k = meta_key (tw_meta tw') \<and> tw_meta tw' \<in> set (s_state s')
        \<and> (tw_w tw', TenantID (tw_meta tw'), WalletID (tw_meta tw')) \<in> set (wallet_events s')"
      using inv m'_in stays [of "tw_meta tw'"] tw ids key
      unfolding load_inv_def live_inv_def lk ev by (auto split: if_splits)
  qed
  moreover have "sealed_meta (DataKey (s_opts s')) (s_state s' ! j) \<and> lookup_wallet s' (meta_key (s_state s' ! j)) \<noteq> None"
    if "j < Suc i" for j
  proof (cases "s_state s' ! j = m'")
    case True
    with p show ?thesis by (auto simp: sealed_meta_def op lk key)
  next
    case False
    with at [of j] that have "s_state s' ! j = s_state s ! j" and "j < i"
      by (auto split: if_splits simp: less_Suc_eq)
    with inv show ?thesis by (auto simp: load_inv_def op lk)
  qed
  moreover have "distinct (map fst (s_wallets s'))"
    using inv by (simp add: load_inv_def wl distinct_update)
  ultimately show ?thesis by (simp add: load_inv_def)
qed

text \<open>What the loop leaves alone, and what it does to the records.\<close>

definition same_secrets :: "bytes \<Rightarrow> walletMeta \<Rightarrow> walletMeta \<Rightarrow> bool" where
  "same_secrets key m m' \<longleftrightarrow> TenantID m' = TenantID m \<and> WalletID m' = WalletID m \<and> SDKName m' = SDKName m
     \<and> openWalletSecrets key m' = openWalletSecrets key m \<and> (wf_meta m \<longrightarrow> wf_meta m')"

lemma same_secrets_refl: "same_secrets key m m"
  by (simp add: same_secrets_def)

lemma same_secrets_trans: "same_secrets key a b \<Longrightarrow> same_secrets key b c \<Longrightarrow> same_secrets key a c"
  by (simp add: same_secrets_def)

definition load_frame :: "'n service \<Rightarrow> 'n service \<Rightarrow> bool" where
  "load_frame s s' \<longleftrightarrow> s_opts s' = s_opts s \<and> s_dataDir s' = s_dataDir s \<and> files s' = files s
     \<and> map meta_key (s_state s') = map meta_key (s_state s)
     \<and> (unique_state s \<longrightarrow> list_all2 (same_secrets (DataKey (s_opts s))) (s_state s) (s_state s'))"

interpretation load_frame: frame_relation load_frame
proof unfold_locales
  fix s t u :: "'n service"
  show "load_frame s s" by (simp add: load_frame_def list_all2_same same_secrets_refl)
  assume "load_frame s t" and "load_frame t u"
  then show "load_frame s u"
    unfolding load_frame_def unique_state_def
    using list_all2_trans [of "same_secrets (DataKey (s_opts s))" "same_secrets (DataKey (s_opts s))"
        "same_secrets (DataKey (s_opts s))" "s_state s" "s_state t" "s_state u"] same_secrets_trans
    by auto
qed

lemma load_frame_step:
  assumes run: "restoreLoadedWallet A (s_state s ! i) s = (Inr tw, s')" and i: "i < length (s_state s)"
  shows "load_frame s s'" and "\<not> has_plaintext (s_state s ! i) \<Longrightarrow> s_state s' = s_state s"
proof -
  let ?m = "s_state s ! i" and ?K = "DataKey (s_opts s)"
  obtain m' p h n e where
    m': "openWalletSecrets ?K ?m = Inr p" "openWalletSecrets ?K m' = Inr p" "SDKName m' = SDKName ?m"
      "TenantID m' = TenantID ?m" "WalletID m' = WalletID ?m" "wf_meta ?m \<longrightarrow> wf_meta m'"
    and s': "s' = s\<lparr>s_node := n, entropy := e,
         s_state := (if has_plaintext ?m then put_migrated m' (s_state s) else s_state s),
         s_wallets := AList.update (meta_key ?m) tw (s_wallets s),
         wallet_events := wallet_events s @ [(h, TenantID ?m, WalletID ?m)]\<rparr>"
    using restore_loaded_success [OF run] by blast
  have st: "s_state s' = (if has_plaintext ?m then put_migrated m' (s_state s) else s_state s)"
    by (simp add: s')
  show "\<not> has_plaintext ?m \<Longrightarrow> s_state s' = s_state s" by (simp add: st)
  have "same_secrets ?K (s_state s ! j) (s_state s' ! j)" if u: "unique_state s" and j: "j < length (s_state s)" for j
  proof (cases "j = i")
    case True
    with m' i show ?thesis
      by (auto simp: st nth_put_migrated same_secrets_def)
  next
    case False
    then have "meta_key (s_state s ! j) \<noteq> meta_key ?m"
      using u i j by (simp add: unique_state_def distinct_conv_nth)
    then have "\<not> same_wallet (s_state s ! j) m'"
      using m'(4,5) by (auto simp: same_wallet_def meta_key_def)
    with j show ?thesis
      by (simp add: st nth_put_migrated same_secrets_refl)
  qed
  then show "load_frame s s'"
    by (simp add: load_frame_def list_all2_conv_all_nth st) (simp add: s')
qed

lemma load_wallets_flag: "load_wallets A is True s = (Inr mig', s') \<Longrightarrow> mig'"
  by (induction "is" arbitrary: s) (auto simp: run_simps)

lemma load_wallets_success:
  assumes "load_wallets A [i..<n] mig s = (Inr mig', s')" and "load_inv i s" and "n = length (s_state s)"
    and "i \<le> n"
  shows "load_inv n s' \<and> load_frame s s' \<and> (\<not> mig' \<longrightarrow> s_state s' = s_state s)"
  using assms
proof (induction "n - i" arbitrary: i mig s)
  case 0
  then show ?case by (simp add: run_simps load_frame.frame_refl)
next
  case (Suc d)
  then have "i < n" by simp
  let ?m = "s_state s ! i"
  from Suc.prems(1) \<open>i < n\<close> obtain tw s1 where
    r: "restoreLoadedWallet A ?m s = (Inr tw, s1)" and
    l: "load_wallets A [Suc i..<n] (mig \<or> has_plaintext ?m) s1 = (Inr mig', s')"
    by (auto simp: upt_conv_Cons run_simps)
  have i: "i < length (s_state s)" using Suc.prems(3) \<open>i < n\<close> by simp
  note f = load_frame_step [OF r i]
  have len: "n = length (s_state s1)"
    using f(1) Suc.prems(3) by (metis load_frame_def length_map)
  have d: "d = n - Suc i" and le: "Suc i \<le> n"
    using Suc.hyps(2) \<open>i < n\<close> by simp_all
  have ih: "load_inv n s' \<and> load_frame s1 s' \<and> (\<not> mig' \<longrightarrow> s_state s' = s_state s1)"
    by (rule Suc.hyps(1) [OF d l load_inv_step [OF r Suc.prems(2) i] len le])
  have "mig'" if "has_plaintext ?m"
    using l that load_wallets_flag [of A "[Suc i..<n]" s1 mig' s'] by simp
  moreover have "load_frame s s'"
    using load_frame.frame_trans [OF f(1)] ih by blast
  ultimately show ?case using ih f(2) by metis
qed

section \<open>Construction\<close>

lemma fresh_service_fields [simp]:
  "s_opts (fresh_service n d o' h) = o'" "s_dataDir (fresh_service n d o' h) = d"
  "files (fresh_service n d o' h) = files h" "s_state (fresh_service n d o' h) = []"
  "s_wallets (fresh_service n d o' h) = []" "wallet_events (fresh_service n d o' h) = []"
  "read_fault (fresh_service n d o' h) = read_fault h"
  by (simp_all add: fresh_service_def host.defs service.defs)

text \<open>A failing read reports a missing file only when the file is missing.\<close>

definition honest_reads :: "'z host_scheme \<Rightarrow> bool" where
  "honest_reads h \<longleftrightarrow> (\<forall>p e. read_fault h p = Some e \<longrightarrow> \<not> errors_is e ErrNotExist)"

lemma loadState_success:
  assumes "loadState s = (Inr u, s')" and "honest_reads s"
  shows "s' = s\<lparr>s_state := persisted s\<rparr>"
  using assms
  by (auto simp: loadState_def act_simps os_ReadFile_def persisted_def honest_reads_def
      split: option.splits if_splits sum.splits)

lemma cond_sdkU: "(if b then sdkU f else returnE ()) s = (Inr u, s') \<Longrightarrow> \<exists>n. s' = s\<lparr>s_node := n\<rparr>"
  by (cases b) (auto simp: sdkU_def returnE_def intro: exI [of _ "s_node s"])

lemma start_success:
  assumes "start_service A s = (Inr u, s')" and "honest_reads s" and "s_wallets s = []" and "length (DataKey (s_opts s)) = 32"
  shows "\<exists>s1 s2 mig. s_state s1 = persisted s \<and> s_opts s1 = s_opts s \<and> s_dataDir s1 = s_dataDir s \<and> files s1 = files s
    \<and> load_frame s1 s2 \<and> load_inv (length (s_state s1)) s2 \<and> (\<not> mig \<longrightarrow> s_state s2 = s_state s1)
    \<and> (if mig then saveStateLocked s2 = (Inr (), s') else s' = s2)"
proof -
  obtain sA s0 sB s1 mig s2 where
    sA: "(if BroadcastFanout (s_opts s) > 0
            then sdkU (node_SetBroadcastFanout (the_node A) (BroadcastFanout (s_opts s))) else returnE ()) s = (Inr (), sA)" and
    s0: "(if DisablePendingTxTracking (s_opts s)
            then sdkU (node_SetPendingTxTracking (the_node A) False) else returnE ()) sA = (Inr (), s0)" and
    mk: "os_MkdirAll (walletDir s0) s0 = (Inr (), sB)" and
    ld: "loadState sB = (Inr (), s1)" and
    l: "load_wallets A [0..<length (s_state s1)] False (s1\<lparr>node_events := True\<rparr>) = (Inr mig, s2)" and
    e: "(if mig then saveStateLocked else returnE ()) s2 = (Inr (), s')"
    using assms(1) by (auto simp: start_service_def run_simps registerNodeEvents_def)
  obtain n where sB: "sB = s\<lparr>s_node := n\<rparr>"
    using cond_sdkU [OF sA] cond_sdkU [OF s0] os_MkdirAll_state [of "walletDir s0" s0] mk by auto
  have s1: "s1 = s\<lparr>s_node := n, s_state := persisted s\<rparr>"
    using loadState_success [OF ld] assms(2)
    by (simp add: sB honest_reads_def persisted_def statePath_def lookup_file_def)
  let ?s1 = "s1\<lparr>node_events := True\<rparr>"
  have s1': "s_state ?s1 = persisted s" "s_opts ?s1 = s_opts s" "s_dataDir ?s1 = s_dataDir s" "files ?s1 = files s"
    "s_wallets ?s1 = []" "s_state s1 = s_state ?s1"
    by (simp_all add: s1 assms(3))
  have l': "load_wallets A [0..<length (s_state ?s1)] False ?s1 = (Inr mig, s2)"
    using l by simp
  have "load_inv 0 ?s1"
    using s1'(5) by (simp add: load_inv_def live_inv_def lookup_wallet_def)
  note loaded = load_wallets_success [OF l' this refl le0]
  have "if mig then saveStateLocked s2 = (Inr (), s') else s' = s2"
    using e by (cases mig) (simp_all add: run_simps)
  with loaded s1' show ?thesis by blast
qed

end
