(* ===== verification/Demo_Sdk.thy ===== *)
theory Demo_Sdk
  imports Sdk Go_Encoding
begin

text \<open>
  A concrete SDK on which the theorems of the development are applied: its state is the number of
  wallets handed out and transactions sent, every call succeeds, there is one peer,
  every wallet holds 250000 satoshis, and there are no snapshots yet.
\<close>

definition demo_node :: "nat node_api" where
  "demo_node = \<lparr>node_Network = (\<lambda>n. ''regtest''),
      node_ChainHeight = (\<lambda>n. 0),
      node_BestPeerHeight = (\<lambda>n. 0),
      node_PeerCount = (\<lambda>n. 1),
      node_PeerHeights = (\<lambda>n. []),
      node_ConnectPeer = (\<lambda>a0 n. (Inr (), n)),
      node_CreateWallet = (\<lambda>name n. (Inr (n, ''legal winner thank''), Suc n)),
      node_RestoreWallet = (\<lambda>name mnemonic passphrase n. (Inr n, Suc n)),
      node_SetBroadcastFanout = (\<lambda>a0 n. n),
      node_SetPendingTxTracking = (\<lambda>a0 n. n),
      node_P2PKHOutput = (\<lambda>a0 a1 n. Inr \<lparr>os_Script = [], os_Value = 0\<rparr>),
      node_SpendCustom = (\<lambda>a0 a1 n. (Inr ''demo'', n)),
      node_BroadcastRaw = (\<lambda>a0 n. (Inr ''demo'', n)),
      node_ExecuteScript = (\<lambda>a0 a1 a2 a3 a4 n. Inr ()),
      node_ExecuteScriptStrict = (\<lambda>a0 a1 a2 a3 a4 n. Inr ()),
      node_DecodeOutputAddress = (\<lambda>a0 n. (''demo'', True)),
      node_PendingTransactions = (\<lambda>n. []),
      node_RebroadcastPendingTransactions = (\<lambda>n. (0, n)),
      node_SenderAddressFromInput = (\<lambda>a0 a1 n. (''demo'', True)),
      node_VerifyTxSeen = (\<lambda>a0 a1 a2 n. (Inr True, n)),
      node_WaitForTxRelay = (\<lambda>a0 a1 n. (Inr True, n))\<rparr>"

definition demo_wallet :: "nat wallet_api" where
  "demo_wallet = \<lparr>wal_NewDerivedAddress = (\<lambda>a0 n. (Inr \<lparr>da_Address = ''addr'', da_Path = ''0/0'', da_PubKey = [], da_Script = [], da_Branch = 0, da_Index = 0\<rparr>, n)),
      wal_BatchNewDerivedAddresses = (\<lambda>a0 a1 n. (Inr [], n)),
      wal_DeriveAt = (\<lambda>a0 a1 a2 n. (Inr ''demo'', n)),
      wal_PubKeyAt = (\<lambda>a0 a1 a2 n. (Inr ([], ''demo''), n)),
      wal_SignHashAt = (\<lambda>a0 a1 a2 a3 n. (Inr ([], []), n)),
      wal_NextIndex = (\<lambda>a0 a1 n. 0),
      wal_Balance = (\<lambda>a0 n. 0),
      wal_BalanceBSV = (\<lambda>a0 n. 0),
      wal_SpendableBalance = (\<lambda>a0 n. 250000),
      wal_ImmatureBalance = (\<lambda>a0 n. 0),
      wal_UTXOs = (\<lambda>a0 n. []),
      wal_ForceImportCoin = (\<lambda>a0 a1 n. (Inr (), n)),
      wal_ImportUTXO = (\<lambda>a0 a1 a2 a3 a4 a5 n. (Inr (), n)),
      wal_ProcessRawTx = (\<lambda>a0 a1 a2 n. (Inr (), n)),
      wal_ClearUTXOs = (\<lambda>a0 n. (0, n)),
      wal_ReloadFromStore = (\<lambda>a0 n. (Inr 0, n)),
      wal_Wipe = (\<lambda>a0 n. (Inr 0, n)),
      wal_PruneUnknownUTXOs = (\<lambda>a0 n. (0, n)),
      wal_IgnoreOutpoint = (\<lambda>a0 a1 a2 n. n),
      wal_UnignoreOutpoint = (\<lambda>a0 a1 a2 n. n),
      wal_IsOutpointIgnored = (\<lambda>a0 a1 a2 n. True),
      wal_UntrackUTXO = (\<lambda>a0 a1 a2 n. (0, n)),
      wal_CanCover = (\<lambda>a0 a1 a2 a3 n. Inr ()),
      wal_Send = (\<lambda>w a1 a2 n. (Inr ''txid'', Suc n)),
      wal_SendAll = (\<lambda>w a1 n. (Inr ''txid'', Suc n)),
      wal_SpendToOutputsDetailed = (\<lambda>a0 a1 n. (Inr None, n)),
      wal_SpendToOutputsDetailedFrom = (\<lambda>a0 a1 a2 n. (Inr None, n)),
      wal_SpendToOutputsDetailedIgnoringFixed = (\<lambda>a0 a1 n. (Inr None, n)),
      wal_TxState = (\<lambda>a0 a1 n. Inr (\<lparr>ts_Height = 0, ts_Confirmed = False, ts_Conflicted = False\<rparr>, True)),
      wal_AbandonTransaction = (\<lambda>a0 a1 n. (Inr (), n)),
      wal_ClearIgnoredOutpoints = (\<lambda>a0 n. (0, n)),
      wal_OwnsScript = (\<lambda>a0 a1 n. True),
      wal_GetIncompleteCursor = (\<lambda>a0 n. Inr (None, True)),
      wal_SetStore = (\<lambda>a0 a1 n. n),
      wal_LoadAddressSnapshot = (\<lambda>a0 a1 n. n),
      wal_SetNextIndices = (\<lambda>a0 a1 a2 n. n),
      wal_LoadFromStore = (\<lambda>a0 n. (Inr 0, n)),
      wal_NextIndices = (\<lambda>a0 n. (0, 0)),
      wal_SaveAddressSnapshot = (\<lambda>a0 n. []),
      wal_Addresses = (\<lambda>a0 n. []),
      wal_Selector = (\<lambda>a0 n. ''demo'')\<rparr>"

definition demo_pkg :: "nat pkg_api" where
  "demo_pkg = \<lparr>pkg_TxIDFromHex = (Hex_DecodeString),
      pkg_ParseTransaction = (\<lambda>a0. Inr \<lparr>tx_TxID = ''txid'', tx_Bytes = [], tx_Inputs = [], tx_Outputs = []\<rparr>),
      pkg_OpReturnOutput = (\<lambda>a0. \<lparr>os_Script = [], os_Value = 0\<rparr>),
      pkg_AnyoneCanSpendOutput = (\<lambda>a0. \<lparr>os_Script = [], os_Value = 0\<rparr>),
      pkg_CoinbaseMaturity = (0),
      pkg_ReadAddressSnapshot = (\<lambda>path n. Inl ErrSnapshotNotFound),
      pkg_WriteAddressSnapshot = (\<lambda>a0 a1 a2 a3 n. (Inr (), n)),
      sqlite_Open = (\<lambda>a0 n. (Inr 0, n)),
      sqlite_Close = (\<lambda>a0 n. (Inr (), n))\<rparr>"

definition demo_sdk :: "nat sdk" where
  "demo_sdk = \<lparr>the_node = demo_node, the_wallet = demo_wallet, the_pkg = demo_pkg\<rparr>"

lemma demo_simps [simp]:
  "node_Network (the_node demo_sdk) = (\<lambda>n. ''regtest'')"
  "node_ChainHeight (the_node demo_sdk) = (\<lambda>n. 0)"
  "node_BestPeerHeight (the_node demo_sdk) = (\<lambda>n. 0)"
  "node_PeerCount (the_node demo_sdk) = (\<lambda>n. 1)"
  "node_PeerHeights (the_node demo_sdk) = (\<lambda>n. [])"
  "node_ConnectPeer (the_node demo_sdk) = (\<lambda>a0 n. (Inr (), n))"
  "node_CreateWallet (the_node demo_sdk) = (\<lambda>name n. (Inr (n, ''legal winner thank''), Suc n))"
  "node_RestoreWallet (the_node demo_sdk) = (\<lambda>name mnemonic passphrase n. (Inr n, Suc n))"
  "node_SetBroadcastFanout (the_node demo_sdk) = (\<lambda>a0 n. n)"
  "node_SetPendingTxTracking (the_node demo_sdk) = (\<lambda>a0 n. n)"
  "node_P2PKHOutput (the_node demo_sdk) = (\<lambda>a0 a1 n. Inr \<lparr>os_Script = [], os_Value = 0\<rparr>)"
  "node_SpendCustom (the_node demo_sdk) = (\<lambda>a0 a1 n. (Inr ''demo'', n))"
  "node_BroadcastRaw (the_node demo_sdk) = (\<lambda>a0 n. (Inr ''demo'', n))"
  "node_ExecuteScript (the_node demo_sdk) = (\<lambda>a0 a1 a2 a3 a4 n. Inr ())"
  "node_ExecuteScriptStrict (the_node demo_sdk) = (\<lambda>a0 a1 a2 a3 a4 n. Inr ())"
  "node_DecodeOutputAddress (the_node demo_sdk) = (\<lambda>a0 n. (''demo'', True))"
  "node_PendingTransactions (the_node demo_sdk) = (\<lambda>n. [])"
  "node_RebroadcastPendingTransactions (the_node demo_sdk) = (\<lambda>n. (0, n))"
  "node_SenderAddressFromInput (the_node demo_sdk) = (\<lambda>a0 a1 n. (''demo'', True))"
  "node_VerifyTxSeen (the_node demo_sdk) = (\<lambda>a0 a1 a2 n. (Inr True, n))"
  "node_WaitForTxRelay (the_node demo_sdk) = (\<lambda>a0 a1 n. (Inr True, n))"
  "wal_NewDerivedAddress (the_wallet demo_sdk) = (\<lambda>a0 n. (Inr \<lparr>da_Address = ''addr'', da_Path = ''0/0'', da_PubKey = [], da_Script = [], da_Branch = 0, da_Index = 0\<rparr>, n))"
  "wal_BatchNewDerivedAddresses (the_wallet demo_sdk) = (\<lambda>a0 a1 n. (Inr [], n))"
  "wal_DeriveAt (the_wallet demo_sdk) = (\<lambda>a0 a1 a2 n. (Inr ''demo'', n))"
  "wal_PubKeyAt (the_wallet demo_sdk) = (\<lambda>a0 a1 a2 n. (Inr ([], ''demo''), n))"
  "wal_SignHashAt (the_wallet demo_sdk) = (\<lambda>a0 a1 a2 a3 n. (Inr ([], []), n))"
  "wal_NextIndex (the_wallet demo_sdk) = (\<lambda>a0 a1 n. 0)"
  "wal_Balance (the_wallet demo_sdk) = (\<lambda>a0 n. 0)"
  "wal_BalanceBSV (the_wallet demo_sdk) = (\<lambda>a0 n. 0)"
  "wal_SpendableBalance (the_wallet demo_sdk) = (\<lambda>a0 n. 250000)"
  "wal_ImmatureBalance (the_wallet demo_sdk) = (\<lambda>a0 n. 0)"
  "wal_UTXOs (the_wallet demo_sdk) = (\<lambda>a0 n. [])"
  "wal_ForceImportCoin (the_wallet demo_sdk) = (\<lambda>a0 a1 n. (Inr (), n))"
  "wal_ImportUTXO (the_wallet demo_sdk) = (\<lambda>a0 a1 a2 a3 a4 a5 n. (Inr (), n))"
  "wal_ProcessRawTx (the_wallet demo_sdk) = (\<lambda>a0 a1 a2 n. (Inr (), n))"
  "wal_ClearUTXOs (the_wallet demo_sdk) = (\<lambda>a0 n. (0, n))"
  "wal_ReloadFromStore (the_wallet demo_sdk) = (\<lambda>a0 n. (Inr 0, n))"
  "wal_Wipe (the_wallet demo_sdk) = (\<lambda>a0 n. (Inr 0, n))"
  "wal_PruneUnknownUTXOs (the_wallet demo_sdk) = (\<lambda>a0 n. (0, n))"
  "wal_IgnoreOutpoint (the_wallet demo_sdk) = (\<lambda>a0 a1 a2 n. n)"
  "wal_UnignoreOutpoint (the_wallet demo_sdk) = (\<lambda>a0 a1 a2 n. n)"
  "wal_IsOutpointIgnored (the_wallet demo_sdk) = (\<lambda>a0 a1 a2 n. True)"
  "wal_UntrackUTXO (the_wallet demo_sdk) = (\<lambda>a0 a1 a2 n. (0, n))"
  "wal_CanCover (the_wallet demo_sdk) = (\<lambda>a0 a1 a2 a3 n. Inr ())"
  "wal_Send (the_wallet demo_sdk) = (\<lambda>w a1 a2 n. (Inr ''txid'', Suc n))"
  "wal_SendAll (the_wallet demo_sdk) = (\<lambda>w a1 n. (Inr ''txid'', Suc n))"
  "wal_SpendToOutputsDetailed (the_wallet demo_sdk) = (\<lambda>a0 a1 n. (Inr None, n))"
  "wal_SpendToOutputsDetailedFrom (the_wallet demo_sdk) = (\<lambda>a0 a1 a2 n. (Inr None, n))"
  "wal_SpendToOutputsDetailedIgnoringFixed (the_wallet demo_sdk) = (\<lambda>a0 a1 n. (Inr None, n))"
  "wal_TxState (the_wallet demo_sdk) = (\<lambda>a0 a1 n. Inr (\<lparr>ts_Height = 0, ts_Confirmed = False, ts_Conflicted = False\<rparr>, True))"
  "wal_AbandonTransaction (the_wallet demo_sdk) = (\<lambda>a0 a1 n. (Inr (), n))"
  "wal_ClearIgnoredOutpoints (the_wallet demo_sdk) = (\<lambda>a0 n. (0, n))"
  "wal_OwnsScript (the_wallet demo_sdk) = (\<lambda>a0 a1 n. True)"
  "wal_GetIncompleteCursor (the_wallet demo_sdk) = (\<lambda>a0 n. Inr (None, True))"
  "wal_SetStore (the_wallet demo_sdk) = (\<lambda>a0 a1 n. n)"
  "wal_LoadAddressSnapshot (the_wallet demo_sdk) = (\<lambda>a0 a1 n. n)"
  "wal_SetNextIndices (the_wallet demo_sdk) = (\<lambda>a0 a1 a2 n. n)"
  "wal_LoadFromStore (the_wallet demo_sdk) = (\<lambda>a0 n. (Inr 0, n))"
  "wal_NextIndices (the_wallet demo_sdk) = (\<lambda>a0 n. (0, 0))"
  "wal_SaveAddressSnapshot (the_wallet demo_sdk) = (\<lambda>a0 n. [])"
  "wal_Addresses (the_wallet demo_sdk) = (\<lambda>a0 n. [])"
  "wal_Selector (the_wallet demo_sdk) = (\<lambda>a0 n. ''demo'')"
  "pkg_TxIDFromHex (the_pkg demo_sdk) = (Hex_DecodeString)"
  "pkg_ParseTransaction (the_pkg demo_sdk) = (\<lambda>a0. Inr \<lparr>tx_TxID = ''txid'', tx_Bytes = [], tx_Inputs = [], tx_Outputs = []\<rparr>)"
  "pkg_OpReturnOutput (the_pkg demo_sdk) = (\<lambda>a0. \<lparr>os_Script = [], os_Value = 0\<rparr>)"
  "pkg_AnyoneCanSpendOutput (the_pkg demo_sdk) = (\<lambda>a0. \<lparr>os_Script = [], os_Value = 0\<rparr>)"
  "pkg_CoinbaseMaturity (the_pkg demo_sdk) = (0)"
  "pkg_ReadAddressSnapshot (the_pkg demo_sdk) = (\<lambda>path n. Inl ErrSnapshotNotFound)"
  "pkg_WriteAddressSnapshot (the_pkg demo_sdk) = (\<lambda>a0 a1 a2 a3 n. (Inr (), n))"
  "sqlite_Open (the_pkg demo_sdk) = (\<lambda>a0 n. (Inr 0, n))"
  "sqlite_Close (the_pkg demo_sdk) = (\<lambda>a0 n. (Inr (), n))"
  by (simp_all add: demo_sdk_def demo_node_def demo_wallet_def demo_pkg_def)

end
