(* ===== verification/Registry_Props.thy ===== *)
theory Registry_Props
  imports Registry_Start Demo_Sdk
begin

text \<open>
  The properties of the wallet registry: what creation, restoration, lookup, listing and saving do,
  and that starting the service seals every secret it finds and loses none.
\<close>

section \<open>The vault is what the saved list says\<close>

definition state_view :: "bytes \<Rightarrow> walletMeta list \<Rightarrow> string \<times> string \<Rightarrow> (string \<times> string) option" where
  "state_view key ms = (\<lambda>(t, w). if idRE t \<and> idRE w then
     (case find (\<lambda>m. meta_key m = walletKey t w) ms of
        None \<Rightarrow> None
      | Some m \<Rightarrow> (case openWalletSecrets key m of Inl _ \<Rightarrow> None | Inr p \<Rightarrow> Some p))
     else None)"

lemma find_unique:
  assumes "distinct (map f ms)" and "m \<in> set ms" and "f m = k"
  shows "find (\<lambda>x. f x = k) ms = Some m"
  using assms by (induction ms) auto

lemma vault_by_state:
  assumes inv: "registry_inv s" and uniq: "unique_state s"
  shows "vault s = state_view (DataKey (s_opts s)) (s_state s)"
proof
  fix x :: "string \<times> string"
  obtain t w where x: "x = (t, w)" by (cases x)
  show "vault s x = state_view (DataKey (s_opts s)) (s_state s) x"
  proof (cases "lookup_wallet s (walletKey t w)")
    case None
    then have "\<forall>m \<in> set (s_state s). meta_key m \<noteq> walletKey t w"
      using inv by (force simp: registry_inv_def)
    then have "find (\<lambda>m. meta_key m = walletKey t w) (s_state s) = None"
      by (simp add: find_None_iff)
    with None show ?thesis by (simp add: x vault_def secrets_view_def state_view_def)
  next
    case (Some tw)
    then have "tw_meta tw \<in> set (s_state s)" and "meta_key (tw_meta tw) = walletKey t w"
      using inv by (auto simp: registry_inv_def live_inv_def)
    then have "find (\<lambda>m. meta_key m = walletKey t w) (s_state s) = Some (tw_meta tw)"
      using uniq unfolding unique_state_def by (rule find_unique [rotated])
    with Some show ?thesis by (simp add: x vault_def secrets_view_def state_view_def)
  qed
qed

lemma same_secrets_key: "same_secrets key m m' \<Longrightarrow> meta_key m' = meta_key m"
  by (simp add: same_secrets_def meta_key_def)

lemma find_same:
  assumes "list_all2 (same_secrets key) ms ms'"
  shows "rel_option (same_secrets key) (find (\<lambda>m. meta_key m = k) ms) (find (\<lambda>m. meta_key m = k) ms')"
  using assms by (induction rule: list_all2_induct) (simp_all add: same_secrets_key)

lemma state_view_same:
  assumes "list_all2 (same_secrets key) ms ms'"
  shows "state_view key ms' = state_view key ms"
proof
  fix x :: "string \<times> string"
  obtain t w where x: "x = (t, w)" by (cases x)
  from find_same [OF assms, of "walletKey t w"] show "state_view key ms' x = state_view key ms x"
    by (cases rule: option.rel_cases) (simp_all add: x state_view_def same_secrets_def)
qed

definition state_in :: "string option \<Rightarrow> walletMeta list" where
  "state_in f = (case f of None \<Rightarrow> [] | Some raw \<Rightarrow> (case unmarshal_state raw of Inl _ \<Rightarrow> [] | Inr ms \<Rightarrow> ms))"

lemma persisted_state_in: "persisted s = state_in (lookup_file s (statePath s))"
  by (simp add: persisted_def state_in_def split: option.split)

lemma saved_persisted:
  assumes "saved s" and "list_all wf_meta (s_state s)"
  shows "persisted s = s_state s"
  using assms by (simp add: saved_def persisted_def unmarshal_MarshalIndent_state)

lemma save_saved:
  assumes "saveStateLocked s = (Inr (), s')"
  shows "saved s'"
proof -
  obtain f where s': "s' = s\<lparr>files := f\<rparr>"
    and f: "lookup_file s' (statePath s) = Some (json_MarshalIndent (state_json (s_state s)))"
    using save_cases [OF assms] by blast
  have "statePath s' = statePath s" and "s_state s' = s_state s"
    by (simp_all add: s' statePath_def)
  with f show ?thesis by (simp add: saved_def)
qed

lemma loaded_sealed:
  assumes "load_inv (length (s_state s)) s" and "m \<in> set (s_state s)"
  shows "sealed_meta (DataKey (s_opts s)) m \<and> lookup_wallet s (meta_key m) \<noteq> None"
  using assms by (auto simp: load_inv_def in_set_conv_nth)

lemma withDefaults_files:
  assumes "withDefaults o' d h = (Inr r, h')"
  shows "lookup_file h' (filepath_Join d ''bsvms-wallets.json'') = lookup_file h (filepath_Join d ''bsvms-wallets.json'')"
    and "read_fault h' = read_fault h"
proof -
  obtain k s h1 where
    1: "if DataKey o' = [] then loadOrCreateSecret (filepath_Join d ''data.key'') h = (Inr k, h1)
        else k = DataKey o' \<and> h1 = h" and
    2: "if AuthEnabled o' \<and> JWTSecret o' = [] then loadOrCreateSecret (filepath_Join d ''jwt.secret'') h1 = (Inr s, h')
        else s = JWTSecret o' \<and> h' = h1"
    using withDefaults_success [OF assms] by blast
  let ?f = "filepath_Join d ''bsvms-wallets.json''"
  have a: "lookup_file h1 ?f = lookup_file h ?f \<and> read_fault h1 = read_fault h"
    using 1 loadOrCreateSecret_fields [of "filepath_Join d ''data.key''" h k h1] by (auto split: if_splits)
  have b: "lookup_file h' ?f = lookup_file h1 ?f \<and> read_fault h' = read_fault h1"
    using 2 loadOrCreateSecret_fields [of "filepath_Join d ''jwt.secret''" h1 s h'] by (auto split: if_splits)
  from a b show "lookup_file h' ?f = lookup_file h ?f" and "read_fault h' = read_fault h" by simp_all
qed

text \<open>Everything a successful construction establishes.\<close>

lemma new_success:
  assumes "NewWithOptions A n d o' h = (Inr u, s)" and "honest_reads h"
  shows "registry_inv s" and "s_dataDir s = d" and "\<exists>h'. withDefaults o' d h = (Inr (s_opts s), h')"
    and "map meta_key (s_state s) = map meta_key (state_in (lookup_file h (filepath_Join d ''bsvms-wallets.json'')))"
    and "distinct (map meta_key (state_in (lookup_file h (filepath_Join d ''bsvms-wallets.json'')))) \<Longrightarrow>
       list_all2 (same_secrets (DataKey (s_opts s))) (state_in (lookup_file h (filepath_Join d ''bsvms-wallets.json''))) (s_state s)"
    and "persisted s = s_state s \<or> saved s"
proof -
  let ?loaded = "state_in (lookup_file h (filepath_Join d ''bsvms-wallets.json''))"
  obtain r h1 where wd: "withDefaults o' d h = (Inr r, h1)" and st: "start_service A (fresh_service n d r h1) = (Inr u, s)"
    using assms(1) by (auto simp: NewWithOptions_def split: prod.splits sum.splits)
  have key: "length (DataKey r) = 32"
    using withDefaults_success [OF wd] by auto
  then have key': "length (DataKey (s_opts (fresh_service n d r h1))) = 32" by simp
  have honest: "honest_reads (fresh_service n d r h1)"
    using assms(2) withDefaults_files(2) [OF wd] by (simp add: honest_reads_def)
  have loaded: "persisted (fresh_service n d r h1) = ?loaded"
    using withDefaults_files(1) [OF wd]
    by (simp add: persisted_state_in statePath_def lookup_file_def)
  obtain s1 s2 mig where s1: "s_state s1 = ?loaded" "s_opts s1 = r" "s_dataDir s1 = d" "files s1 = files h1"
    and fr: "load_frame s1 s2" and inv: "load_inv (length (s_state s1)) s2"
    and unmig: "\<not> mig \<longrightarrow> s_state s2 = s_state s1"
    and fin: "if mig then saveStateLocked s2 = (Inr (), s) else s = s2"
    using start_success [OF st honest fresh_service_fields(5) key', unfolded loaded fresh_service_fields] by blast
  have s: "\<exists>f. s = s2\<lparr>files := f\<rparr>"
    using fin save_cases [of s2 "Inr ()" s] by (cases mig) (auto intro: exI [of _ "files s2"])
  have len: "length (s_state s1) = length (s_state s2)"
    using fr by (metis load_frame_def length_map)
  have inv2: "registry_inv s2"
    using fr inv loaded_sealed [of s2] key s1(2) by (auto simp: registry_inv_def load_inv_def load_frame_def len)
  then show "registry_inv s" using s by auto
  show "s_dataDir s = d" and "\<exists>h'. withDefaults o' d h = (Inr (s_opts s), h')"
    using s fr s1 wd by (auto simp: load_frame_def)
  show "map meta_key (s_state s) = map meta_key ?loaded"
    using s fr s1 by (auto simp: load_frame_def)
  show "list_all2 (same_secrets (DataKey (s_opts s))) ?loaded (s_state s)" if "distinct (map meta_key ?loaded)"
    using that s fr s1 by (auto simp: load_frame_def unique_state_def)
  show "persisted s = s_state s \<or> saved s"
  proof (cases mig)
    case True
    with fin have "saveStateLocked s2 = (Inr (), s)" by simp
    then show ?thesis by (intro disjI2 save_saved)
  next
    case False
    with fin have "s = s2" by simp
    moreover from this have "s_state s = ?loaded"
      using False unmig s1(1) by simp
    moreover have "persisted s2 = ?loaded"
      using fr s1 loaded by (simp add: load_frame_def persisted_state_in statePath_def lookup_file_def)
    ultimately show ?thesis by simp
  qed
qed

lemma new_vault:
  assumes "NewWithOptions A n d o' h = (Inr u, s)" and "honest_reads h"
    and "distinct (map meta_key (state_in (lookup_file h (filepath_Join d ''bsvms-wallets.json''))))"
  shows "unique_state s"
    and "vault s = state_view (DataKey (s_opts s)) (state_in (lookup_file h (filepath_Join d ''bsvms-wallets.json'')))"
proof -
  show u: "unique_state s"
    using new_success(4) [OF assms(1,2)] assms(3) by (simp add: unique_state_def)
  show "vault s = state_view (DataKey (s_opts s)) (state_in (lookup_file h (filepath_Join d ''bsvms-wallets.json'')))"
    using vault_by_state [OF new_success(1) [OF assms(1,2)] u] state_view_same [OF new_success(5) [OF assms]] by simp
qed

section \<open>Addresses in index order\<close>

lemma unseen_spec:
  assumes "sorted (map se_Index ys)"
  shows "\<exists>es. unseen seen ys = map se_Address es \<and> set es \<subseteq> set ys \<and> sorted (map se_Index es)
     \<and> distinct (map se_Address es) \<and> se_Address ` set es = se_Address ` set ys - set seen
     \<and> (\<forall>e \<in> set es. \<forall>e' \<in> set ys. se_Address e' = se_Address e \<longrightarrow> se_Index e \<le> se_Index e')"
  using assms
proof (induction ys arbitrary: seen)
  case (Cons y ys)
  then have le: "\<forall>e \<in> set ys. se_Index y \<le> se_Index e" and srt: "sorted (map se_Index ys)" by auto
  show ?case
  proof (cases "se_Address y \<in> set seen")
    case True
    from Cons.IH [OF srt, of seen] obtain es where "unseen seen ys = map se_Address es" "set es \<subseteq> set ys"
      "sorted (map se_Index es)" "distinct (map se_Address es)" and im: "se_Address ` set es = se_Address ` set ys - set seen"
      "\<forall>e \<in> set es. \<forall>e' \<in> set ys. se_Address e' = se_Address e \<longrightarrow> se_Index e \<le> se_Index e'" by blast
    moreover have "se_Address e \<noteq> se_Address y" if "e \<in> set es" for e
      using that im(1) True by (metis Diff_iff image_eqI)
    ultimately show ?thesis using True by (intro exI [of _ es]) auto
  next
    case False
    from Cons.IH [OF srt, of "se_Address y # seen"] obtain es where
      "unseen (se_Address y # seen) ys = map se_Address es" "set es \<subseteq> set ys"
      "sorted (map se_Index es)" "distinct (map se_Address es)"
      and im: "se_Address ` set es = se_Address ` set ys - set (se_Address y # seen)"
      "\<forall>e \<in> set es. \<forall>e' \<in> set ys. se_Address e' = se_Address e \<longrightarrow> se_Index e \<le> se_Index e'" by blast
    moreover have "se_Address e \<noteq> se_Address y" if "e \<in> set es" for e
      using that im(1) by (metis Diff_iff image_eqI list.set_intros(1))
    ultimately show ?thesis using False le
      by (intro exI [of _ "y # es"]) (auto 4 4)
  qed
qed simp

text \<open>
  What \<^verbatim>\<open>sort.Slice\<close> promises: a permutation sorted by the key. Entries with equal index may come in any
  order.
\<close>

locale slice_sort =
  fixes srt :: "bsv_SnapshotEntry list \<Rightarrow> bsv_SnapshotEntry list"
  assumes srt_set: "set (srt xs) = set xs" and srt_sorted: "sorted (map se_Index (srt xs))"
begin

lemma listed_once:
  "\<exists>es. unseen [] (srt xs) = map se_Address es \<and> set es \<subseteq> set xs \<and> sorted (map se_Index es)
     \<and> distinct (map se_Address es) \<and> se_Address ` set es = se_Address ` set xs
     \<and> (\<forall>e \<in> set es. \<forall>e' \<in> set xs. se_Address e' = se_Address e \<longrightarrow> se_Index e \<le> se_Index e')"
  using unseen_spec [OF srt_sorted, of "[]" xs] by (simp add: srt_set)

end

interpretation by_index: slice_sort "sort_key se_Index"
  by unfold_locales simp_all

section \<open>Lookup and listing\<close>

lemma walletKey_valid:
  assumes "idRE t" and "idRE w" and "walletKey t w = walletKey t' w'"
  shows "t' = t \<and> w' = w"
proof -
  have "CHR 0x00 \<notin> set w" using assms(2) by (rule idRE_no_NUL)
  then have "CHR 0x00 \<notin> set t'"
  proof (rule contrapos_nn)
    assume "CHR 0x00 \<in> set t'"
    then obtain a b where t': "t' = a @ CHR 0x00 # b" and a: "CHR 0x00 \<notin> set a"
      by (meson split_list_first)
    have "t = a \<and> w = b @ CHR 0x00 # w'"
      using append_sep_eq [OF idRE_no_NUL [OF assms(1)] a] assms(3) by (simp add: walletKey_def t')
    then show "CHR 0x00 \<in> set w" by simp
  qed
  then show ?thesis
    using walletKey_tenant [OF assms(1), of t' w w'] assms(3) by simp
qed

lemma lookup_identity:
  assumes "registry_inv s" and "idRE t" and "idRE w" and "lookup_wallet s (walletKey t w) = Some tw"
  shows "TenantID (tw_meta tw) = t \<and> WalletID (tw_meta tw) = w"
  using assms walletKey_valid [OF assms(2,3)]
  by (auto simp: registry_inv_def live_inv_def meta_key_def)

lemma tenant_keys_spec:
  assumes "distinct (map fst (s_wallets s))"
  shows "sorted (tenant_keys t s)" and "distinct (tenant_keys t s)"
    and "set (tenant_keys t s) = {k. \<exists>tw. lookup_wallet s k = Some tw \<and> TenantID (tw_meta tw) = t}"
proof -
  show "sorted (tenant_keys t s)" by (simp add: tenant_keys_def)
  show "distinct (tenant_keys t s)"
    using assms by (simp add: tenant_keys_def distinct_map_filter)
  show "set (tenant_keys t s) = {k. \<exists>tw. lookup_wallet s k = Some tw \<and> TenantID (tw_meta tw) = t}"
    using assms by (force simp: tenant_keys_def lookup_wallet_def)
qed

section \<open>A running example\<close>

definition demo_opts :: Options where
  "demo_opts = defaultOptions\<lparr>DataKey := replicate 32 1\<rparr>"

definition demo_service :: "nat service" where
  "demo_service = fresh_service 0 ''data'' demo_opts (quiet_host (replicate 200 7))"

definition demo_req :: TenantWallet where
  "demo_req = \<lparr>tenant_id = ''acme'', wallet_id = ''hot''\<rparr>"

lemma demo_ids: "idRE ''acme''" "idRE ''hot''"
  by (simp_all add: id_first_def id_rest_def byte_val_def)

lemma demo_service_host [simp]:
  "entropy demo_service = replicate 200 7" "write_fault demo_service = (\<lambda>_. None)"
  "rename_fault demo_service = (\<lambda>_. None)" "read_fault demo_service = (\<lambda>_. None)" "files demo_service = []"
  "s_opts demo_service = demo_opts" "s_state demo_service = []" "s_wallets demo_service = []"
  "s_dataDir demo_service = ''data''" "s_node demo_service = 0" "wallet_events demo_service = []"
  by (simp_all add: demo_service_def fresh_service_def host.defs service.defs quiet_host_def)

lemma demo_key [simp]: "DataKey demo_opts = replicate 32 1" "AuthEnabled demo_opts = False"
  by (simp_all add: demo_opts_def defaultOptions_def)

lemma demo_inv: "registry_inv demo_service" "unique_state demo_service" "list_all wf_meta (s_state demo_service)"
  by (simp_all add: registry_inv_def live_inv_def lookup_wallet_def unique_state_def)

lemma attach_demo: "\<exists>n. attachWalletLocked demo_sdk m w s =
   (let tw = \<lparr>tw_meta = m, tw_w = w, tw_store = 0, tw_rescanning = False\<rparr> in
    (Inr tw, s\<lparr>s_node := n, s_wallets := AList.update (walletKey (TenantID m) (WalletID m)) tw (s_wallets s),
        wallet_events := wallet_events s @ [(w, TenantID m, WalletID m)]\<rparr>))"
  by (intro exI [of _ "s_node s"])
    (simp add: attachWalletLocked_def act_simps Let_def internalE_def sdkE_def sdkQ_def sdkU_def
      registerWalletEvents_def)

lemma seal_demo:
  assumes "length key = 32" and "12 \<le> length (entropy h)"
  shows "\<exists>c. sealString key p h = (Inr c, if p = [] then h else h\<lparr>entropy := drop 12 (entropy h)\<rparr>)"
  using assms sealString_success [of key p h] by auto

lemma record_demo:
  assumes "write_fault s = (\<lambda>_. None)" and "rename_fault s = (\<lambda>_. None)"
  shows "\<exists>tok s'. record_wallet demo_sdk m tw s = (Inr tok, s')"
proof -
  have "\<exists>s1. saveStateLocked (s\<lparr>s_state := s_state s @ [m]\<rparr>) = (Inr (), s1)"
    using assms by (simp add: saveStateLocked_def act_simps Let_def os_WriteFile_def os_Rename_def)
  then obtain s1 where s1: "saveStateLocked (s\<lparr>s_state := s_state s @ [m]\<rparr>) = (Inr (), s1)" by blast
  have s2: "tryE (saveSnapshotLocked demo_sdk tw) s1 = (Inr (Inr ()), s1)"
    by (simp add: saveSnapshotLocked_def act_simps sdkQ_def sdkE_def)
  show ?thesis
    using tokensForWallet_outcome [of m s1] s1 s2
    by (auto simp: record_wallet_def bindE_apply modifyS_apply internalE_def)
qed

text \<open>A service of the example that can register \<open>k\<close> more wallets, and keeps being one.\<close>

definition able :: "nat \<Rightarrow> nat service \<Rightarrow> bool" where
  "able k s \<longleftrightarrow> s_opts s = demo_opts \<and> write_fault s = (\<lambda>_. None) \<and> rename_fault s = (\<lambda>_. None) \<and> 12 * k \<le> length (entropy s)"

lemma record_able:
  assumes "able k s"
  shows "\<exists>s'. record_wallet demo_sdk m tw s = (Inr None, s') \<and> able k s'"
proof -
  have "\<exists>s1. saveStateLocked (s\<lparr>s_state := s_state s @ [m]\<rparr>) = (Inr (), s1) \<and> able k s1"
    using assms by (simp add: able_def saveStateLocked_def act_simps Let_def os_WriteFile_def os_Rename_def) (simp add: put_file_def)
  then obtain s1 where s1: "saveStateLocked (s\<lparr>s_state := s_state s @ [m]\<rparr>) = (Inr (), s1)" "able k s1" by blast
  have "tryE (saveSnapshotLocked demo_sdk tw) s1 = (Inr (Inr ()), s1)"
    by (simp add: saveSnapshotLocked_def act_simps sdkQ_def sdkE_def)
  moreover have "tokensForWallet m s1 = (Inr None, s1)"
    using s1(2) by (simp add: able_def tokensForWallet_def act_simps)
  ultimately show ?thesis
    using s1 by (simp add: record_wallet_def bindE_apply modifyS_apply internalE_def)
qed

lemma create_able:
  assumes "idRE t" and "idRE w" and "able (Suc k) s" and "lookup_wallet s (walletKey t w) = None"
  shows "\<exists>resp s'. CreateWallet demo_sdk \<lparr>tenant_id = t, wallet_id = w\<rparr> s = (Inr resp, s') \<and> able k s'"
proof -
  let ?s1 = "s\<lparr>s_node := Suc (s_node s)\<rparr>" and ?name = "sdkWalletName t w"
  let ?s2 = "?s1\<lparr>entropy := drop 12 (entropy s)\<rparr>"
  obtain c where c: "sealString (replicate 32 1) ''legal winner thank'' ?s1 = (Inr c, ?s2)"
    using seal_demo [of "replicate 32 1" ?s1 "''legal winner thank''"] assms(3) by (auto simp: able_def)
  then obtain m where m: "newWalletMeta t w ?name ''legal winner thank'' [] ?s1 = (Inr m, ?s2)"
    using assms(3) by (simp add: newWalletMeta_def act_simps able_def)
  obtain tw s3 where a: "attachWalletLocked demo_sdk m (s_node s) ?s2 = (Inr tw, s3)" "able k s3"
    using attach_demo [of m "s_node s" ?s2] assms(3) by (auto simp: Let_def able_def)
  obtain s4 where r: "record_wallet demo_sdk m tw s3 = (Inr None, s4)" "able k s4"
    using record_able [OF a(2)] by blast
  have v: "validateTenantWallet t w = Inr ()"
    using assms(1,2) by (simp add: validateTenantWallet_ok)
  show ?thesis
    using r(2) by (simp add: CreateWallet_def act_simps Let_def internalE_def sdkE_def sdkQ_def v m a(1) r(1) assms(4))
qed

lemma able_demo: "able 16 demo_service"
  by (simp add: able_def)

lemma create_any:
  assumes "idRE t" and "idRE w"
  shows "\<exists>resp s'. CreateWallet demo_sdk \<lparr>tenant_id = t, wallet_id = w\<rparr> demo_service = (Inr resp, s')"
  using create_able [OF assms, of 15 demo_service] able_demo by (auto simp: lookup_wallet_def)

lemma create_demo: "\<exists>resp s'. CreateWallet demo_sdk demo_req demo_service = (Inr resp, s')"
  using create_any [OF demo_ids] by (simp add: demo_req_def)

lemma restore_call_demo:
  "\<exists>resp s'. RestoreWallet demo_sdk \<lparr>tenant_id = ''acme'', wallet_id = ''hot'',
      RestoreWalletReq_mnemonic = ''zoo zoo wrong'', RestoreWalletReq_passphrase = ''pw''\<rparr> demo_service = (Inr resp, s')"
proof -
  let ?name = "sdkWalletName ''acme'' ''hot''" and ?s1 = "demo_service\<lparr>entropy := replicate 188 7\<rparr>"
  let ?s2 = "demo_service\<lparr>entropy := replicate 176 7\<rparr>"
  obtain c where c: "sealString (replicate 32 1) ''zoo zoo wrong'' demo_service = (Inr c, ?s1)"
    using seal_demo [of "replicate 32 1" demo_service "''zoo zoo wrong''"] by auto
  obtain c' where c': "sealString (replicate 32 1) ''pw'' ?s1 = (Inr c', ?s2)"
    using seal_demo [of "replicate 32 1" ?s1 "''pw''"] by auto
  from c c' obtain m where m: "newWalletMeta ''acme'' ''hot'' ?name ''zoo zoo wrong'' ''pw'' demo_service = (Inr m, ?s2)"
    by (simp add: newWalletMeta_def act_simps)
  obtain tw s3 where a: "attachWalletLocked demo_sdk m 0 (?s2\<lparr>s_node := Suc 0\<rparr>) = (Inr tw, s3)"
    "write_fault s3 = (\<lambda>_. None)" "rename_fault s3 = (\<lambda>_. None)"
    using attach_demo [of m 0 "?s2\<lparr>s_node := Suc 0\<rparr>"] by (auto simp: Let_def)
  obtain tok s4 where r: "record_wallet demo_sdk m tw s3 = (Inr tok, s4)"
    using record_demo [OF a(2,3)] by blast
  have v: "validateTenantWallet ''acme'' ''hot'' = Inr ()"
    using demo_ids by (simp add: validateTenantWallet_ok)
  show ?thesis
    by (simp add: RestoreWallet_def act_simps Let_def internalE_def sdkE_def sdkQ_def v m a(1) r
        lookup_wallet_def)
qed

lemma restore_demo:
  assumes "sealed_meta (DataKey (s_opts s)) m"
  shows "\<exists>tw s'. restoreLoadedWallet demo_sdk m s = (Inr tw, s') \<and> s_state s' = s_state s \<and> s_opts s' = s_opts s"
proof -
  obtain p where p: "openWalletSecrets (DataKey (s_opts s)) m = Inr p" and np: "\<not> has_plaintext m"
    using assms by (auto simp: sealed_meta_def)
  obtain mn pp where pp: "p = (mn, pp)" by (cases p)
  obtain n where "attachWalletLocked demo_sdk m (s_node s) (s\<lparr>s_node := Suc (s_node s)\<rparr>) =
   (let tw = \<lparr>tw_meta = m, tw_w = s_node s, tw_store = 0, tw_rescanning = False\<rparr> in
    (Inr tw, s\<lparr>s_node := Suc (s_node s)\<rparr>\<lparr>s_node := n, s_wallets := AList.update (walletKey (TenantID m) (WalletID m)) tw (s_wallets s),
        wallet_events := wallet_events s @ [(s_node s, TenantID m, WalletID m)]\<rparr>))"
    using attach_demo [of m "s_node s" "s\<lparr>s_node := Suc (s_node s)\<rparr>"] by auto
  with p np pp show ?thesis
    by (simp add: restoreLoadedWallet_def act_simps sdkE_def Let_def)
qed

lemma load_demo:
  assumes "\<forall>m \<in> set (s_state s). sealed_meta (DataKey (s_opts s)) m" and "\<forall>i \<in> set is. i < length (s_state s)"
  shows "\<exists>mig s'. load_wallets demo_sdk is False s = (Inr mig, s') \<and> \<not> mig"
  using assms
proof (induction "is" arbitrary: s)
  case (Cons i "is")
  have m: "sealed_meta (DataKey (s_opts s)) (s_state s ! i)"
    using Cons.prems by simp
  then obtain tw s1 where s1: "restoreLoadedWallet demo_sdk (s_state s ! i) s = (Inr tw, s1)"
      "s_state s1 = s_state s" "s_opts s1 = s_opts s"
    using restore_demo by blast
  have "\<not> has_plaintext (s_state s ! i)"
    using m by (simp add: sealed_meta_def)
  moreover have "\<exists>mig s'. load_wallets demo_sdk is False s1 = (Inr mig, s') \<and> \<not> mig"
    using Cons.IH [of s1] Cons.prems s1 by simp
  ultimately show ?case
    using s1 by (auto simp: act_simps wrapE_def)
qed (auto simp: act_simps)

lemma new_demo:
  assumes "\<forall>m \<in> set (state_in (lookup_file h (filepath_Join d ''bsvms-wallets.json''))). sealed_meta (DataKey o') m"
    and "length (DataKey o') = 32" and "\<not> AuthEnabled o'" and "read_fault h = (\<lambda>_. None)" and "mkdir_fault h = (\<lambda>_. None)"
    and "lookup_file h (filepath_Join d ''bsvms-wallets.json'') = Some raw" and "unmarshal_state raw = Inr ms"
    and "BroadcastFanout o' = 0" and "\<not> DisablePendingTxTracking o'"
  shows "\<exists>s. NewWithOptions demo_sdk 0 d o' h = (Inr (), s)"
proof -
  let ?s = "fresh_service (0::nat) d (ttl_defaults o') h"
  have ld: "loadState ?s = (Inr (), ?s\<lparr>s_state := ms\<rparr>)"
    using assms(4,6,7)
    by (simp add: loadState_def act_simps os_ReadFile_def statePath_def lookup_file_def)
  let ?s1 = "?s\<lparr>s_state := ms, node_events := True\<rparr>"
  have sealed: "\<forall>m \<in> set (s_state ?s1). sealed_meta (DataKey (s_opts ?s1)) m"
    using assms(1,6,7) by (simp add: state_in_def ttl_defaults_def)
  obtain mig s' where l: "load_wallets demo_sdk [0..<length ms] False ?s1 = (Inr mig, s') \<and> \<not> mig"
    using load_demo [OF sealed, of "[0..<length ms]"] by auto
  have mk: "os_MkdirAll p ?s = (Inr (), ?s)" for p
    using assms(5) by (simp add: os_MkdirAll_def fresh_service_def host.defs)
  have "BroadcastFanout (ttl_defaults o') = 0" and "\<not> DisablePendingTxTracking (ttl_defaults o')"
    using assms(8,9) by (simp_all add: ttl_defaults_def)
  with l ld mk have "start_service demo_sdk ?s = (Inr (), s')"
    by (simp add: start_service_def act_simps registerNodeEvents_def)
  then show ?thesis
    using withDefaults_given [OF assms(2,3), of d h] by (simp add: NewWithOptions_def)
qed

lemma create_demo_host:
  assumes "CreateWallet demo_sdk demo_req demo_service = (Inr resp, s')"
  shows "s_opts s' = demo_opts" and "s_dataDir s' = ''data''"
  using create.add_success(4) [OF assms] unfolding enrolled_def by auto

section \<open>Properties\<close>

text \<open>The record a successful call adds, and the file it leaves.\<close>

lemma enrolled_record:
  assumes "enrolled t w secrets s s'" and "saved s'"
  shows "\<exists>m. s_state s' = s_state s @ [m] \<and> TenantID m = t \<and> WalletID m = w \<and> Mnemonic m = [] \<and> Passphrase m = []
    \<and> openWalletSecrets (DataKey (s_opts s)) m = Inr secrets
    \<and> lookup_file s' (statePath s) = Some (json_MarshalIndent (state_json (s_state s @ [m])))"
proof -
  obtain tw :: tenantWallet where tw: "TenantID (tw_meta tw) = t" "WalletID (tw_meta tw) = w" "\<not> has_plaintext (tw_meta tw)"
      "openWalletSecrets (DataKey (s_opts s)) (tw_meta tw) = Inr secrets" "s_state s' = s_state s @ [tw_meta tw]"
    using enrolled_lookup [OF assms(1)] by blast
  have "statePath s' = statePath s" using assms(1) by (auto simp: enrolled_def statePath_def)
  with tw assms(2) show ?thesis by (intro exI [of _ "tw_meta tw"]) (simp add: saved_def has_plaintext_def)
qed

text \<open>
  C3. Creating a wallet refines an insertion into the vault, the map from wallet identities to their
  secrets: a call that succeeds was for a well-formed identity that had no wallet, the vault
  afterwards is the old one with exactly the returned mnemonic added, every wallet that was there is
  untouched, and the state file holds the old list followed by one record: it names the new wallet, keeps
  no plaintext, and opens under the data key to the returned mnemonic.
\<close>

theorem create_refines_vault:
  assumes "CreateWallet A req s = (Inr resp, s')"
  shows "idRE (tenant_id req) \<and> idRE (wallet_id req) \<and> vault s (tenant_id req, wallet_id req) = None
    \<and> vault s' = (vault s)((tenant_id req, wallet_id req) \<mapsto> (CreateWalletResp_mnemonic resp, []))
    \<and> (\<forall>k tw. lookup_wallet s k = Some tw \<longrightarrow> lookup_wallet s' k = Some tw)
    \<and> (\<exists>m. s_state s' = s_state s @ [m] \<and> TenantID m = tenant_id req \<and> WalletID m = wallet_id req
         \<and> Mnemonic m = [] \<and> Passphrase m = []
         \<and> openWalletSecrets (DataKey (s_opts s)) m = Inr (CreateWalletResp_mnemonic resp, [])
         \<and> lookup_file s' (statePath s) = Some (json_MarshalIndent (state_json (s_state s @ [m]))))"
proof (intro conjI)
  note c = create.add_success [OF assms]
  show "idRE (tenant_id req)" "idRE (wallet_id req)"
    and "vault s' = (vault s)((tenant_id req, wallet_id req) \<mapsto> (CreateWalletResp_mnemonic resp, []))"
    using c by simp_all
  show "vault s (tenant_id req, wallet_id req) = None"
    using c(3) by (simp add: vault_def secrets_view_def)
  show "\<forall>k tw. lookup_wallet s k = Some tw \<longrightarrow> lookup_wallet s' k = Some tw"
    using create.add_keeps_wallets [OF assms] by blast
qed (rule enrolled_record [OF create.add_success(4,5) [OF assms]])

theorem create_refines_vault_witness:
  "\<exists>resp s' m. CreateWallet demo_sdk demo_req demo_service = (Inr resp, s')
    \<and> vault s' = (vault demo_service)((''acme'', ''hot'') \<mapsto> (CreateWalletResp_mnemonic resp, []))
    \<and> lookup_file s' (statePath demo_service) = Some (json_MarshalIndent (state_json [m])) \<and> WalletID m = ''hot''"
proof -
  obtain resp s' where "CreateWallet demo_sdk demo_req demo_service = (Inr resp, s')"
    using create_demo by blast
  with create_refines_vault [OF this] show ?thesis by (auto simp: demo_req_def)
qed

text \<open>
  C15. Restoring a wallet refines the same insertion, with the mnemonic and passphrase of the request
  as the secrets added, in memory and, sealed, in the state file.
\<close>

theorem restore_refines_vault:
  assumes "RestoreWallet A req s = (Inr resp, s')"
  shows "idRE (tenant_id req) \<and> idRE (wallet_id req) \<and> vault s (tenant_id req, wallet_id req) = None
    \<and> vault s' = (vault s)((tenant_id req, wallet_id req)
         \<mapsto> (RestoreWalletReq_mnemonic req, RestoreWalletReq_passphrase req))
    \<and> (\<forall>k tw. lookup_wallet s k = Some tw \<longrightarrow> lookup_wallet s' k = Some tw)
    \<and> (\<exists>m. s_state s' = s_state s @ [m] \<and> TenantID m = tenant_id req \<and> WalletID m = wallet_id req
         \<and> Mnemonic m = [] \<and> Passphrase m = []
         \<and> openWalletSecrets (DataKey (s_opts s)) m = Inr (RestoreWalletReq_mnemonic req, RestoreWalletReq_passphrase req)
         \<and> lookup_file s' (statePath s) = Some (json_MarshalIndent (state_json (s_state s @ [m]))))
    \<and> lookup_file s' (statePath s') = Some (json_MarshalIndent (state_json (s_state s')))"
proof (intro conjI)
  note c = restore.add_success [OF assms]
  show "idRE (tenant_id req)" "idRE (wallet_id req)"
    and "vault s' = (vault s)((tenant_id req, wallet_id req)
         \<mapsto> (RestoreWalletReq_mnemonic req, RestoreWalletReq_passphrase req))"
    and "lookup_file s' (statePath s') = Some (json_MarshalIndent (state_json (s_state s')))"
    using c by (simp_all add: saved_def)
  show "vault s (tenant_id req, wallet_id req) = None"
    using c(3) by (simp add: vault_def secrets_view_def)
  show "\<forall>k tw. lookup_wallet s k = Some tw \<longrightarrow> lookup_wallet s' k = Some tw"
    using restore.add_keeps_wallets [OF assms] by blast
qed (rule enrolled_record [OF restore.add_success(4,5) [OF assms]])

theorem restore_refines_vault_witness:
  "\<exists>resp s'. RestoreWallet demo_sdk \<lparr>tenant_id = ''acme'', wallet_id = ''hot'',
      RestoreWalletReq_mnemonic = ''zoo zoo wrong'', RestoreWalletReq_passphrase = ''pw''\<rparr> demo_service = (Inr resp, s')
    \<and> vault s' = (vault demo_service)((''acme'', ''hot'') \<mapsto> (''zoo zoo wrong'', ''pw''))"
proof -
  obtain resp s' where "RestoreWallet demo_sdk \<lparr>tenant_id = ''acme'', wallet_id = ''hot'',
      RestoreWalletReq_mnemonic = ''zoo zoo wrong'', RestoreWalletReq_passphrase = ''pw''\<rparr> demo_service = (Inr resp, s')"
    using restore_call_demo by blast
  with restore_refines_vault [OF this] show ?thesis by simp
qed

text \<open>
  C5. Starting the service establishes the registry invariant and completes the migration of legacy
  plaintext secrets: no record in memory or in the state file carries a plaintext mnemonic or
  passphrase any more, and no secret is lost on the way, since the vault is the one the loaded file
  described. (The records of the file are taken to name each wallet once, in ASCII.)
\<close>

theorem start_seals_everything:
  assumes "NewWithOptions A n d options h = (Inr (), s)" and "honest_reads h"
    and "loaded = state_in (lookup_file h (filepath_Join d ''bsvms-wallets.json''))"
    and "distinct (map meta_key loaded)" and "list_all wf_meta loaded"
  shows "registry_inv s \<and> unique_state s \<and> vault s = state_view (DataKey (s_opts s)) loaded
    \<and> persisted s = s_state s \<and> (\<forall>m \<in> set (persisted s). Mnemonic m = [] \<and> Passphrase m = [])"
proof -
  have inv: "registry_inv s"
    using new_success(1) [OF assms(1,2)] .
  have v: "unique_state s" "vault s = state_view (DataKey (s_opts s)) loaded"
    using new_vault [OF assms(1,2)] assms(3,4) by simp_all
  have "list_all wf_meta (s_state s)"
    using new_success(5) [OF assms(1,2)] assms(3-5)
    by (auto simp: list_all_length list_all2_conv_all_nth same_secrets_def)
  then have "persisted s = s_state s"
    using new_success(6) [OF assms(1,2)] saved_persisted by blast
  with inv v show ?thesis
    by (auto simp: registry_inv_def sealed_meta_def has_plaintext_def)
qed

definition legacy_meta :: walletMeta where
  "legacy_meta = \<lparr>TenantID = ''acme'', WalletID = ''hot'', SDKName = ''bsvms:old'', Mnemonic = ''zoo zoo wrong'',
     Passphrase = [], MnemonicCiphertext = [], PassphraseCiphertext = []\<rparr>"

definition legacy_host :: host where
  "legacy_host = (quiet_host (replicate 12 7))\<lparr>files :=
     [(filepath_Join ''data'' ''bsvms-wallets.json'', json_MarshalIndent (state_json [legacy_meta]))]\<rparr>"

lemma legacy_wf: "wf_meta legacy_meta"
  by (simp add: wf_meta_def legacy_meta_def byte_val_def)

lemma legacy_loaded:
  "state_in (lookup_file legacy_host (filepath_Join ''data'' ''bsvms-wallets.json'')) = [legacy_meta]"
  using unmarshal_MarshalIndent_state [of "[legacy_meta]"] legacy_wf
  by (simp add: state_in_def legacy_host_def lookup_file_def)

lemma legacy_start: "\<exists>s. NewWithOptions demo_sdk 0 ''data'' demo_opts legacy_host = (Inr (), s)"
proof -
  let ?o = "ttl_defaults demo_opts"
  let ?s = "fresh_service (0::nat) ''data'' ?o legacy_host"
  let ?s1 = "?s\<lparr>s_state := [legacy_meta], node_events := True\<rparr>"
  have o: "DataKey ?o = replicate 32 1" "BroadcastFanout ?o = 0" "\<not> DisablePendingTxTracking ?o"
    by (simp_all add: ttl_defaults_def demo_opts_def defaultOptions_def)
  have hs: "entropy ?s = replicate 12 7" "write_fault ?s = (\<lambda>_. None)" "rename_fault ?s = (\<lambda>_. None)"
      "mkdir_fault ?s = (\<lambda>_. None)" "s_node ?s = 0"
    by (simp_all add: fresh_service_def host.defs service.defs legacy_host_def quiet_host_def)
  have ld: "loadState ?s = (Inr (), ?s\<lparr>s_state := [legacy_meta]\<rparr>)"
  proof -
    have "read_fault ?s = (\<lambda>_. None)" and "lookup_file ?s (statePath ?s) = Some (json_MarshalIndent (state_json [legacy_meta]))"
      by (simp_all add: statePath_def lookup_file_def) (simp_all add: legacy_host_def quiet_host_def)
    then show ?thesis
      using unmarshal_MarshalIndent_state [of "[legacy_meta]"] legacy_wf
      by (simp add: loadState_def act_simps os_ReadFile_def)
  qed
  obtain c where c: "sealString (replicate 32 1) ''zoo zoo wrong'' (?s1\<lparr>s_node := Suc 0\<rparr>) = (Inr c, ?s1\<lparr>s_node := Suc 0, entropy := []\<rparr>)"
    using seal_demo [of "replicate 32 1" "?s1\<lparr>s_node := Suc 0\<rparr>" "''zoo zoo wrong''"] hs by auto
  then obtain m where m: "newWalletMeta (TenantID legacy_meta) (WalletID legacy_meta) (SDKName legacy_meta) ''zoo zoo wrong'' []
      (?s1\<lparr>s_node := Suc 0\<rparr>) = (Inr m, ?s1\<lparr>s_node := Suc 0, entropy := []\<rparr>)"
    using o by (simp add: newWalletMeta_def act_simps)
  have secrets: "openWalletSecrets k legacy_meta = Inr (''zoo zoo wrong'', [])" "has_plaintext legacy_meta" for k
    by (simp_all add: openWalletSecrets_def has_plaintext_def legacy_meta_def)
  have "\<exists>tw s2. restoreLoadedWallet demo_sdk legacy_meta ?s1 = (Inr tw, s2)
     \<and> write_fault s2 = (\<lambda>_. None) \<and> rename_fault s2 = (\<lambda>_. None)"
    using attach_demo [of m 0 "?s1\<lparr>s_node := Suc 0, entropy := [], s_state := map (\<lambda>x. if same_wallet x m then m else x) [legacy_meta]\<rparr>"] hs
    by (auto simp: restoreLoadedWallet_def act_simps sdkE_def secrets m Let_def)
  then obtain tw s2 where r: "restoreLoadedWallet demo_sdk legacy_meta ?s1 = (Inr tw, s2)"
    and f: "write_fault s2 = (\<lambda>_. None)" "rename_fault s2 = (\<lambda>_. None)" by blast
  have sv: "\<exists>s3. saveStateLocked s2 = (Inr (), s3)"
    using f by (simp add: saveStateLocked_def act_simps Let_def os_WriteFile_def os_Rename_def)
  have mk: "os_MkdirAll p ?s = (Inr (), ?s)" for p
    by (simp add: os_MkdirAll_def hs)
  have "\<exists>s3. start_service demo_sdk ?s = (Inr (), s3)"
    using o ld mk r sv secrets(2)
    by (simp add: start_service_def act_simps registerNodeEvents_def wrapE_def)
  then show ?thesis
    using withDefaults_given [of demo_opts "''data''" legacy_host] by (auto simp: NewWithOptions_def)
qed

theorem start_seals_everything_witness:
  "\<exists>s. NewWithOptions demo_sdk 0 ''data'' demo_opts legacy_host = (Inr (), s)
     \<and> vault s = state_view (DataKey (s_opts s)) [legacy_meta]
     \<and> persisted s = s_state s \<and> (\<forall>m \<in> set (persisted s). Mnemonic m = [] \<and> Passphrase m = [])"
proof -
  obtain s where s: "NewWithOptions demo_sdk 0 ''data'' demo_opts legacy_host = (Inr (), s)"
    using legacy_start by blast
  have "honest_reads legacy_host"
    by (simp add: honest_reads_def legacy_host_def quiet_host_def)
  from start_seals_everything [OF s this legacy_loaded [symmetric]] legacy_wf s show ?thesis by auto
qed

text \<open>
  What a call that adds a wallet may do to a service, whatever it answers: another wallet's entry is never
  touched; when the identity is taken the call fails and changes nothing; when it fails the state file is
  the old one; when it succeeds the identity was free and now has a wallet of that identity.
\<close>

definition adds_at_most :: "string \<Rightarrow> string \<Rightarrow> 'n service \<Rightarrow> 'a result \<Rightarrow> 'n service \<Rightarrow> bool" where
  "adds_at_most t w s r s' \<longleftrightarrow>
     (registry_inv s \<longrightarrow> registry_inv s')
     \<and> (\<forall>k. k \<noteq> walletKey t w \<longrightarrow> lookup_wallet s' k = lookup_wallet s k)
     \<and> (lookup_wallet s (walletKey t w) \<noteq> None \<longrightarrow> s' = s \<and> (\<exists>e. r = Inl e))
     \<and> (\<forall>e. r = Inl e \<longrightarrow> lookup_file s' (statePath s) = lookup_file s (statePath s))
     \<and> (\<forall>x. r = Inr x \<longrightarrow> idRE t \<and> idRE w \<and> lookup_wallet s (walletKey t w) = None
          \<and> (\<exists>tw. lookup_wallet s' (walletKey t w) = Some tw \<and> TenantID (tw_meta tw) = t \<and> WalletID (tw_meta tw) = w))"

lemma enroller_adds:
  assumes "enroller add tid wid secrets" and "add q s = (r, s')"
    and "lookup_wallet s (walletKey (tid q) (wid q)) \<noteq> None \<Longrightarrow> s' = s"
  shows "adds_at_most (tid q) (wid q) s r s'"
  unfolding adds_at_most_def
proof (intro conjI allI impI)
  note cases = enroller.add_cases [OF assms(1,2)]
  show "registry_inv s'" if "registry_inv s" using enroller.add_inv [OF assms(1,2) that] .
  show "lookup_wallet s' k = lookup_wallet s k" if "k \<noteq> walletKey (tid q) (wid q)" for k
    using cases
  proof (elim disjE conjE exE)
    fix sec
    assume "enrolled (tid q) (wid q) sec s s'"
    from enrolled_lookup [OF this] that show ?thesis by auto
  qed (simp add: quiet_keeps(3))
  show "s' = s" and "\<exists>e. r = Inl e" if "lookup_wallet s (walletKey (tid q) (wid q)) \<noteq> None"
    using assms(3) cases that by auto
  show "lookup_file s' (statePath s) = lookup_file s (statePath s)" if "r = Inl e" for e
    using enroller.add_failure_file [OF assms(1)] assms(2) that by metis
  fix x
  assume "r = Inr x"
  then have ok: "add q s = (Inr x, s')" using assms(2) by simp
  show "idRE (tid q)" "idRE (wid q)" "lookup_wallet s (walletKey (tid q) (wid q)) = None"
    using enroller.add_success(1-3) [OF assms(1) ok] .
  show "\<exists>tw. lookup_wallet s' (walletKey (tid q) (wid q)) = Some tw \<and> TenantID (tw_meta tw) = tid q \<and> WalletID (tw_meta tw) = wid q"
    using enrolled_lookup [OF enroller.add_success(4) [OF assms(1) ok]] by auto
qed

lemma taken_identity:
  assumes "lookup_wallet s (walletKey (tenant_id req) (wallet_id req)) \<noteq> None"
    and "idRE (tenant_id req)" and "idRE (wallet_id req)"
  shows "CreateWallet A req s = (Inl (Status AlreadyExists ''wallet exists''), s)"
proof -
  obtain tw where "lookup_wallet s (walletKey (tenant_id req) (wallet_id req)) = Some tw" using assms(1) by blast
  moreover have "validateTenantWallet (tenant_id req) (wallet_id req) = Inr ()"
    using assms(2,3) by (simp add: validateTenantWallet_ok)
  ultimately show ?thesis using assms by (simp add: CreateWallet_def act_simps)
qed

lemma taken_identity_restore:
  assumes "lookup_wallet s (walletKey (tenant_id req) (wallet_id req)) \<noteq> None"
    and "idRE (tenant_id req)" and "idRE (wallet_id req)" and "RestoreWalletReq_mnemonic req \<noteq> []"
  shows "RestoreWallet A req s = (Inl (Status AlreadyExists ''wallet exists''), s)"
proof -
  obtain tw where "lookup_wallet s (walletKey (tenant_id req) (wallet_id req)) = Some tw" using assms(1) by blast
  moreover have "validateTenantWallet (tenant_id req) (wallet_id req) = Inr ()"
    using assms(2,3) by (simp add: validateTenantWallet_ok)
  ultimately show ?thesis using assms by (simp add: RestoreWallet_def act_simps)
qed

text \<open>
  C9. Adding a wallet never disturbs another, on any service, empty or not: \<open>CreateWallet\<close> and
  \<open>RestoreWallet\<close> keep the registry invariant and touch no other wallet's entry, whatever they answer;
  a failing call leaves the state file as it was; for an identity that has a wallet both fail and
  change nothing at all, with \<open>AlreadyExists\<close> when the identity is well-formed (and a mnemonic is given).
\<close>

theorem adding_never_overwrites:
  assumes "CreateWallet A creq s = (r1, s1)" and "RestoreWallet A rreq s = (r2, s2)"
  shows "adds_at_most (tenant_id creq) (wallet_id creq) s r1 s1 \<and> adds_at_most (tenant_id rreq) (wallet_id rreq) s r2 s2
    \<and> (idRE (tenant_id creq) \<longrightarrow> idRE (wallet_id creq) \<longrightarrow> lookup_wallet s (walletKey (tenant_id creq) (wallet_id creq)) \<noteq> None
         \<longrightarrow> r1 = Inl (Status AlreadyExists ''wallet exists''))
    \<and> (idRE (tenant_id rreq) \<longrightarrow> idRE (wallet_id rreq) \<longrightarrow> lookup_wallet s (walletKey (tenant_id rreq) (wallet_id rreq)) \<noteq> None
         \<longrightarrow> RestoreWalletReq_mnemonic rreq \<noteq> [] \<longrightarrow> r2 = Inl (Status AlreadyExists ''wallet exists''))"
proof (intro conjI impI)
  have "s1 = s" if "lookup_wallet s (walletKey (tenant_id creq) (wallet_id creq)) \<noteq> None"
    using assms(1) that by (cases "validateTenantWallet (tenant_id creq) (wallet_id creq)") (auto simp: CreateWallet_def act_simps)
  then show "adds_at_most (tenant_id creq) (wallet_id creq) s r1 s1"
    by (rule enroller_adds [OF create.enroller_axioms assms(1)])
  have "s2 = s" if "lookup_wallet s (walletKey (tenant_id rreq) (wallet_id rreq)) \<noteq> None"
    using assms(2) that
    by (cases "validateTenantWallet (tenant_id rreq) (wallet_id rreq)") (auto simp: RestoreWallet_def act_simps split: if_splits)
  then show "adds_at_most (tenant_id rreq) (wallet_id rreq) s r2 s2"
    by (rule enroller_adds [OF restore.enroller_axioms assms(2)])
qed (use assms taken_identity [of s creq A] taken_identity_restore [of s rreq A] in simp_all)

theorem adding_never_overwrites_witness:
  "\<exists>s resp r2 s2. CreateWallet demo_sdk demo_req demo_service = (Inr resp, s) \<and> registry_inv s
     \<and> RestoreWallet demo_sdk \<lparr>tenant_id = ''acme'', wallet_id = ''hot'', RestoreWalletReq_mnemonic = ''zoo'',
         RestoreWalletReq_passphrase = []\<rparr> s = (Inl (Status AlreadyExists ''wallet exists''), s)
     \<and> RestoreWallet demo_sdk \<lparr>tenant_id = ''acme'', wallet_id = ''cold'', RestoreWalletReq_mnemonic = ''zoo'',
         RestoreWalletReq_passphrase = []\<rparr> s = (r2, s2) \<and> registry_inv s2
     \<and> lookup_wallet s2 (walletKey ''acme'' ''hot'') = lookup_wallet s (walletKey ''acme'' ''hot'')"
proof -
  let ?q = "\<lambda>w. \<lparr>tenant_id = ''acme'', wallet_id = w, RestoreWalletReq_mnemonic = ''zoo'', RestoreWalletReq_passphrase = []\<rparr>"
  obtain resp s where c: "CreateWallet demo_sdk demo_req demo_service = (Inr resp, s)"
    using create_demo by blast
  obtain r1 s1 where 1: "RestoreWallet demo_sdk (?q ''hot'') s = (r1, s1)" by (cases "RestoreWallet demo_sdk (?q ''hot'') s")
  obtain r2 s2 where 2: "RestoreWallet demo_sdk (?q ''cold'') s = (r2, s2)" by (cases "RestoreWallet demo_sdk (?q ''cold'') s")
  obtain r0 s0 where 0: "RestoreWallet demo_sdk (?q ''hot'') demo_service = (r0, s0)"
    by (cases "RestoreWallet demo_sdk (?q ''hot'') demo_service")
  obtain r3 s3 where 3: "CreateWallet demo_sdk demo_req s = (r3, s3)" by (cases "CreateWallet demo_sdk demo_req s")
  have once: "adds_at_most ''acme'' ''hot'' demo_service (Inr resp :: CreateWalletResponse result) s"
    using adding_never_overwrites [OF c 0] by (simp add: demo_req_def)
  have inv: "registry_inv s" and some: "lookup_wallet s (walletKey ''acme'' ''hot'') \<noteq> None"
    using once demo_inv(1) unfolding adds_at_most_def by auto
  have hot: "s1 = s" "r1 = Inl (Status AlreadyExists ''wallet exists'')"
    using adding_never_overwrites [OF 3 1] some demo_ids unfolding adds_at_most_def by simp_all
  have other: "walletKey ''acme'' ''hot'' \<noteq> walletKey ''acme'' ''cold''" by (simp add: walletKey_def)
  have "adds_at_most ''acme'' ''cold'' s r2 s2"
    using adding_never_overwrites [OF 3 2] by simp
  then have "registry_inv s2" "lookup_wallet s2 (walletKey ''acme'' ''hot'') = lookup_wallet s (walletKey ''acme'' ''hot'')"
    using inv other unfolding adds_at_most_def by blast+
  with hot c 1 2 inv show ?thesis by blast
qed

text \<open>
  C10. Saving the state is atomic: whichever of its file operations fails, and wherever a write is cut
  short, the state file afterwards holds either its old content or the complete new list, the latter
  exactly when the call reports success; no other file but its temporary copy is touched.
\<close>

theorem save_is_atomic:
  assumes "saveStateLocked s = (r, s')"
  shows "lookup_file s' (statePath s) =
      (if r = Inr () then Some (json_MarshalIndent (state_json (s_state s))) else lookup_file s (statePath s))
    \<and> (\<forall>q. q \<noteq> statePath s \<longrightarrow> q \<noteq> statePath s @ ''.tmp'' \<longrightarrow> lookup_file s' q = lookup_file s q)
    \<and> s_wallets s' = s_wallets s \<and> s_state s' = s_state s \<and> vault s' = vault s"
proof -
  obtain f where f: "s' = s\<lparr>files := f\<rparr>"
    and r: "r = Inr () \<longrightarrow> lookup_file s' (statePath s) = Some (json_MarshalIndent (state_json (s_state s)))"
      "r \<noteq> Inr () \<longrightarrow> lookup_file s' (statePath s) = lookup_file s (statePath s)"
    and q: "\<forall>q. q \<noteq> statePath s \<longrightarrow> q \<noteq> statePath s @ ''.tmp'' \<longrightarrow> lookup_file s' q = lookup_file s q"
    using save_cases [OF assms] by blast
  have "s_wallets s' = s_wallets s \<and> s_state s' = s_state s \<and> vault s' = vault s"
    by (simp add: f)
  with r q show ?thesis by auto
qed

definition torn_service :: "nat service" where
  "torn_service = demo_service\<lparr>s_state := [legacy_meta],
     write_fault := \<lambda>p. if p = ''data/bsvms-wallets.json.tmp'' then Some (ErrText ''no space left on device'', 5) else None,
     files := [(''data/bsvms-wallets.json'', ''old'')]\<rparr>"

theorem save_is_atomic_witness:
  "\<exists>e s'. saveStateLocked torn_service = (Inl e, s') \<and> lookup_file s' ''data/bsvms-wallets.json'' = Some ''old''"
proof -
  have path: "statePath torn_service = ''data/bsvms-wallets.json''"
    by (simp add: statePath_def torn_service_def filepath_Join_def)
  have "\<exists>e s'. saveStateLocked torn_service = (Inl e, s')"
    by (simp add: saveStateLocked_def act_simps Let_def os_WriteFile_def path) (simp add: torn_service_def)
  then obtain e s' where r: "saveStateLocked torn_service = (Inl e, s')" by blast
  have "lookup_file torn_service ''data/bsvms-wallets.json'' = Some ''old''"
    by (simp add: torn_service_def lookup_file_def)
  with save_is_atomic [OF r] r path show ?thesis by simp
qed

text \<open>
  Lookup keeps tenants apart: the one way every handler reaches a wallet answers \<open>InvalidArgument\<close>
  for malformed identifiers, \<open>NotFound\<close> when there is no such wallet, and otherwise the wallet whose
  record carries exactly the tenant and wallet identifier asked for, whatever identifiers the state
  file introduced; it changes nothing.
\<close>

lemma wallet_lookup_isolated:
  assumes "registry_inv s"
  shows "case wallet t w s of
      (Inl e, s') \<Rightarrow> s' = s \<and>
        (if idRE t \<and> idRE w then e = Status NotFound ''wallet not found'' \<and> lookup_wallet s (walletKey t w) = None
         else \<exists>m. e = Status InvalidArgument m)
    | (Inr tw, s') \<Rightarrow> s' = s \<and> TenantID (tw_meta tw) = t \<and> WalletID (tw_meta tw) = w
        \<and> lookup_wallet s (walletKey t w) = Some tw"
proof (cases "idRE t \<and> idRE w")
  case True
  then have v: "validateTenantWallet t w = Inr ()"
    by (simp add: validateTenantWallet_ok)
  show ?thesis
  proof (cases "lookup_wallet s (walletKey t w)")
    case None
    with True show ?thesis by (simp add: wallet_unknown)
  next
    case (Some tw)
    with True v show ?thesis
      using lookup_identity [OF assms _ _ Some] by (simp add: wallet_def act_simps)
  qed
next
  case False
  then have "\<exists>m. validateTenantWallet t w = Inl (Status InvalidArgument m)"
    by (auto simp: validateTenantWallet_def validateTenant_def invalid_def)
  with False show ?thesis by (auto simp: wallet_def act_simps)
qed

text \<open>
  C29. Listing is exact: for a well-formed tenant the answer holds one view per wallet of that tenant,
  each under its own tenant identifier, in the order of the wallet keys, without duplicates and
  without omissions.
\<close>

theorem list_wallets_exact:
  assumes "registry_inv s" and "idRE (ListWalletsReq_tenant_id req)"
  shows "\<exists>tws. ListWallets A req s =
        (Inr \<lparr>ListWalletsResp_wallets = map (\<lambda>tw. walletProtoLocked A tw (s_node s)) tws\<rparr>, s)
     \<and> set tws = {tw. \<exists>k. lookup_wallet s k = Some tw \<and> TenantID (tw_meta tw) = ListWalletsReq_tenant_id req}
     \<and> distinct (map (\<lambda>tw. meta_key (tw_meta tw)) tws) \<and> sorted (map (\<lambda>tw. meta_key (tw_meta tw)) tws)"
proof -
  let ?t = "ListWalletsReq_tenant_id req"
  let ?keys = "tenant_keys ?t s" and ?get = "\<lambda>k. the (lookup_wallet s k)"
  have d: "distinct (map fst (s_wallets s))" and live: "live_inv s"
    using assms(1) by (simp_all add: registry_inv_def)
  note keyfacts = tenant_keys_spec [OF d, of ?t]
  have keys_back: "map (\<lambda>tw. meta_key (tw_meta tw)) (map ?get ?keys) = ?keys"
    using keyfacts(3) live by (auto simp: live_inv_def intro!: map_idI)
  have "validateTenant ?t = Inr ()"
    using assms(2) by (simp add: validateTenant_ok)
  then have "ListWallets A req s =
      (Inr \<lparr>ListWalletsResp_wallets = map (\<lambda>tw. walletProtoLocked A tw (s_node s)) (map ?get ?keys)\<rparr>, s)"
    by (simp add: ListWallets_def act_simps comp_def)
  moreover have "set (map ?get ?keys) = {tw. \<exists>k. lookup_wallet s k = Some tw \<and> TenantID (tw_meta tw) = ?t}"
    using keyfacts(3) by force
  ultimately show ?thesis
    using keys_back keyfacts(1,2) by (intro exI [of _ "map ?get ?keys"]) metis
qed

theorem list_wallets_exact_witness:
  "\<exists>tws. ListWallets demo_sdk \<lparr>ListWalletsReq_tenant_id = ''acme''\<rparr> demo_service =
        (Inr \<lparr>ListWalletsResp_wallets = map (\<lambda>tw. walletProtoLocked demo_sdk tw (s_node demo_service)) tws\<rparr>, demo_service)
     \<and> set tws = {tw. \<exists>k. lookup_wallet demo_service k = Some tw \<and> TenantID (tw_meta tw) = ''acme''}
     \<and> distinct (map (\<lambda>tw. meta_key (tw_meta tw)) tws) \<and> sorted (map (\<lambda>tw. meta_key (tw_meta tw)) tws)"
  using list_wallets_exact [OF demo_inv(1), of "\<lparr>ListWalletsReq_tenant_id = ''acme''\<rparr>" demo_sdk] demo_ids by simp

text \<open>
  A wallet's addresses are reported once each and in derivation order: for a wallet with a
  snapshot, every address of the snapshot appears exactly once, at its smallest index, and the indices
  along the list never decrease.
\<close>

lemma wallet_addresses_ordered:
  assumes "entries = wal_SaveAddressSnapshot (the_wallet A) w n" and "entries \<noteq> []"
  shows "\<exists>es. walletAddresses A w n = map se_Address es \<and> set es \<subseteq> set entries \<and> sorted (map se_Index es)
     \<and> distinct (walletAddresses A w n) \<and> set (walletAddresses A w n) = se_Address ` set entries
     \<and> (\<forall>e \<in> set es. \<forall>e' \<in> set entries. se_Address e' = se_Address e \<longrightarrow> se_Index e \<le> se_Index e')"
proof -
  have "walletAddresses A w n = unseen [] (sort_key se_Index entries)"
    using assms by (simp add: walletAddresses_def)
  moreover obtain es where "unseen [] (sort_key se_Index entries) = map se_Address es" "set es \<subseteq> set entries"
    "sorted (map se_Index es)" "distinct (map se_Address es)" "se_Address ` set es = se_Address ` set entries"
    "\<forall>e \<in> set es. \<forall>e' \<in> set entries. se_Address e' = se_Address e \<longrightarrow> se_Index e \<le> se_Index e'"
    using by_index.listed_once [of entries] by blast
  ultimately show ?thesis by (intro exI [of _ es]) simp
qed

end
