(* ===== verification/Registry_Faults.thy ===== *)
theory Registry_Faults
  imports Registry_Props
begin

text \<open>
  What becomes of a creation whose saving fails, compared with the same call on a working disk: up to the
  save the two runs are the same, because nothing before it depends on the faults of the disk.
\<close>

section \<open>The disk repaired\<close>

definition mended :: "'n service \<Rightarrow> 'n service" where
  "mended s = s\<lparr>write_fault := \<lambda>_. None, rename_fault := \<lambda>_. None\<rparr>"

lemma mended_simps [simp]:
  "s_opts (mended s) = s_opts s" "s_node (mended s) = s_node s" "s_wallets (mended s) = s_wallets s"
  "s_state (mended s) = s_state s" "s_dataDir (mended s) = s_dataDir s" "entropy (mended s) = entropy s"
  "lookup_wallet (mended s) k = lookup_wallet s k" "statePath (mended s) = statePath s"
  "lookup_file (mended s) p = lookup_file s p" "vault (mended s) = vault s"
  "walletStorePath m (mended s) = walletStorePath m s" "walletSnapshotPath m (mended s) = walletSnapshotPath m s"
  by (simp_all add: mended_def lookup_wallet_def statePath_def lookup_file_def vault_def secrets_view_def
      walletStorePath_def walletSnapshotPath_def walletDir_def fun_eq_iff)

text \<open>Operations that do the same on a broken disk as on a working one.\<close>

definition blind :: "('n, 'a) operation \<Rightarrow> bool" where
  "blind m \<longleftrightarrow> (\<forall>s. m (mended s) = (fst (m s), mended (snd (m s))))"

lemma blindI: "(\<And>s. m (mended s) = (fst (m s), mended (snd (m s)))) \<Longrightarrow> blind m"
  by (simp add: blind_def)

lemma blind_goes:
  assumes "blind m" and "m (mended s) = (Inr x, t)"
  shows "\<exists>s1. m s = (Inr x, s1) \<and> t = mended s1"
  using assms unfolding blind_def by (metis prod.collapse prod.inject)

lemma blind_basic:
  "blind (returnE x)" "blind (throwE e)" "blind (liftR r)" "blind (sdkE f)" "blind (sdkQ q)" "blind (sdkU u)"
  by (rule blindI; simp add: returnE_def throwE_def liftR_apply sdkE_def sdkQ_def sdkU_def mended_def split: prod.split sum.split)+

lemma blind_getS: "(\<And>s. f (mended s) = f s) \<Longrightarrow> blind (getS f)"
  by (rule blindI) (simp add: act_simps)

lemma blind_modifyS: "(\<And>s. f (mended s) = mended (f s)) \<Longrightarrow> blind (modifyS f)"
  by (rule blindI) (simp add: act_simps)

lemma blind_bindE: "blind m \<Longrightarrow> (\<And>x. blind (f x)) \<Longrightarrow> blind (bindE m f)"
  unfolding blind_def by (simp add: bindE_apply split: prod.split sum.split)

lemma blind_wrapped: "blind m \<Longrightarrow> blind (internalE m)" "blind m \<Longrightarrow> blind (tryE m)"
  unfolding blind_def by (simp_all add: internalE_def tryE_def split_beta split: sum.split)

lemma blind_sum: "(\<And>e. blind (f e)) \<Longrightarrow> (\<And>x. blind (g x)) \<Longrightarrow> blind (case r of Inl e \<Rightarrow> f e | Inr x \<Rightarrow> g x)"
  by (simp split: sum.split)

lemmas blind_rules = blind_basic blind_getS blind_modifyS blind_bindE blind_wrapped blind_sum

lemma blind_seal: "blind (sealString key plain)"
  by (rule blindI) (simp add: sealString_def act_simps rand_Read_def mended_def Let_def split: prod.split sum.split)

lemma blind_newWalletMeta: "blind (newWalletMeta t w n mn pp)"
  unfolding newWalletMeta_def by (intro blind_rules blind_seal) simp

lemma blind_attach: "blind (attachWalletLocked A m h)"
  unfolding attachWalletLocked_def registerWalletEvents_def Let_def
  by (auto intro!: blind_rules simp: mended_def walletStorePath_def walletSnapshotPath_def walletDir_def split: prod.split)


section \<open>The save that fails\<close>

definition disk_fails :: "'n service \<Rightarrow> bool" where
  "disk_fails s \<longleftrightarrow> write_fault s (statePath s @ ''.tmp'') \<noteq> None \<or> rename_fault s (statePath s) \<noteq> None"

lemma record_on_broken_disk:
  assumes "disk_fails s"
  shows "\<exists>err s'. record_wallet A m tw s = (Inl (internal err), s') \<and> s_wallets s' = s_wallets s \<and> s_opts s' = s_opts s
    \<and> statePath s' = statePath s \<and> lookup_file s' (statePath s) = lookup_file s (statePath s)"
proof -
  let ?s0 = "s\<lparr>s_state := s_state s @ [m]\<rparr>"
  obtain r s1 where save: "saveStateLocked ?s0 = (r, s1)" by (cases "saveStateLocked ?s0")
  have "r \<noteq> Inr ()"
    using assms save
    by (auto simp: disk_fails_def saveStateLocked_def act_simps Let_def os_WriteFile_def os_Rename_def statePath_def
        put_file_def split: option.splits)
  then obtain err where r: "r = Inl err" by (cases r) auto
  with save have rec: "record_wallet A m tw s = (Inl (internal err), s1)"
    by (simp add: record_wallet_def act_simps internalE_def)
  from record_failure(1,2) [OF rec] rec show ?thesis by (auto simp: statePath_def)
qed

lemma quiet_disk: "quiet s s' \<Longrightarrow> disk_fails s' = disk_fails s \<and> s_wallets s' = s_wallets s"
  by (auto simp: quiet_def disk_fails_def statePath_def)

lemma attach_disk:
  assumes "attachWalletLocked A m h s = (Inr tw, s')"
  shows "disk_fails s' = disk_fails s" and "statePath s' = statePath s" and "lookup_file s' p = lookup_file s p"
    and "s_opts s' = s_opts s"
  using attach_success [OF assms] by (auto simp: disk_fails_def statePath_def lookup_file_def)

text \<open>A creation on a broken disk, beside the same creation on the repaired one.\<close>

lemma create_on_broken_disk:
  assumes healthy: "CreateWallet A req (mended s) = (Inr resp, s1)" and "disk_fails s"
  shows "\<exists>err s'. CreateWallet A req s = (Inl (internal err), s') \<and> s_wallets s' = s_wallets s1 \<and> s_opts s' = s_opts s1
    \<and> statePath s' = statePath s \<and> lookup_file s' (statePath s) = lookup_file s (statePath s)"
proof -
  let ?t = "tenant_id req" and ?w = "wallet_id req"
  let ?name = "sdkWalletName ?t ?w"
  have v: "validateTenantWallet ?t ?w = Inr ()" and none: "lookup_wallet s (walletKey ?t ?w) = None"
    using create.add_success(1-3) [OF healthy] by (simp_all add: validateTenantWallet_ok)
  obtain h mn t1 m t2 tw t3 tokens t4 where
    1: "internalE (sdkE (node_CreateWallet (the_node A) ?name)) (mended s) = (Inr (h, mn), t1)" and
    2: "internalE (newWalletMeta ?t ?w ?name mn []) t1 = (Inr m, t2)" and
    3: "attachWalletLocked A m h t2 = (Inr tw, t3)" and
    4: "record_wallet A m tw t3 = (Inr tokens, t4)" and s1: "s1 = t4"
    using healthy none by (auto simp: CreateWallet_def Let_def run_simps v sdkQ_def split: if_splits prod.splits)
  obtain u1 where u1: "internalE (sdkE (node_CreateWallet (the_node A) ?name)) s = (Inr (h, mn), u1)" "t1 = mended u1"
    using blind_goes [OF blind_wrapped(1) [OF blind_basic(4)] 1] by blast
  obtain u2 where u2: "internalE (newWalletMeta ?t ?w ?name mn []) u1 = (Inr m, u2)" "t2 = mended u2"
    using blind_goes [OF blind_wrapped(1) [OF blind_newWalletMeta] 2 [unfolded u1(2)]] by blast
  obtain u3 where u3: "attachWalletLocked A m h u2 = (Inr tw, u3)" "t3 = mended u3"
    using blind_goes [OF blind_attach 3 [unfolded u2(2)]] by blast
  have q: "quiet s u2" using quiet_then_meta [OF quiet_then_sdk [OF quiet.frame_refl u1(1)] u2(1)] .
  have "disk_fails u3" using assms(2) quiet_disk [OF q] attach_disk(1) [OF u3(1)] by simp
  from record_on_broken_disk [OF this, of A m tw] obtain err s' where
    r: "record_wallet A m tw u3 = (Inl (internal err), s')" and
    s': "s_wallets s' = s_wallets u3" "s_opts s' = s_opts u3" "statePath s' = statePath u3"
      "lookup_file s' (statePath u3) = lookup_file u3 (statePath u3)" by blast
  have "CreateWallet A req s = (Inl (internal err), s')"
    using none by (simp add: CreateWallet_def act_simps v Let_def u1(1) u2(1) u3(1) r)
  moreover have "s_wallets s1 = s_wallets u3 \<and> s_opts s1 = s_opts u3"
    using record_success(1) [OF 4] by (auto simp: s1 u3(2))
  ultimately show ?thesis
    using s' attach_disk(2,3) [OF u3(1)] quiet_statePath [OF q] quiet_keeps(6) [OF q] by auto
qed

section \<open>Property\<close>

text \<open>
  C37. A creation whose save fails leaves its wallet behind. Suppose the same call would succeed on a working
  disk, but now the state file cannot be written or put in place. Then \<open>CreateWallet\<close> answers an internal
  error, without the mnemonic, and the state file is the old one; all the same the wallet is registered
  and live, with the mnemonic nobody was told; and calling again is refused with \<open>AlreadyExists\<close>, also after
  the disk has been repaired.
\<close>

theorem failed_create_leaves_wallet:
  assumes "CreateWallet A req (mended s) = (Inr resp, s1)" and "disk_fails s"
  shows "\<exists>err s'. CreateWallet A req s = (Inl (internal err), s')
    \<and> lookup_file s' (statePath s) = lookup_file s (statePath s)
    \<and> vault s' = (vault s)((tenant_id req, wallet_id req) \<mapsto> (CreateWalletResp_mnemonic resp, []))
    \<and> (\<exists>tw. wallet (tenant_id req) (wallet_id req) s' = (Inr tw, s'))
    \<and> CreateWallet A req s' = (Inl (Status AlreadyExists ''wallet exists''), s')
    \<and> CreateWallet A req (mended s') = (Inl (Status AlreadyExists ''wallet exists''), mended s')"
proof -
  obtain err s' where run: "CreateWallet A req s = (Inl (internal err), s')" and w: "s_wallets s' = s_wallets s1"
    and o: "s_opts s' = s_opts s1" and f: "lookup_file s' (statePath s) = lookup_file s (statePath s)"
    using create_on_broken_disk [OF assms] by blast
  note ok = create.add_success [OF assms(1)]
  have lk: "lookup_wallet s' = lookup_wallet s1" using w by (simp add: lookup_wallet_def fun_eq_iff)
  then have v: "vault s' = (vault s)((tenant_id req, wallet_id req) \<mapsto> (CreateWalletResp_mnemonic resp, []))"
    using ok(6) o by (simp add: vault_def [of s'] vault_def [of s1])
  obtain tw where tw: "lookup_wallet s' (walletKey (tenant_id req) (wallet_id req)) = Some tw"
    using enrolled_lookup [OF ok(4)] lk by auto
  have again: "CreateWallet A req s' = (Inl (Status AlreadyExists ''wallet exists''), s')"
    "CreateWallet A req (mended s') = (Inl (Status AlreadyExists ''wallet exists''), mended s')"
    using tw ok(1,2) by (simp_all add: taken_identity)
  have "wallet (tenant_id req) (wallet_id req) s' = (Inr tw, s')" using tw ok(1,2) by (simp add: wallet_success)
  with run f v again show ?thesis by blast
qed

definition full_disk :: "nat service" where
  "full_disk = demo_service\<lparr>write_fault := \<lambda>p. Some (ErrText ''no space left on device'', 0)\<rparr>"

theorem failed_create_leaves_wallet_witness:
  "\<exists>(resp :: CreateWalletResponse) err s' tw. CreateWallet demo_sdk demo_req full_disk = (Inl (internal err), s')
     \<and> vault s' = (vault full_disk)((''acme'', ''hot'') \<mapsto> (CreateWalletResp_mnemonic resp, []))
     \<and> wallet ''acme'' ''hot'' s' = (Inr tw, s')
     \<and> CreateWallet demo_sdk demo_req (mended s') = (Inl (Status AlreadyExists ''wallet exists''), mended s')"
proof -
  have "mended full_disk = demo_service"
    using demo_service_host(2,3) by (simp add: mended_def full_disk_def)
  then obtain resp s1 where c: "CreateWallet demo_sdk demo_req (mended full_disk) = (Inr resp, s1)"
    using create_demo by metis
  have "disk_fails full_disk" by (simp add: disk_fails_def full_disk_def)
  note left = failed_create_leaves_wallet [OF c this]
  have ids: "tenant_id demo_req = ''acme''" "wallet_id demo_req = ''hot''" by (simp_all add: demo_req_def)
  from left [unfolded ids] show ?thesis by blast
qed

end
