(* ===== verification/Auth.thy ===== *)
theory Auth
  imports Registry_Props
begin

text \<open>
  The authorization half of \<^verbatim>\<open>internal/service/auth.go\<close>: which calls pass, by the token they carry and
  the tenant and wallet their request names. A call comes with the metadata of its context and a
  message; messages are seen through their descriptor (\<open>request_fields\<close>), as the reflection code does.
\<close>

section \<open>Calls\<close>

type_synonym call_context = "(string \<times> string list) list option"

text \<open>What an interceptor is handed: a request of this API, some other protobuf message, or nothing usable.\<close>

datatype (plugins del: quickcheck_random quickcheck_exhaustive quickcheck_full_exhaustive
    quickcheck_narrowing quickcheck_bounded_forall lifting transfer) message =
    ApiMessage rpc_request
  | OtherMessage "(string \<times> proto_field) list"
  | NoMessage

fun message_fields :: "message \<Rightarrow> (string \<times> proto_field) list option" where
  "message_fields (ApiMessage r) = Some (request_fields r)"
| "message_fields (OtherMessage fs) = Some fs"
| "message_fields NoMessage = None"

definition tenantWalletFromRequest :: "message \<Rightarrow> string \<times> string \<times> bool" where
  "tenantWalletFromRequest req =
     (case message_fields req of
        None \<Rightarrow> ([], [], False)
      | Some fs \<Rightarrow>
         (case map_of fs ''tenant_id'' of
            Some (StringField tenantID) \<Rightarrow>
              (tenantID, case map_of fs ''wallet_id'' of Some (StringField w) \<Rightarrow> w | _ \<Rightarrow> [], True)
          | _ \<Rightarrow> ([], [], False)))"

section \<open>Methods\<close>

definition nodeScopedMethods :: "string list" where
  "nodeScopedMethods =
     [''Status'', ''RefreshToken'', ''ConnectPeer'', ''BroadcastCustomSpend'', ''P2PKHOutput'',
      ''OpReturnOutput'', ''AnyoneCanSpendOutput'', ''ParseTransaction'', ''BroadcastRaw'',
      ''ExecuteScript'', ''DecodeOutputAddress'', ''PendingTransactions'',
      ''RebroadcastPendingTransactions'', ''StreamTransactions'', ''StreamBlocks'',
      ''StreamP2PTraffic'', ''StreamRejects'', ''VerifyTxSeen'', ''WaitForTxRelay'']"

definition bsvmsServicePrefix :: string where
  "bsvmsServicePrefix = ''/bsvms.v1.BSVMS/''"

definition isBSVMSMethod :: "string \<Rightarrow> bool" where
  "isBSVMSMethod fullMethod = HasPrefix fullMethod bsvmsServicePrefix"

definition shortMethod :: "string \<Rightarrow> string" where
  "shortMethod fullMethod =
     (case after_last CHR ''/'' fullMethod of Some t \<Rightarrow> t | None \<Rightarrow> fullMethod)"

definition isBootstrapMethod :: "string \<Rightarrow> bool" where
  "isBootstrapMethod m = (HasSuffix m ''/CreateWallet'' \<or> HasSuffix m ''/RestoreWallet'')"

text \<open>The full method name under which the generated code registers a call.\<close>

definition full_method :: "rpc_request \<Rightarrow> string" where
  "full_method r = bsvmsServicePrefix @ rpc_name r"

section \<open>The token of a call\<close>

text \<open>\<^verbatim>\<open>md.Get("authorization")\<close> and the first value that starts with \<^verbatim>\<open>bearer\<close> in any case.\<close>

fun bearer_token :: "string list \<Rightarrow> string" where
  "bearer_token [] = []"
| "bearer_token (value # values) =
     (if HasPrefix (ToLower value) ''bearer '' then TrimSpace (drop 7 value) else bearer_token values)"

definition presented_token :: "(string \<times> string list) list \<Rightarrow> string" where
  "presented_token md = bearer_token (case map_of md ''authorization'' of None \<Rightarrow> [] | Some vs \<Rightarrow> vs)"

definition authSubjectFromContext :: "call_context \<Rightarrow> 'n service \<Rightarrow> authSubject result" where
  "authSubjectFromContext ctx s =
     (case ctx of
        None \<Rightarrow> Inl (Status Unauthenticated ''missing metadata'')
      | Some md \<Rightarrow>
         (let token = presented_token md in
          if token = [] then Inl (Status Unauthenticated ''missing bearer token'')
          else validateJWT (JWTSecret (s_opts s)) (clock s) token ''access''))"

definition authContext :: "string \<Rightarrow> call_context" where
  "authContext token = Some [(''authorization'', [''Bearer '' @ token])]"

section \<open>Authorization\<close>

definition service_AuthEnabled :: "'n service \<Rightarrow> bool" where
  "service_AuthEnabled s = AuthEnabled (s_opts s)"

definition bootstrapAllowed :: "message \<Rightarrow> 'n service \<Rightarrow> bool" where
  "bootstrapAllowed req s =
     (let (tenantID, walletID, scoped) = tenantWalletFromRequest req in
      if \<not> scoped \<or> tenantID = [] \<or> walletID = [] then False
      else (case validateTenantWallet tenantID walletID of
          Inl _ \<Rightarrow> False
        | Inr _ \<Rightarrow> lookup_wallet s (walletKey tenantID walletID) = None))"

definition authorize :: "call_context \<Rightarrow> string \<Rightarrow> message \<Rightarrow> 'n service \<Rightarrow> unit result" where
  "authorize ctx m req s =
     (if \<not> AuthEnabled (s_opts s) then Inr ()
      else if isBootstrapMethod m \<and> bootstrapAllowed req s then Inr ()
      else if HasSuffix m ''/RefreshToken'' then Inr ()
      else (case authSubjectFromContext ctx s of
          Inl e \<Rightarrow> Inl e
        | Inr sub \<Rightarrow>
           if SubType sub \<noteq> ''access'' then Inl (Status Unauthenticated ''access token required'')
           else if \<not> isBSVMSMethod m then Inr ()
           else (let (tenantID, walletID, scoped) = tenantWalletFromRequest req in
             if \<not> scoped then
               (if shortMethod m \<in> set nodeScopedMethods then Inr ()
                else Inl (Status PermissionDenied ''method is not tenant-scoped''))
             else if tenantID = [] then Inl (Status PermissionDenied ''tenant_id required'')
             else if tenantID \<noteq> SubTenantID sub then Inl (Status PermissionDenied ''tenant mismatch'')
             else if walletID \<noteq> [] \<and> walletID \<noteq> SubWalletID sub
               then Inl (Status PermissionDenied ''wallet mismatch'')
             else Inr ())))"

definition authorizeE :: "call_context \<Rightarrow> string \<Rightarrow> message \<Rightarrow> ('n, unit) operation" where
  "authorizeE ctx m req = (\<lambda>s. (authorize ctx m req s, s))"

definition RefreshToken :: "RefreshTokenRequest \<Rightarrow> ('n, AuthTokens) operation" where
  "RefreshToken req =
     bindE (getS s_opts) (\<lambda>options.
     if \<not> AuthEnabled options then throwE (Status FailedPrecondition ''auth disabled'')
     else
       bindE time_Now (\<lambda>now.
       bindE (liftR (validateJWT (JWTSecret options) now (RefreshTokenReq_refresh_token req) ''refresh'')) (\<lambda>sub.
       issueTokens options (SubTenantID sub) (SubWalletID sub))))"

section \<open>Interceptors\<close>

definition UnaryAuthInterceptor ::
    "call_context \<Rightarrow> message \<Rightarrow> string \<Rightarrow> (call_context \<Rightarrow> message \<Rightarrow> ('n, 'a) operation) \<Rightarrow> ('n, 'a) operation" where
  "UnaryAuthInterceptor ctx req fullMethod handler =
     bindE (authorizeE ctx fullMethod req) (\<lambda>_. handler ctx req)"

text \<open>
  The wrapped stream: receiving hands out the messages the client sent, the first of them only after
  the check. \<open>ss_inbox\<close> are the messages still to come, \<open>None\<close> an error of the transport.
\<close>

record authServerStream =
  ss_context :: call_context
  ss_method :: string
  ss_checked :: bool
  ss_inbox :: "message option list"

definition transport_recv :: "authServerStream \<Rightarrow> message result \<times> authServerStream" where
  "transport_recv a =
     (case ss_inbox a of
        [] \<Rightarrow> (Inl (ErrText ''EOF''), a)
      | None # ms \<Rightarrow> (Inl (ErrText ''transport''), a\<lparr>ss_inbox := ms\<rparr>)
      | Some m # ms \<Rightarrow> (Inr m, a\<lparr>ss_inbox := ms\<rparr>))"

definition RecvMsg :: "authServerStream \<Rightarrow> 'n service \<Rightarrow> message result \<times> authServerStream" where
  "RecvMsg a s =
     (case transport_recv a of
        (Inl e, a') \<Rightarrow> (Inl e, a')
      | (Inr m, a') \<Rightarrow>
         if ss_checked a' then (Inr m, a')
         else (let a'' = a'\<lparr>ss_checked := True\<rparr> in
           case authorize (ss_context a'') (ss_method a'') m s of
             Inl e \<Rightarrow> (Inl e, a'')
           | Inr _ \<Rightarrow> (Inr m, a'')))"

definition StreamAuthInterceptor ::
    "call_context \<Rightarrow> message option list \<Rightarrow> string \<Rightarrow> (authServerStream \<Rightarrow> 'r) \<Rightarrow> 'r" where
  "StreamAuthInterceptor ctx inbox fullMethod handler =
     handler \<lparr>ss_context = ctx, ss_method = fullMethod, ss_checked = False, ss_inbox = inbox\<rparr>"

section \<open>Every call is classified\<close>

lemma tenantWallet_scoped:
  "snd (snd (tenantWalletFromRequest (ApiMessage r))) \<longleftrightarrow> rpc_name r \<notin> set nodeScopedMethods"
  by (cases r) (simp_all add: tenantWalletFromRequest_def nodeScopedMethods_def)

lemma no_slash_rpc_name: "CHR ''/'' \<notin> set (rpc_name r)"
  by (cases r) simp_all

lemma shortMethod_full [simp]: "shortMethod (full_method r) = rpc_name r"
proof -
  have "after_last CHR ''/'' (''/bsvms.v1.BSVMS'' @ CHR ''/'' # rpc_name r) = Some (rpc_name r)"
    by (rule after_last_append [OF no_slash_rpc_name])
  then show ?thesis by (simp add: shortMethod_def full_method_def bsvmsServicePrefix_def)
qed

lemma isBSVMSMethod_full [simp]: "isBSVMSMethod (full_method r)"
  by (simp add: isBSVMSMethod_def full_method_def bsvmsServicePrefix_def HasPrefix_def)

section \<open>When a call passes\<close>

text \<open>A token that a call presents and that is accepted as an access token.\<close>

definition presents :: "call_context \<Rightarrow> 'n service \<Rightarrow> authSubject \<Rightarrow> bool" where
  "presents ctx s sub \<longleftrightarrow> authSubjectFromContext ctx s = Inr sub"

lemma presents_type: "presents ctx s sub \<Longrightarrow> SubType sub = ''access''"
  by (auto simp: presents_def authSubjectFromContext_def Let_def dest!: validate_success
      split: option.splits if_splits)

lemma presents_genuine:
  assumes "presents ctx s sub"
  obtains md c where "ctx = Some md" and "genuine (JWTSecret (s_opts s)) (presented_token md) c"
    and "ClaimType c = ''access''" and "unix_seconds (clock s) < Expires c"
    and "SubTenantID sub = ClaimTenantID c" and "SubWalletID sub = ClaimWalletID c"
    and "ClaimTenantID c \<noteq> []" and "ClaimWalletID c \<noteq> []"
  using assms
  by (auto simp: presents_def authSubjectFromContext_def Let_def dest!: validate_success
      split: option.splits if_splits)

lemma authorize_iff:
  "authorize ctx m req s = Inr () \<longleftrightarrow>
     \<not> AuthEnabled (s_opts s) \<or> (isBootstrapMethod m \<and> bootstrapAllowed req s) \<or> HasSuffix m ''/RefreshToken''
     \<or> (\<exists>sub. presents ctx s sub \<and>
          (\<not> isBSVMSMethod m \<or>
           (let (t, w, scoped) = tenantWalletFromRequest req in
            if scoped then t \<noteq> [] \<and> t = SubTenantID sub \<and> (w = [] \<or> w = SubWalletID sub)
            else shortMethod m \<in> set nodeScopedMethods)))"
  by (cases "authSubjectFromContext ctx s")
    (auto simp: authorize_def presents_def Let_def dest: presents_type [unfolded presents_def] split: prod.splits)

lemma bootstrapAllowed_iff:
  "bootstrapAllowed req s \<longleftrightarrow>
     (\<exists>t w. tenantWalletFromRequest req = (t, w, True) \<and> idRE t \<and> idRE w \<and> lookup_wallet s (walletKey t w) = None)"
proof (cases "tenantWalletFromRequest req")
  case (fields t w scoped)
  have "(\<exists>u. validateTenantWallet t w = Inr u) \<longleftrightarrow> idRE t \<and> idRE w"
    by (simp add: validateTenantWallet_ok)
  with fields show ?thesis
    by (cases "validateTenantWallet t w") (auto simp: bootstrapAllowed_def dest: idRE_not_Nil)
qed

lemma HasSuffix_full: "HasSuffix (full_method r) (CHR ''/'' # x) \<longleftrightarrow> rpc_name r = x" if "CHR ''/'' \<notin> set x"
proof
  assume "HasSuffix (full_method r) (CHR ''/'' # x)"
  then obtain p where "full_method r = p @ CHR ''/'' # x"
    by (auto simp: HasSuffix_iff)
  then have "shortMethod (full_method r) = x"
    using after_last_append [OF that, of p] by (simp add: shortMethod_def)
  then show "rpc_name r = x" by simp
next
  assume "rpc_name r = x"
  then show "HasSuffix (full_method r) (CHR ''/'' # x)"
    by (simp add: full_method_def bsvmsServicePrefix_def HasSuffix_iff)
qed

lemma authorize_errors:
  assumes "authorize ctx m req s = Inl e"
  shows "\<exists>msg. e = Status Unauthenticated msg \<or> e = Status PermissionDenied msg"
  using assms validate_error [of "JWTSecret (s_opts s)" "clock s" _ "''access''" e]
  by (auto simp: authorize_def authSubjectFromContext_def Let_def
      split: if_splits sum.splits option.splits prod.splits)

end
