(* ===== verification/Auth_Props.thy ===== *)
theory Auth_Props
  imports Auth
begin

text \<open>The properties of tokens and of authorization.\<close>

section \<open>Issued tokens\<close>

lemma issueTokens_result:
  "\<exists>jti jti' e. issueTokens o' t w h =
     (Inr \<lparr>AuthTokens_access_token = signJWT (JWTSecret o')
              (token_claims t w ''access'' (unix_seconds (clock h)) (unix_seconds (clock h + AccessTTL o')) jti),
           AuthTokens_refresh_token = signJWT (JWTSecret o')
              (token_claims t w ''refresh'' (unix_seconds (clock h)) (unix_seconds (clock h + RefreshTTL o')) jti'),
           AuthTokens_token_type = ''Bearer'', AuthTokens_expires_at = format_RFC3339Nano (clock h + AccessTTL o'),
           AuthTokens_tenant_id = t, AuthTokens_wallet_id = w\<rparr>, h\<lparr>entropy := e\<rparr>) \<and> ascii jti \<and> ascii jti'"
proof -
  have id: "\<exists>i e. randomID g = (Inr i, g\<lparr>entropy := e\<rparr>) \<and> ascii i" for g :: "'z host_scheme"
    using RawURL_ascii by (auto simp: randomID_def act_simps rand_Read_def intro: exI [of _ "entropy g"])
  obtain i e where 1: "randomID h = (Inr i, h\<lparr>entropy := e\<rparr>)" "ascii i"
    using id [of h] by blast
  obtain j e' where 2: "randomID (h\<lparr>entropy := e\<rparr>) = (Inr j, h\<lparr>entropy := e\<rparr>\<lparr>entropy := e'\<rparr>)" "ascii j"
    using id [of "h\<lparr>entropy := e\<rparr>"] by blast
  show ?thesis
    by (rule exI [of _ i], rule exI [of _ j], rule exI [of _ e'])
      (simp add: issueTokens_def act_simps time_Now_def Let_def 1 2)
qed

definition clock_ok :: "Options \<Rightarrow> int \<Rightarrow> bool" where
  "clock_ok o' now \<longleftrightarrow> in_int64 (unix_seconds now) \<and> in_int64 (unix_seconds (now + AccessTTL o'))
     \<and> in_int64 (unix_seconds (now + RefreshTTL o'))"

lemma wf_token_claims:
  assumes "idRE t" and "idRE w" and "ascii typ" and "ascii jti" and "in_int64 i" and "in_int64 e"
  shows "wf_claims (token_claims t w typ i e jti)"
  using assms idRE_ascii [of t] idRE_ascii [of w]
  by (simp add: wf_claims_def token_claims_def byte_val_def)

lemma check_token_claims:
  assumes "idRE t" and "idRE w"
  shows "check_claims now typ (token_claims t w typ' i e jti) =
     (if typ' \<noteq> typ then Inl (unauthenticated ''wrong token type'')
      else if e \<le> unix_seconds now then Inl (unauthenticated ''token expired'')
      else Inr \<lparr>SubTenantID = t, SubWalletID = w, SubType = typ\<rparr>)"
  using assms idRE_not_Nil [of t] idRE_not_Nil [of w] by (auto simp: check_claims_def token_claims_def)

lemma ascii_types: "ascii ''access''" "ascii ''refresh''"
  by (simp_all add: byte_val_def)

definition demo_auth_opts :: Options where
  "demo_auth_opts = defaultOptions\<lparr>AuthEnabled := True, DataKey := replicate 32 1, JWTSecret := replicate 32 2\<rparr>"

lemma lower_bearer: "ToLower ''Bearer '' = ''bearer ''"
  by code_simp

lemma bearer_issued: "presented_token [(''authorization'', [''Bearer '' @ tok])] = TrimSpace tok"
  using lower_bearer by (simp add: presented_token_def HasPrefix_def ToLower_def)

lemma signJWT_visible:
  assumes "c \<in> set (signJWT secret claims)"
  shows "visible c"
proof -
  have "visible c" if "c \<in> set (RawURL_EncodeToString bs)" for bs
    using rawurl.enc_printable [OF that] by (simp add: visible_def)
  moreover have "visible CHR ''.''" by (simp add: visible_def)
  ultimately show ?thesis
    using assms by (auto simp: signJWT_def Let_def b64_def)
qed

lemma presents_signed:
  assumes "validateJWT (JWTSecret (s_opts s)) (clock s) (signJWT secret claims) ''access'' = Inr sub"
  shows "presents (authContext (signJWT secret claims)) s sub"
proof -
  have "presented_token [(''authorization'', [''Bearer '' @ signJWT secret claims])] = signJWT secret claims"
    using bearer_issued TrimSpace_visible signJWT_visible by metis
  moreover have "signJWT secret claims \<noteq> []"
    by (simp add: signJWT_def Let_def)
  ultimately show ?thesis
    using assms by (simp add: presents_def authSubjectFromContext_def authContext_def)
qed

text \<open>A service with authentication on, and a call that carries a token for one of its wallets.\<close>

definition auth_service :: "nat service" where
  "auth_service = demo_service\<lparr>s_opts := demo_auth_opts\<rparr>"

definition demo_token :: string where
  "demo_token = signJWT (JWTSecret demo_auth_opts) (token_claims ''acme'' ''hot'' ''access'' 0 900 ''j1'')"

lemma auth_service_simps [simp]:
  "s_opts auth_service = demo_auth_opts" "clock auth_service = 0" "AuthEnabled demo_auth_opts"
  "lookup_wallet auth_service k = None"
  by (simp_all add: auth_service_def demo_auth_opts_def defaultOptions_def demo_service_def fresh_service_def
      host.defs service.defs quiet_host_def lookup_wallet_def)

lemma demo_presents: "presents (authContext demo_token) auth_service \<lparr>SubTenantID = ''acme'', SubWalletID = ''hot'', SubType = ''access''\<rparr>"
  unfolding demo_token_def
proof (rule presents_signed)
  have wf: "wf_claims (token_claims ''acme'' ''hot'' ''access'' 0 900 ''j1'')"
    by (intro wf_token_claims demo_ids) (simp_all add: byte_val_def in_int64_def)
  show "validateJWT (JWTSecret (s_opts auth_service)) (clock auth_service)
      (signJWT (JWTSecret demo_auth_opts) (token_claims ''acme'' ''hot'' ''access'' 0 900 ''j1'')) ''access'' =
      Inr \<lparr>SubTenantID = ''acme'', SubWalletID = ''hot'', SubType = ''access''\<rparr>"
    by (simp add: validate_signed [OF wf] check_token_claims [OF demo_ids] unix_seconds_def)
qed

section \<open>Properties\<close>

text \<open>
  C12. Tokens work as issued: the pair issued for a well-formed identity is accepted back under the
  same secret, the access token as an access token and the refresh token as a refresh token, naming
  exactly that tenant and wallet, strictly until its lifetime is over and never after; and neither is
  accepted in the other's place.
\<close>

theorem issued_tokens_validate:
  assumes "issueTokens o' t w h = (Inr tokens, h')" and "idRE t" and "idRE w" and "clock_ok o' (clock h)"
  shows "validateJWT (JWTSecret o') now (AuthTokens_access_token tokens) ''access'' =
      (if unix_seconds (clock h + AccessTTL o') \<le> unix_seconds now then Inl (unauthenticated ''token expired'')
       else Inr \<lparr>SubTenantID = t, SubWalletID = w, SubType = ''access''\<rparr>)
    \<and> validateJWT (JWTSecret o') now (AuthTokens_refresh_token tokens) ''refresh'' =
      (if unix_seconds (clock h + RefreshTTL o') \<le> unix_seconds now then Inl (unauthenticated ''token expired'')
       else Inr \<lparr>SubTenantID = t, SubWalletID = w, SubType = ''refresh''\<rparr>)
    \<and> validateJWT (JWTSecret o') now (AuthTokens_access_token tokens) ''refresh'' = Inl (unauthenticated ''wrong token type'')
    \<and> validateJWT (JWTSecret o') now (AuthTokens_refresh_token tokens) ''access'' = Inl (unauthenticated ''wrong token type'')"
proof -
  obtain jti jti' where tok: "tokens = \<lparr>AuthTokens_access_token = signJWT (JWTSecret o')
              (token_claims t w ''access'' (unix_seconds (clock h)) (unix_seconds (clock h + AccessTTL o')) jti),
           AuthTokens_refresh_token = signJWT (JWTSecret o')
              (token_claims t w ''refresh'' (unix_seconds (clock h)) (unix_seconds (clock h + RefreshTTL o')) jti'),
           AuthTokens_token_type = ''Bearer'', AuthTokens_expires_at = format_RFC3339Nano (clock h + AccessTTL o'),
           AuthTokens_tenant_id = t, AuthTokens_wallet_id = w\<rparr>" and jti: "ascii jti" "ascii jti'"
    using issueTokens_result [of o' t w h] assms(1) by auto
  have wf: "wf_claims (token_claims t w ''access'' (unix_seconds (clock h)) (unix_seconds (clock h + AccessTTL o')) jti)"
      "wf_claims (token_claims t w ''refresh'' (unix_seconds (clock h)) (unix_seconds (clock h + RefreshTTL o')) jti')"
    using wf_token_claims [OF assms(2,3) ascii_types(1) jti(1)] wf_token_claims [OF assms(2,3) ascii_types(2) jti(2)]
      assms(4) by (simp_all add: clock_ok_def)
  show ?thesis
    unfolding tok by (simp add: validate_signed [OF wf(1)] validate_signed [OF wf(2)] check_token_claims [OF assms(2,3)])
qed

lemma demo_clock: "clock_ok demo_auth_opts 0"
  by (simp add: clock_ok_def demo_auth_opts_def defaultOptions_def unix_seconds_def in_int64_def
      time_Minute_def time_Hour_def time_Second_def)

lemma demo_issue: "\<exists>tokens h'. issueTokens demo_auth_opts ''acme'' ''hot'' (quiet_host []) = (Inr tokens, h')"
  using issueTokens_result by blast

theorem issued_tokens_validate_witness:
  "\<exists>tokens h'. issueTokens demo_auth_opts ''acme'' ''hot'' (quiet_host []) = (Inr tokens, h')
     \<and> validateJWT (JWTSecret demo_auth_opts) 0 (AuthTokens_access_token tokens) ''access'' =
         Inr \<lparr>SubTenantID = ''acme'', SubWalletID = ''hot'', SubType = ''access''\<rparr>
     \<and> validateJWT (JWTSecret demo_auth_opts) 0 (AuthTokens_refresh_token tokens) ''access'' =
         Inl (unauthenticated ''wrong token type'')"
proof -
  obtain tokens h' where i: "issueTokens demo_auth_opts ''acme'' ''hot'' (quiet_host []) = (Inr tokens, h')"
    using demo_issue by blast
  have c: "clock_ok demo_auth_opts (clock (quiet_host []))"
    using demo_clock by (simp add: quiet_host_def)
  have "\<not> unix_seconds (clock (quiet_host []) + AccessTTL demo_auth_opts) \<le> unix_seconds 0"
    by (simp add: quiet_host_def demo_auth_opts_def defaultOptions_def unix_seconds_def
        time_Minute_def time_Second_def)
  with issued_tokens_validate [OF i demo_ids c, of 0] i show ?thesis by auto
qed

text \<open>
  C13. Nothing but a token signed with the service's secret is accepted: when a token validates, it
  consists of three parts of which the last encodes the HMAC of the first two under the secret, and
  its claims have the type asked for, lie before their expiry, and name a tenant and a wallet, which
  are the ones reported. Every other token is answered \<open>Unauthenticated\<close>.
\<close>

theorem validate_only_signed:
  "case validateJWT secret now token typ of
     Inr sub \<Rightarrow> (\<exists>p0 p1 p2 body c. token = p0 @ CHR ''.'' # p1 @ CHR ''.'' # p2
       \<and> RawURL_DecodeString p2 = Inr (hmac_sha256 secret (bytes_of_string (p0 @ CHR ''.'' # p1)))
       \<and> RawURL_DecodeString p1 = Inr body \<and> unmarshal_claims (string_of_bytes body) = Inr c
       \<and> ClaimType c = typ \<and> unix_seconds now < Expires c \<and> ClaimTenantID c \<noteq> [] \<and> ClaimWalletID c \<noteq> []
       \<and> sub = \<lparr>SubTenantID = ClaimTenantID c, SubWalletID = ClaimWalletID c, SubType = typ\<rparr>)
   | Inl e \<Rightarrow> (\<exists>m. e = Status Unauthenticated m)"
proof (cases "validateJWT secret now token typ")
  case (Inl e)
  with validate_error show ?thesis by auto
next
  case (Inr sub)
  then obtain c where "genuine secret token c" "ClaimType c = typ \<and> unix_seconds now < Expires c
    \<and> ClaimTenantID c \<noteq> [] \<and> ClaimWalletID c \<noteq> []
    \<and> sub = \<lparr>SubTenantID = ClaimTenantID c, SubWalletID = ClaimWalletID c, SubType = typ\<rparr>"
    using validate_success by blast
  with Inr show ?thesis
    unfolding genuine_def by auto blast
qed

text \<open>
  C1. Tenant isolation of calls: with authentication on, a call whose request names a tenant passes
  only with an unexpired access token signed for exactly that tenant, and for exactly that wallet when
  the request names one; or it is the creation or restoration of a wallet that does not exist yet.
\<close>

theorem scoped_call_needs_matching_token:
  assumes "AuthEnabled (s_opts s)" and "authorize ctx (full_method r) (ApiMessage r) s = Inr ()"
    and "tenantWalletFromRequest (ApiMessage r) = (t, w, True)"
  shows "(\<exists>md c. ctx = Some md \<and> genuine (JWTSecret (s_opts s)) (presented_token md) c \<and> ClaimType c = ''access''
       \<and> unix_seconds (clock s) < Expires c \<and> t \<noteq> [] \<and> ClaimTenantID c = t \<and> (w = [] \<or> ClaimWalletID c = w))
    \<or> ((\<exists>q. r = Req_CreateWallet q) \<or> (\<exists>q. r = Req_RestoreWallet q))
       \<and> idRE t \<and> idRE w \<and> lookup_wallet s (walletKey t w) = None"
proof -
  have not_refresh: "\<not> HasSuffix (full_method r) ''/RefreshToken''"
    using HasSuffix_full [of "''RefreshToken''" r] assms(3)
    by (cases r) (auto simp: tenantWalletFromRequest_def)
  have boot: "isBootstrapMethod (full_method r) \<longleftrightarrow> (\<exists>q. r = Req_CreateWallet q) \<or> (\<exists>q. r = Req_RestoreWallet q)"
    using HasSuffix_full [of "''CreateWallet''" r] HasSuffix_full [of "''RestoreWallet''" r]
    by (cases r) (auto simp: isBootstrapMethod_def)
  from assms not_refresh consider
      "isBootstrapMethod (full_method r)" "bootstrapAllowed (ApiMessage r) s"
    | sub where "presents ctx s sub" "t \<noteq> []" "t = SubTenantID sub" "w = [] \<or> w = SubWalletID sub"
    unfolding authorize_iff by auto
  then show ?thesis
  proof cases
    case 1
    with boot assms(3) show ?thesis by (auto simp: bootstrapAllowed_iff)
  next
    case 2
    from 2(1) show ?thesis
      by (rule presents_genuine) (use 2(2-4) in auto)
  qed
qed

theorem scoped_call_needs_matching_token_witness:
  "let r = Req_Balance \<lparr>tenant_id = ''acme'', wallet_id = ''hot''\<rparr>; ctx = authContext demo_token in
   authorize ctx (full_method r) (ApiMessage r) auth_service = Inr ()
   \<and> (\<exists>md c. ctx = Some md \<and> genuine (JWTSecret (s_opts auth_service)) (presented_token md) c
        \<and> ClaimTenantID c = ''acme'' \<and> ClaimWalletID c = ''hot'')"
proof -
  let ?r = "Req_Balance \<lparr>tenant_id = ''acme'', wallet_id = ''hot''\<rparr>" and ?ctx = "authContext demo_token"
  have t: "tenantWalletFromRequest (ApiMessage ?r) = (''acme'', ''hot'', True)"
    by (simp add: tenantWalletFromRequest_def)
  have a: "authorize ?ctx (full_method ?r) (ApiMessage ?r) auth_service = Inr ()"
    unfolding authorize_iff using demo_presents t by (intro disjI2) auto
  have "AuthEnabled (s_opts auth_service)" by simp
  from scoped_call_needs_matching_token [OF this a t] a show ?thesis
    by (auto simp: Let_def)
qed

text \<open>
  C19. Every remote procedure of the service is classified: its request declares a tenant identifier,
  by which it is checked, exactly when it is not on the list of node-scoped methods; so no call of the
  API can reach the branch that refuses unclassified methods, and none escapes the tenant check.
\<close>

theorem every_rpc_classified:
  "(\<exists>t w. tenantWalletFromRequest (ApiMessage r) = (t, w, True)) \<longleftrightarrow> shortMethod (full_method r) \<notin> set nodeScopedMethods"
proof -
  obtain t w b where "tenantWalletFromRequest (ApiMessage r) = (t, w, b)"
    by (cases "tenantWalletFromRequest (ApiMessage r)")
  with tenantWallet_scoped [of r] show ?thesis by auto
qed

text \<open>
  C14. Closed by default: with authentication on, a call that presents no valid access token passes
  only if it is \<open>RefreshToken\<close>, or \<open>CreateWallet\<close> or \<open>RestoreWallet\<close> for a well-formed identity that has no
  wallet; with such a token, a method of this service that is neither tenant-scoped nor on the
  node-scoped list is refused. Every refusal is \<open>Unauthenticated\<close> or \<open>PermissionDenied\<close>.
\<close>

theorem closed_by_default:
  assumes "AuthEnabled (s_opts s)"
  shows "(\<forall>e. authorize ctx m req s = Inl e \<longrightarrow> (\<exists>msg. e = Status Unauthenticated msg \<or> e = Status PermissionDenied msg))
    \<and> ((\<forall>sub. \<not> presents ctx s sub) \<longrightarrow> authorize ctx m req s = Inr () \<longrightarrow>
         HasSuffix m ''/RefreshToken'' \<or>
         (HasSuffix m ''/CreateWallet'' \<or> HasSuffix m ''/RestoreWallet'')
         \<and> (\<exists>t w. tenantWalletFromRequest req = (t, w, True) \<and> idRE t \<and> idRE w
              \<and> lookup_wallet s (walletKey t w) = None))
    \<and> (isBSVMSMethod m \<longrightarrow> \<not> HasSuffix m ''/RefreshToken'' \<longrightarrow> \<not> snd (snd (tenantWalletFromRequest req)) \<longrightarrow>
         shortMethod m \<notin> set nodeScopedMethods \<longrightarrow> authorize ctx m req s \<noteq> Inr ())"
proof (intro conjI impI allI)
  fix e assume "authorize ctx m req s = Inl e"
  then show "\<exists>msg. e = Status Unauthenticated msg \<or> e = Status PermissionDenied msg"
    by (rule authorize_errors)
next
  assume "\<forall>sub. \<not> presents ctx s sub" and "authorize ctx m req s = Inr ()"
  then show "HasSuffix m ''/RefreshToken'' \<or> (HasSuffix m ''/CreateWallet'' \<or> HasSuffix m ''/RestoreWallet'')
         \<and> (\<exists>t w. tenantWalletFromRequest req = (t, w, True) \<and> idRE t \<and> idRE w
              \<and> lookup_wallet s (walletKey t w) = None)"
    using assms unfolding authorize_iff bootstrapAllowed_iff isBootstrapMethod_def by blast
next
  assume "isBSVMSMethod m" and "\<not> HasSuffix m ''/RefreshToken''"
    and "\<not> snd (snd (tenantWalletFromRequest req))" and "shortMethod m \<notin> set nodeScopedMethods"
  then show "authorize ctx m req s \<noteq> Inr ()"
    using assms unfolding authorize_iff bootstrapAllowed_iff
    by (cases "tenantWalletFromRequest req") auto
qed

theorem closed_by_default_witness:
  "authorize None ''/bsvms.v1.BSVMS/Status'' (ApiMessage Req_Status) auth_service \<noteq> Inr ()"
proof -
  have "\<forall>sub. \<not> presents None auth_service sub"
    by (simp add: presents_def authSubjectFromContext_def)
  moreover have "AuthEnabled (s_opts auth_service)" by simp
  ultimately show ?thesis
    using closed_by_default [of auth_service None "''/bsvms.v1.BSVMS/Status''" "ApiMessage Req_Status"]
    by (auto simp: HasSuffix_def)
qed

text \<open>
  C21. Refreshing never widens authority: \<open>RefreshToken\<close> succeeds only with authentication on and a
  token that validates as a refresh token, issues a new pair for exactly the tenant and wallet that
  token names, and changes nothing but the random source; in every other case it fails without any
  effect, an access token included.
\<close>

theorem refresh_keeps_subject:
  "case RefreshToken req s of
     (Inl e, s') \<Rightarrow> s' = s
   | (Inr tokens, s') \<Rightarrow> AuthEnabled (s_opts s) \<and> (\<exists>e. s' = s\<lparr>entropy := e\<rparr>)
       \<and> (\<exists>sub. validateJWT (JWTSecret (s_opts s)) (clock s) (RefreshTokenReq_refresh_token req) ''refresh'' = Inr sub
           \<and> AuthTokens_tenant_id tokens = SubTenantID sub \<and> AuthTokens_wallet_id tokens = SubWalletID sub
           \<and> (idRE (SubTenantID sub) \<longrightarrow> idRE (SubWalletID sub) \<longrightarrow> clock_ok (s_opts s) (clock s) \<longrightarrow> 0 < AccessTTL (s_opts s) div time_Second \<longrightarrow>
                validateJWT (JWTSecret (s_opts s)) (clock s) (AuthTokens_access_token tokens) ''access''
                  = Inr (sub\<lparr>SubType := ''access''\<rparr>)))"
proof (cases "AuthEnabled (s_opts s)")
  case False
  then show ?thesis by (simp add: RefreshToken_def act_simps)
next
  case True
  let ?v = "validateJWT (JWTSecret (s_opts s)) (clock s) (RefreshTokenReq_refresh_token req) ''refresh''"
  show ?thesis
  proof (cases ?v)
    case (Inl e)
    with True show ?thesis by (simp add: RefreshToken_def act_simps time_Now_def)
  next
    case (Inr sub)
    obtain jti jti' e where tok: "issueTokens (s_opts s) (SubTenantID sub) (SubWalletID sub) s =
     (Inr \<lparr>AuthTokens_access_token = signJWT (JWTSecret (s_opts s))
              (token_claims (SubTenantID sub) (SubWalletID sub) ''access'' (unix_seconds (clock s)) (unix_seconds (clock s + AccessTTL (s_opts s))) jti),
           AuthTokens_refresh_token = signJWT (JWTSecret (s_opts s))
              (token_claims (SubTenantID sub) (SubWalletID sub) ''refresh'' (unix_seconds (clock s)) (unix_seconds (clock s + RefreshTTL (s_opts s))) jti'),
           AuthTokens_token_type = ''Bearer'', AuthTokens_expires_at = format_RFC3339Nano (clock s + AccessTTL (s_opts s)),
           AuthTokens_tenant_id = SubTenantID sub, AuthTokens_wallet_id = SubWalletID sub\<rparr>, s\<lparr>entropy := e\<rparr>)"
      and jti: "ascii jti"
      using issueTokens_result [of "s_opts s" "SubTenantID sub" "SubWalletID sub" s] by blast
    have later: "\<not> unix_seconds (clock s + AccessTTL (s_opts s)) \<le> unix_seconds (clock s)"
      if ttl: "0 < AccessTTL (s_opts s) div time_Second"
    proof -
      have "time_Second \<le> AccessTTL (s_opts s)"
        using ttl pos_imp_zdiv_pos_iff [of time_Second "AccessTTL (s_opts s)"] by (simp add: time_Second_def)
      then have "(clock s + time_Second) div time_Second \<le> (clock s + AccessTTL (s_opts s)) div time_Second"
        by (intro zdiv_mono1) (simp_all add: time_Second_def)
      then show ?thesis by (simp add: unix_seconds_def time_Second_def)
    qed
    have "validateJWT (JWTSecret (s_opts s)) (clock s) (signJWT (JWTSecret (s_opts s))
       (token_claims (SubTenantID sub) (SubWalletID sub) ''access'' (unix_seconds (clock s)) (unix_seconds (clock s + AccessTTL (s_opts s))) jti)) ''access''
        = Inr \<lparr>SubTenantID = SubTenantID sub, SubWalletID = SubWalletID sub, SubType = ''access''\<rparr>"
      if v: "idRE (SubTenantID sub)" "idRE (SubWalletID sub)" "clock_ok (s_opts s) (clock s)" "0 < AccessTTL (s_opts s) div time_Second"
      using validate_signed [OF wf_token_claims [OF v(1,2) ascii_types(1) jti], of "unix_seconds (clock s)"
          "unix_seconds (clock s + AccessTTL (s_opts s))" "JWTSecret (s_opts s)" "clock s" "''access''"] v(3) later [OF v(4)]
      by (simp add: clock_ok_def check_token_claims [OF v(1,2)])
    with True Inr tok show ?thesis
      by (cases sub) (auto simp: RefreshToken_def act_simps time_Now_def)
  qed
qed

definition demo_refresh :: string where
  "demo_refresh = signJWT (JWTSecret demo_auth_opts) (token_claims ''acme'' ''hot'' ''refresh'' 0 86400 ''j2'')"

lemma demo_refresh_valid:
  "validateJWT (JWTSecret demo_auth_opts) 0 demo_refresh ''refresh'' =
     Inr \<lparr>SubTenantID = ''acme'', SubWalletID = ''hot'', SubType = ''refresh''\<rparr>"
proof -
  have wf: "wf_claims (token_claims ''acme'' ''hot'' ''refresh'' 0 86400 ''j2'')"
    by (intro wf_token_claims demo_ids) (simp_all add: byte_val_def in_int64_def)
  show ?thesis
    by (simp add: demo_refresh_def validate_signed [OF wf] check_token_claims [OF demo_ids] unix_seconds_def)
qed

theorem refresh_keeps_subject_witness:
  "\<exists>tokens s'. RefreshToken \<lparr>RefreshTokenReq_refresh_token = demo_refresh\<rparr> auth_service = (Inr tokens, s')
     \<and> AuthTokens_tenant_id tokens = ''acme'' \<and> AuthTokens_wallet_id tokens = ''hot''
     \<and> validateJWT (JWTSecret demo_auth_opts) 0 (AuthTokens_access_token tokens) ''access''
         = Inr \<lparr>SubTenantID = ''acme'', SubWalletID = ''hot'', SubType = ''access''\<rparr>"
proof -
  let ?req = "\<lparr>RefreshTokenReq_refresh_token = demo_refresh\<rparr>"
  have "\<exists>tokens s'. RefreshToken ?req auth_service = (Inr tokens, s')"
    using issueTokens_result [of demo_auth_opts "''acme''" "''hot''" auth_service]
    by (auto simp: RefreshToken_def act_simps time_Now_def demo_refresh_valid)
  then obtain tokens s' where r: "RefreshToken ?req auth_service = (Inr tokens, s')" by blast
  have ttl: "0 < AccessTTL demo_auth_opts div time_Second"
    by (simp add: demo_auth_opts_def defaultOptions_def time_Minute_def time_Second_def)
  from refresh_keeps_subject [where req = ?req and s = auth_service] r demo_ids demo_clock ttl show ?thesis
    by (auto simp: demo_refresh_valid)
qed

text \<open>
  The first message the generated handler of a stream receives through the wrapped stream reaches it
  only if authorization passes for that message; the wrapper is then marked as checked.
\<close>

lemma RecvMsg_first:
  assumes "\<not> ss_checked a" and "ss_inbox a = Some m # rest"
  shows "RecvMsg a s = (case authorize (ss_context a) (ss_method a) m s of Inl e \<Rightarrow> Inl e | Inr _ \<Rightarrow> Inr m,
    a\<lparr>ss_checked := True, ss_inbox := rest\<rparr>)"
  using assms by (simp add: RecvMsg_def transport_recv_def Let_def split: sum.split)

text \<open>
  C38. The wallet of a token is not enforced when the request names none: a token for one wallet
  passes for \<open>ListWallets\<close> and, with an empty wallet identifier, for the payment and wallet-transaction
  streams of its whole tenant.
\<close>

theorem wallet_scope_not_enforced:
  assumes "presents ctx s sub" and "SubTenantID sub \<noteq> []"
    and "r \<in> {Req_ListWallets \<lparr>ListWalletsReq_tenant_id = SubTenantID sub\<rparr>,
             Req_StreamPayments \<lparr>tenant_id = SubTenantID sub, wallet_id = []\<rparr>,
             Req_StreamWalletTransactions \<lparr>tenant_id = SubTenantID sub, wallet_id = []\<rparr>}"
  shows "authorize ctx (full_method r) (ApiMessage r) s = Inr () \<and> matches (SubTenantID sub) [] (SubTenantID sub) w"
proof -
  have "tenantWalletFromRequest (ApiMessage r) = (SubTenantID sub, [], True)"
    using assms(3) by (auto simp: tenantWalletFromRequest_def)
  with assms(1,2) show ?thesis
    unfolding authorize_iff by (auto simp: matches_iff)
qed

theorem wallet_scope_not_enforced_witness:
  "let r = Req_StreamPayments \<lparr>tenant_id = ''acme'', wallet_id = []\<rparr> in
   authorize (authContext demo_token) (full_method r) (ApiMessage r) auth_service = Inr () \<and> matches ''acme'' [] ''acme'' ''cold''"
  using wallet_scope_not_enforced [OF demo_presents, of "Req_StreamPayments \<lparr>tenant_id = ''acme'', wallet_id = []\<rparr>" "''cold''"]
  by (simp add: Let_def)

end
