(* ===== verification/Handlers.thy ===== *)
theory Handlers
  imports Auth_Props
begin

text \<open>
  The unary handlers of \<^verbatim>\<open>internal/service/service.go\<close> besides those of the registry, and the
  conversions between SDK values and messages. Every handler that acts on a wallet first looks it up
  with \<open>wallet\<close>; SDK errors become \<open>Internal\<close>. Responses without fields are of type \<open>unit\<close>.
\<close>

section \<open>Conversions\<close>

definition derivedAddress :: "bsv_DerivedAddress \<Rightarrow> DerivedAddress" where
  "derivedAddress a =
     \<lparr>DerivedAddress_address = da_Address a, DerivedAddress_path = da_Path a,
      DerivedAddress_pub_key = da_PubKey a, DerivedAddress_script = da_Script a,
      DerivedAddress_branch = da_Branch a, DerivedAddress_index = da_Index a\<rparr>"

definition outputSpec :: "bsv_OutputSpec \<Rightarrow> OutputSpec" where
  "outputSpec x = \<lparr>OutputSpec_script = os_Script x, OutputSpec_value = os_Value x\<rparr>"

definition outputSpecs :: "OutputSpec list \<Rightarrow> bsv_OutputSpec list" where
  "outputSpecs src = map (\<lambda>item. \<lparr>os_Script = OutputSpec_script item, os_Value = OutputSpec_value item\<rparr>) src"

fun outPoints :: "'n sdk \<Rightarrow> OutPoint list \<Rightarrow> bsv_OutPoint list result" where
  "outPoints A [] = Inr []"
| "outPoints A (x # xs) =
     (case pkg_TxIDFromHex (the_pkg A) (OutPoint_txid x) of
        Inl _ \<Rightarrow> Inl (invalid ''invalid from_inputs txid'')
      | Inr txid \<Rightarrow>
         bindR (outPoints A xs) (\<lambda>ps. Inr (\<lparr>op_Hash = txid, op_Index = OutPoint_vout x\<rparr> # ps)))"

fun customInputs :: "'n sdk \<Rightarrow> CustomInput list \<Rightarrow> bsv_CustomInput list result" where
  "customInputs A [] = Inr []"
| "customInputs A (x # xs) =
     (case pkg_TxIDFromHex (the_pkg A) (CustomInput_txid x) of
        Inl _ \<Rightarrow> Inl (invalid ''invalid input txid'')
      | Inr txid \<Rightarrow>
         bindR (customInputs A xs) (\<lambda>ps. Inr (\<lparr>ci_TxID = txid, ci_Vout = CustomInput_vout x,
           ci_ScriptSig = CustomInput_script_sig x, ci_Sequence = CustomInput_sequence x\<rparr> # ps)))"

definition utxo :: "bsv_UTXO \<Rightarrow> UTXO" where
  "utxo u = \<lparr>UTXO_txid = u_TxID u, UTXO_vout = u_Vout u, UTXO_value = u_Value u, UTXO_script = u_Script u,
     UTXO_height = u_Height u, UTXO_is_coinbase = u_IsCoinbase u\<rparr>"

definition utxos :: "bsv_UTXO list \<Rightarrow> UTXO list" where
  "utxos src = map utxo src"

definition spendDetail :: "bsv_SpendDetail option \<Rightarrow> SpendDetail option" where
  "spendDetail md =
     (case md of
        None \<Rightarrow> None
      | Some d \<Rightarrow> Some
         \<lparr>SpendDetail_txid = sd_TxID d, SpendDetail_spent_utxos = utxos (sd_SpentUTXOs d),
          SpendDetail_change_utxo = (case sd_ChangeUTXO d of None \<Rightarrow> None | Some u \<Rightarrow> Some (hd (utxos [u]))),
          SpendDetail_raw_tx = sd_RawTx d\<rparr>)"

text \<open>\<^verbatim>\<open>blockHashHex\<close>: byte \<open>i\<close> of the display form is byte \<open>31 - i\<close> of the 32-byte hash.\<close>

definition blockHashHex :: "bytes \<Rightarrow> string" where
  "blockHashHex h = Hex_EncodeToString (map (\<lambda>i. h ! (31 - i)) [0..<32])"

definition relayTimeout :: "int \<Rightarrow> int" where
  "relayTimeout ms = (if ms \<le> 0 then to_int64 (10 * time_Second) else to_int64 (ms * time_Millisecond))"

section \<open>The node\<close>

definition Status_rpc :: "'n sdk \<Rightarrow> ('n, StatusResponse) operation" where
  "Status_rpc A =
     bindE (getS s_dataDir) (\<lambda>dir.
     sdkQ (\<lambda>n. \<lparr>StatusResp_network = node_Network (the_node A) n,
       StatusResp_chain_height = node_ChainHeight (the_node A) n,
       StatusResp_best_peer_height = node_BestPeerHeight (the_node A) n,
       StatusResp_peer_count = to_int32 (node_PeerCount (the_node A) n),
       StatusResp_data_dir = dir,
       StatusResp_peer_heights = node_PeerHeights (the_node A) n,
       StatusResp_coinbase_maturity = pkg_CoinbaseMaturity (the_pkg A)\<rparr>))"

definition ConnectPeer :: "'n sdk \<Rightarrow> ConnectPeerRequest \<Rightarrow> ('n, unit) operation" where
  "ConnectPeer A req =
     (if ConnectPeerReq_address req = [] then throwE (invalid ''address required'')
      else internalE (sdkE (node_ConnectPeer (the_node A) (ConnectPeerReq_address req))))"

section \<open>Addresses and keys\<close>

definition NewAddress :: "'n sdk \<Rightarrow> TenantWallet \<Rightarrow> ('n, AddressResponse) operation" where
  "NewAddress A req =
     bindE (wallet (tenant_id req) (wallet_id req)) (\<lambda>tw.
     bindE (internalE (sdkE (wal_NewDerivedAddress (the_wallet A) (tw_w tw)))) (\<lambda>addr.
     bindE (saveSnapshot A tw) (\<lambda>_.
     returnE \<lparr>AddressResp_address = Some (derivedAddress addr)\<rparr>)))"

definition BatchNewAddresses :: "'n sdk \<Rightarrow> BatchNewAddressesRequest \<Rightarrow> ('n, BatchNewAddressesResponse) operation" where
  "BatchNewAddresses A req =
     bindE (wallet (tenant_id req) (wallet_id req)) (\<lambda>tw.
     if BatchNewAddressesReq_count req \<le> 0 then throwE (invalid ''count must be positive'')
     else
       bindE (internalE (sdkE (wal_BatchNewDerivedAddresses (the_wallet A) (tw_w tw) (BatchNewAddressesReq_count req)))) (\<lambda>addrs.
       bindE (saveSnapshot A tw) (\<lambda>_.
       returnE \<lparr>BatchNewAddressesResp_addresses = map derivedAddress addrs\<rparr>)))"

definition DeriveAt :: "'n sdk \<Rightarrow> DeriveAtRequest \<Rightarrow> ('n, AddressResponse) operation" where
  "DeriveAt A req =
     bindE (wallet (tenant_id req) (wallet_id req)) (\<lambda>tw.
     bindE (internalE (sdkE (wal_DeriveAt (the_wallet A) (tw_w tw) (DeriveAtReq_branch req) (DeriveAtReq_index req)))) (\<lambda>address.
     bindE (internalE (sdkE (wal_PubKeyAt (the_wallet A) (tw_w tw) (DeriveAtReq_branch req) (DeriveAtReq_index req)))) (\<lambda>(pub, _).
     bindE (internalE (bindE (sdkQ (node_P2PKHOutput (the_node A) address 0)) liftR)) (\<lambda>spec.
     bindE (saveSnapshot A tw) (\<lambda>_.
     returnE \<lparr>AddressResp_address = Some
       \<lparr>DerivedAddress_address = address,
        DerivedAddress_path = show_nat (unat (DeriveAtReq_branch req)) @ ''/'' @ show_nat (unat (DeriveAtReq_index req)),
        DerivedAddress_pub_key = pub, DerivedAddress_script = os_Script spec,
        DerivedAddress_branch = DeriveAtReq_branch req, DerivedAddress_index = DeriveAtReq_index req\<rparr>\<rparr>)))))"

definition PubKeyAt :: "'n sdk \<Rightarrow> PubKeyAtRequest \<Rightarrow> ('n, PubKeyAtResponse) operation" where
  "PubKeyAt A req =
     bindE (wallet (tenant_id req) (wallet_id req)) (\<lambda>tw.
     bindE (internalE (sdkE (wal_PubKeyAt (the_wallet A) (tw_w tw) (PubKeyAtReq_branch req) (PubKeyAtReq_index req)))) (\<lambda>(pub, address).
     bindE (saveSnapshot A tw) (\<lambda>_.
     returnE \<lparr>PubKeyAtResp_pub_key = pub, PubKeyAtResp_address = address\<rparr>)))"

definition SignHashAt :: "'n sdk \<Rightarrow> SignHashAtRequest \<Rightarrow> ('n, SignHashAtResponse) operation" where
  "SignHashAt A req =
     bindE (wallet (tenant_id req) (wallet_id req)) (\<lambda>tw.
     bindE (internalE (sdkE (wal_SignHashAt (the_wallet A) (tw_w tw) (SignHashAtReq_branch req) (SignHashAtReq_index req) (SignHashAtReq_hash req)))) (\<lambda>(sig, pub).
     returnE \<lparr>SignHashAtResp_signature = sig, SignHashAtResp_pub_key = pub\<rparr>))"

definition NextIndex :: "'n sdk \<Rightarrow> NextIndexRequest \<Rightarrow> ('n, NextIndexResponse) operation" where
  "NextIndex A req =
     bindE (wallet (tenant_id req) (wallet_id req)) (\<lambda>tw.
     bindE (sdkQ (wal_NextIndex (the_wallet A) (tw_w tw) (NextIndexReq_branch req))) (\<lambda>i.
     returnE \<lparr>NextIndexResp_next_index = i\<rparr>))"

section \<open>Balances and coins\<close>

definition Balance :: "'n sdk \<Rightarrow> TenantWallet \<Rightarrow> ('n, BalanceResponse) operation" where
  "Balance A req =
     bindE (wallet (tenant_id req) (wallet_id req)) (\<lambda>tw.
     sdkQ (\<lambda>n. \<lparr>BalanceResp_satoshis = wal_Balance (the_wallet A) (tw_w tw) n,
       BalanceResp_bsv = wal_BalanceBSV (the_wallet A) (tw_w tw) n,
       BalanceResp_spendable = wal_SpendableBalance (the_wallet A) (tw_w tw) n,
       BalanceResp_immature = wal_ImmatureBalance (the_wallet A) (tw_w tw) n\<rparr>))"

definition ListUTXOs :: "'n sdk \<Rightarrow> TenantWallet \<Rightarrow> ('n, ListUTXOsResponse) operation" where
  "ListUTXOs A req =
     bindE (wallet (tenant_id req) (wallet_id req)) (\<lambda>tw.
     sdkQ (\<lambda>n. \<lparr>ListUTXOsResp_utxos = utxos (wal_UTXOs (the_wallet A) (tw_w tw) n)\<rparr>))"

definition ImportUTXO :: "'n sdk \<Rightarrow> ImportUTXORequest \<Rightarrow> ('n, unit) operation" where
  "ImportUTXO A req =
     bindE (wallet (tenant_id req) (wallet_id req)) (\<lambda>tw.
     internalE (sdkE
       (if ImportUTXOReq_force req then
          wal_ForceImportCoin (the_wallet A) (tw_w tw)
            \<lparr>u_TxID = ImportUTXOReq_txid req, u_Vout = ImportUTXOReq_vout req, u_Value = ImportUTXOReq_value req,
             u_Script = ImportUTXOReq_script req, u_Height = ImportUTXOReq_height req,
             u_IsCoinbase = ImportUTXOReq_is_coinbase req\<rparr>
        else
          wal_ImportUTXO (the_wallet A) (tw_w tw) (ImportUTXOReq_txid req) (ImportUTXOReq_vout req)
            (ImportUTXOReq_value req) (ImportUTXOReq_script req) (ImportUTXOReq_height req))))"

definition ProcessRawTx :: "'n sdk \<Rightarrow> ProcessRawTxRequest \<Rightarrow> ('n, unit) operation" where
  "ProcessRawTx A req =
     bindE (wallet (tenant_id req) (wallet_id req)) (\<lambda>tw.
     internalE (sdkE (wal_ProcessRawTx (the_wallet A) (tw_w tw) (ProcessRawTxReq_raw_tx req) (ProcessRawTxReq_height req))))"

definition ClearUTXOs :: "'n sdk \<Rightarrow> TenantWallet \<Rightarrow> ('n, ClearUTXOsResponse) operation" where
  "ClearUTXOs A req =
     bindE (wallet (tenant_id req) (wallet_id req)) (\<lambda>tw.
     bindE (sdkN (wal_ClearUTXOs (the_wallet A) (tw_w tw))) (\<lambda>k.
     returnE \<lparr>ClearUTXOsResp_cleared = to_int32 k\<rparr>))"

definition ReloadFromStore :: "'n sdk \<Rightarrow> TenantWallet \<Rightarrow> ('n, ReloadFromStoreResponse) operation" where
  "ReloadFromStore A req =
     bindE (wallet (tenant_id req) (wallet_id req)) (\<lambda>tw.
     bindE (internalE (sdkE (wal_ReloadFromStore (the_wallet A) (tw_w tw)))) (\<lambda>k.
     returnE \<lparr>ReloadFromStoreResp_loaded = to_int32 k\<rparr>))"

definition WipeWallet :: "'n sdk \<Rightarrow> TenantWallet \<Rightarrow> ('n, WipeWalletResponse) operation" where
  "WipeWallet A req =
     bindE (wallet (tenant_id req) (wallet_id req)) (\<lambda>tw.
     bindE (internalE (sdkE (wal_Wipe (the_wallet A) (tw_w tw)))) (\<lambda>k.
     returnE \<lparr>WipeWalletResp_removed = to_int32 k\<rparr>))"

definition PruneUnknownUTXOs :: "'n sdk \<Rightarrow> TenantWallet \<Rightarrow> ('n, PruneUnknownUTXOsResponse) operation" where
  "PruneUnknownUTXOs A req =
     bindE (wallet (tenant_id req) (wallet_id req)) (\<lambda>tw.
     bindE (sdkN (wal_PruneUnknownUTXOs (the_wallet A) (tw_w tw))) (\<lambda>k.
     returnE \<lparr>PruneUnknownUTXOsResp_removed = to_int32 k\<rparr>))"

definition IgnoreOutpoint :: "'n sdk \<Rightarrow> IgnoreOutpointRequest \<Rightarrow> ('n, unit) operation" where
  "IgnoreOutpoint A req =
     bindE (wallet (tenant_id req) (wallet_id req)) (\<lambda>tw.
     sdkU (if IgnoreOutpointReq_unignore req
           then wal_UnignoreOutpoint (the_wallet A) (tw_w tw) (IgnoreOutpointReq_txid req) (IgnoreOutpointReq_vout req)
           else wal_IgnoreOutpoint (the_wallet A) (tw_w tw) (IgnoreOutpointReq_txid req) (IgnoreOutpointReq_vout req)))"

definition IsOutpointIgnored :: "'n sdk \<Rightarrow> IsOutpointIgnoredRequest \<Rightarrow> ('n, IsOutpointIgnoredResponse) operation" where
  "IsOutpointIgnored A req =
     bindE (wallet (tenant_id req) (wallet_id req)) (\<lambda>tw.
     bindE (sdkQ (wal_IsOutpointIgnored (the_wallet A) (tw_w tw) (IsOutpointIgnoredReq_txid req) (IsOutpointIgnoredReq_vout req))) (\<lambda>b.
     returnE \<lparr>IsOutpointIgnoredResp_ignored = b\<rparr>))"

definition UntrackUTXO :: "'n sdk \<Rightarrow> UntrackUTXORequest \<Rightarrow> ('n, UntrackUTXOResponse) operation" where
  "UntrackUTXO A req =
     bindE (wallet (tenant_id req) (wallet_id req)) (\<lambda>tw.
     bindE (sdkN (wal_UntrackUTXO (the_wallet A) (tw_w tw) (UntrackUTXOReq_txid req) (UntrackUTXOReq_vout req))) (\<lambda>v.
     returnE \<lparr>UntrackUTXOResp_removed_value = v\<rparr>))"

definition CanCover :: "'n sdk \<Rightarrow> CanCoverRequest \<Rightarrow> ('n, unit) operation" where
  "CanCover A req =
     bindE (wallet (tenant_id req) (wallet_id req)) (\<lambda>tw.
     internalE (bindE (sdkQ (wal_CanCover (the_wallet A) (tw_w tw) (CanCoverReq_total_out req)
        (CanCoverReq_fee_per_byte req) (CanCoverReq_fixed_outputs req))) liftR))"

section \<open>Spending\<close>

definition Send :: "'n sdk \<Rightarrow> SendRequest \<Rightarrow> ('n, SpendResponse) operation" where
  "Send A req =
     bindE (wallet (tenant_id req) (wallet_id req)) (\<lambda>tw.
     bindE (internalE (sdkE (wal_Send (the_wallet A) (tw_w tw) (SendReq_to_address req) (SendReq_amount_satoshis req)))) (\<lambda>txid.
     bindE (saveSnapshot A tw) (\<lambda>_.
     returnE \<lparr>SpendResp_txid = txid\<rparr>)))"

definition SendAll :: "'n sdk \<Rightarrow> SendAllRequest \<Rightarrow> ('n, SpendResponse) operation" where
  "SendAll A req =
     bindE (wallet (tenant_id req) (wallet_id req)) (\<lambda>tw.
     bindE (internalE (sdkE (wal_SendAll (the_wallet A) (tw_w tw) (SendAllReq_to_address req)))) (\<lambda>txid.
     bindE (saveSnapshot A tw) (\<lambda>_.
     returnE \<lparr>SpendResp_txid = txid\<rparr>)))"

definition SpendToOutputs :: "'n sdk \<Rightarrow> SpendToOutputsRequest \<Rightarrow> ('n, SpendDetailResponse) operation" where
  "SpendToOutputs A req =
     bindE (wallet (tenant_id req) (wallet_id req)) (\<lambda>tw.
     let outs = outputSpecs (SpendToOutputsReq_outputs req) in
     bindE (if 0 < length (SpendToOutputsReq_from_inputs req) then
              if SpendToOutputsReq_ignore_fixed_outputs req
              then throwE (invalid ''from_inputs and ignore_fixed_outputs are mutually exclusive'')
              else bindE (liftR (outPoints A (SpendToOutputsReq_from_inputs req))) (\<lambda>inputs.
                   internalE (sdkE (wal_SpendToOutputsDetailedFrom (the_wallet A) (tw_w tw) inputs outs)))
            else if SpendToOutputsReq_ignore_fixed_outputs req then
              internalE (sdkE (wal_SpendToOutputsDetailedIgnoringFixed (the_wallet A) (tw_w tw) outs))
            else internalE (sdkE (wal_SpendToOutputsDetailed (the_wallet A) (tw_w tw) outs))) (\<lambda>detail.
     bindE (saveSnapshot A tw) (\<lambda>_.
     returnE \<lparr>SpendDetailResp_detail = spendDetail detail\<rparr>)))"

definition BroadcastCustomSpend :: "'n sdk \<Rightarrow> BroadcastCustomSpendRequest \<Rightarrow> ('n, SpendResponse) operation" where
  "BroadcastCustomSpend A req =
     bindE (getS s_opts) (\<lambda>options.
     if \<not> EnableCustomSpend options
     then throwE (Status FailedPrecondition ''BroadcastCustomSpend disabled'')
     else
       bindE (liftR (customInputs A (BroadcastCustomSpendReq_inputs req))) (\<lambda>inputs.
       bindE (internalE (sdkE (node_SpendCustom (the_node A) inputs (outputSpecs (BroadcastCustomSpendReq_outputs req))))) (\<lambda>txid.
       returnE \<lparr>SpendResp_txid = txid\<rparr>)))"

definition P2PKHOutput :: "'n sdk \<Rightarrow> P2PKHOutputRequest \<Rightarrow> ('n, OutputSpec) operation" where
  "P2PKHOutput A req =
     bindE (internalE (bindE (sdkQ (node_P2PKHOutput (the_node A) (P2PKHOutputReq_address req) (P2PKHOutputReq_value req))) liftR)) (\<lambda>out.
     returnE (outputSpec out))"

definition OpReturnOutput :: "'n sdk \<Rightarrow> OpReturnOutputRequest \<Rightarrow> ('n, OutputSpec) operation" where
  "OpReturnOutput A req = returnE (outputSpec (pkg_OpReturnOutput (the_pkg A) (OpReturnOutputReq_data req)))"

definition AnyoneCanSpendOutput :: "'n sdk \<Rightarrow> AnyoneCanSpendOutputRequest \<Rightarrow> ('n, OutputSpec) operation" where
  "AnyoneCanSpendOutput A req = returnE (outputSpec (pkg_AnyoneCanSpendOutput (the_pkg A) (AnyoneCanSpendOutputReq_value req)))"

definition ParseTransaction :: "'n sdk \<Rightarrow> ParseTransactionRequest \<Rightarrow> ('n, Transaction option) operation" where
  "ParseTransaction A req =
     bindE (internalE (liftR (pkg_ParseTransaction (the_pkg A) (ParseTransactionReq_raw_tx req)))) (\<lambda>tx.
     sdkQ (transactionProto A (Some tx)))"

definition BroadcastRaw :: "'n sdk \<Rightarrow> BroadcastRawRequest \<Rightarrow> ('n, BroadcastRawResponse) operation" where
  "BroadcastRaw A req =
     bindE (internalE (sdkE (node_BroadcastRaw (the_node A) (BroadcastRawReq_raw_tx req)))) (\<lambda>txid.
     returnE \<lparr>BroadcastRawResp_txid = txid\<rparr>)"

definition ExecuteScript :: "'n sdk \<Rightarrow> ExecuteScriptRequest \<Rightarrow> ('n, ExecuteScriptResponse) operation" where
  "ExecuteScript A req =
     bindE (if 0 < length (ExecuteScriptReq_raw_tx req)
            then bindE (internalE (liftR (pkg_ParseTransaction (the_pkg A) (ExecuteScriptReq_raw_tx req)))) (\<lambda>tx. returnE (Some tx))
            else returnE None) (\<lambda>tx.
     let exec = (if ExecuteScriptReq_strict req then node_ExecuteScriptStrict (the_node A) else node_ExecuteScript (the_node A)) in
     bindE (sdkQ (exec (ExecuteScriptReq_script_sig req) (ExecuteScriptReq_script_pub_key req) tx
        (ExecuteScriptReq_input_index req) (ExecuteScriptReq_amount req))) (\<lambda>r.
     case r of
       Inl err \<Rightarrow> returnE \<lparr>ExecuteScriptResp_ok = False, ExecuteScriptResp_error = error_text err\<rparr>
     | Inr _ \<Rightarrow> returnE \<lparr>ExecuteScriptResp_ok = True, ExecuteScriptResp_error = []\<rparr>))"

definition DecodeOutputAddress :: "'n sdk \<Rightarrow> DecodeOutputAddressRequest \<Rightarrow> ('n, DecodeOutputAddressResponse) operation" where
  "DecodeOutputAddress A req =
     bindE (sdkQ (node_DecodeOutputAddress (the_node A) (DecodeOutputAddressReq_script_pub_key req))) (\<lambda>(addr, ok).
     returnE \<lparr>DecodeOutputAddressResp_address = addr, DecodeOutputAddressResp_ok = ok\<rparr>)"

section \<open>Pending transactions and relay\<close>

definition pending_proto :: "bsv_PendingTx \<Rightarrow> PendingTransaction" where
  "pending_proto tx =
     \<lparr>PendingTransaction_txid = pt_TxID tx,
      PendingTransaction_first_broadcast = format_zoned (pt_FirstBroadcast tx),
      PendingTransaction_last_broadcast = format_zoned (pt_LastBroadcast tx),
      PendingTransaction_last_announce = format_zoned (pt_LastAnnounce tx),
      PendingTransaction_rebroadcasts = to_int32 (pt_Rebroadcasts tx)\<rparr>"

definition PendingTransactions :: "'n sdk \<Rightarrow> ('n, PendingTransactionsResponse) operation" where
  "PendingTransactions A =
     sdkQ (\<lambda>n. \<lparr>PendingTransactionsResp_transactions = map pending_proto (node_PendingTransactions (the_node A) n)\<rparr>)"

definition RebroadcastPendingTransactions :: "'n sdk \<Rightarrow> ('n, RebroadcastPendingTransactionsResponse) operation" where
  "RebroadcastPendingTransactions A =
     bindE (sdkN (node_RebroadcastPendingTransactions (the_node A))) (\<lambda>k.
     returnE \<lparr>RebroadcastPendingTransactionsResp_count = to_int32 k\<rparr>)"

definition VerifyTxSeen :: "'n sdk \<Rightarrow> VerifyTxSeenRequest \<Rightarrow> ('n, VerifyTxSeenResponse) operation" where
  "VerifyTxSeen A req =
     (if VerifyTxSeenReq_txid req = [] then throwE (invalid ''txid required'')
      else
        (let peers = (if VerifyTxSeenReq_peers_to_ask req \<le> 0 then 1 else VerifyTxSeenReq_peers_to_ask req);
             timeout = relayTimeout (VerifyTxSeenReq_timeout_ms req) in
         bindE (tryE (sdkE (node_VerifyTxSeen (the_node A) (VerifyTxSeenReq_txid req) peers timeout))) (\<lambda>r.
         case r of
           Inl err \<Rightarrow>
             if errors_is err ErrTxUnverified then returnE \<lparr>VerifyTxSeenResp_seen = False\<rparr>
             else throwE (internal err)
         | Inr seen \<Rightarrow> returnE \<lparr>VerifyTxSeenResp_seen = seen\<rparr>)))"

definition WaitForTxRelay :: "'n sdk \<Rightarrow> WaitForTxRelayRequest \<Rightarrow> ('n, WaitForTxRelayResponse) operation" where
  "WaitForTxRelay A req =
     (if WaitForTxRelayReq_txid req = [] then throwE (invalid ''txid required'')
      else
        (let timeout = relayTimeout (WaitForTxRelayReq_timeout_ms req) in
         bindE (tryE (sdkE (node_WaitForTxRelay (the_node A) (WaitForTxRelayReq_txid req) timeout))) (\<lambda>r.
         case r of
           Inl err \<Rightarrow>
             if errors_is err ErrTxUnverified then returnE \<lparr>WaitForTxRelayResp_relayed = False\<rparr>
             else throwE (internal err)
         | Inr relayed \<Rightarrow> returnE \<lparr>WaitForTxRelayResp_relayed = relayed\<rparr>)))"

section \<open>Transaction state\<close>

definition TxState :: "'n sdk \<Rightarrow> TxStateRequest \<Rightarrow> ('n, TxStateResponse) operation" where
  "TxState A req =
     bindE (wallet (tenant_id req) (wallet_id req)) (\<lambda>tw.
     bindE (internalE (bindE (sdkQ (wal_TxState (the_wallet A) (tw_w tw) (TxStateReq_txid req))) liftR)) (\<lambda>(st, known).
     if \<not> known
     then returnE \<lparr>TxStateResp_known = False, TxStateResp_height = - 1, TxStateResp_confirmed = False, TxStateResp_conflicted = False\<rparr>
     else returnE \<lparr>TxStateResp_known = True, TxStateResp_height = ts_Height st,
            TxStateResp_confirmed = ts_Confirmed st, TxStateResp_conflicted = ts_Conflicted st\<rparr>))"

definition AbandonTransaction :: "'n sdk \<Rightarrow> AbandonTransactionRequest \<Rightarrow> ('n, unit) operation" where
  "AbandonTransaction A req =
     bindE (wallet (tenant_id req) (wallet_id req)) (\<lambda>tw.
     bindE (internalE (sdkE (wal_AbandonTransaction (the_wallet A) (tw_w tw) (AbandonTransactionReq_txid req)))) (\<lambda>_.
     saveSnapshot A tw))"

definition ClearIgnoredOutpoints :: "'n sdk \<Rightarrow> TenantWallet \<Rightarrow> ('n, ClearIgnoredOutpointsResponse) operation" where
  "ClearIgnoredOutpoints A req =
     bindE (wallet (tenant_id req) (wallet_id req)) (\<lambda>tw.
     bindE (sdkN (wal_ClearIgnoredOutpoints (the_wallet A) (tw_w tw))) (\<lambda>k.
     returnE \<lparr>ClearIgnoredOutpointsResp_cleared = to_int32 k\<rparr>))"

definition OwnsScript :: "'n sdk \<Rightarrow> OwnsScriptRequest \<Rightarrow> ('n, OwnsScriptResponse) operation" where
  "OwnsScript A req =
     bindE (wallet (tenant_id req) (wallet_id req)) (\<lambda>tw.
     bindE (sdkQ (wal_OwnsScript (the_wallet A) (tw_w tw) (OwnsScriptReq_script_pub_key req))) (\<lambda>b.
     returnE \<lparr>OwnsScriptResp_owned = b\<rparr>))"

definition GetIncompleteCursor :: "'n sdk \<Rightarrow> TenantWallet \<Rightarrow> ('n, GetIncompleteCursorResponse) operation" where
  "GetIncompleteCursor A req =
     bindE (wallet (tenant_id req) (wallet_id req)) (\<lambda>tw.
     bindE (internalE (bindE (sdkQ (wal_GetIncompleteCursor (the_wallet A) (tw_w tw))) liftR)) (\<lambda>(cursor, found).
     case (found, cursor) of
       (True, Some c) \<Rightarrow>
         returnE \<lparr>GetIncompleteCursorResp_found = True,
           GetIncompleteCursorResp_block_hash = blockHashHex (cu_BlockHash c),
           GetIncompleteCursorResp_height = cu_Height c,
           GetIncompleteCursorResp_tx_done = to_int32 (cu_TxDone c),
           GetIncompleteCursorResp_tx_total = to_int32 (cu_TxTotal c)\<rparr>
     | _ \<Rightarrow>
         returnE \<lparr>GetIncompleteCursorResp_found = False, GetIncompleteCursorResp_block_hash = [],
           GetIncompleteCursorResp_height = 0, GetIncompleteCursorResp_tx_done = 0,
           GetIncompleteCursorResp_tx_total = 0\<rparr>))"

end
