(* ===== verification/Dispatch.thy ===== *)
theory Dispatch
  imports Handlers
begin

text \<open>
  The gRPC layer (\<^verbatim>\<open>gen/bsvms/v1/bsvms_grpc.pb.go\<close>): the service descriptor's unary methods with the
  generated handlers that decode a request, run the interceptor and call the service. A reply is one
  value of \<open>rpc_response\<close>; the seven streaming methods have no unary handler.
\<close>

section \<open>Replies\<close>

datatype (plugins del: quickcheck_random quickcheck_exhaustive quickcheck_full_exhaustive
    quickcheck_narrowing quickcheck_bounded_forall lifting transfer) rpc_response =
    Resp_Status StatusResponse
  | Resp_RefreshToken AuthTokens
  | Resp_ConnectPeer
  | Resp_ListWallets ListWalletsResponse
  | Resp_CreateWallet CreateWalletResponse
  | Resp_RestoreWallet WalletResponse
  | Resp_GetWallet WalletResponse
  | Resp_NewAddress AddressResponse
  | Resp_BatchNewAddresses BatchNewAddressesResponse
  | Resp_DeriveAt AddressResponse
  | Resp_PubKeyAt PubKeyAtResponse
  | Resp_SignHashAt SignHashAtResponse
  | Resp_NextIndex NextIndexResponse
  | Resp_Balance BalanceResponse
  | Resp_ListUTXOs ListUTXOsResponse
  | Resp_ImportUTXO
  | Resp_ProcessRawTx
  | Resp_ClearUTXOs ClearUTXOsResponse
  | Resp_ReloadFromStore ReloadFromStoreResponse
  | Resp_WipeWallet WipeWalletResponse
  | Resp_PruneUnknownUTXOs PruneUnknownUTXOsResponse
  | Resp_IgnoreOutpoint
  | Resp_IsOutpointIgnored IsOutpointIgnoredResponse
  | Resp_UntrackUTXO UntrackUTXOResponse
  | Resp_CanCover
  | Resp_Send SpendResponse
  | Resp_SendAll SpendResponse
  | Resp_SpendToOutputs SpendDetailResponse
  | Resp_BroadcastCustomSpend SpendResponse
  | Resp_P2PKHOutput OutputSpec
  | Resp_OpReturnOutput OutputSpec
  | Resp_AnyoneCanSpendOutput OutputSpec
  | Resp_ParseTransaction "Transaction option"
  | Resp_BroadcastRaw BroadcastRawResponse
  | Resp_ExecuteScript ExecuteScriptResponse
  | Resp_DecodeOutputAddress DecodeOutputAddressResponse
  | Resp_PendingTransactions PendingTransactionsResponse
  | Resp_RebroadcastPendingTransactions RebroadcastPendingTransactionsResponse
  | Resp_TxState TxStateResponse
  | Resp_AbandonTransaction
  | Resp_ClearIgnoredOutpoints ClearIgnoredOutpointsResponse
  | Resp_OwnsScript OwnsScriptResponse
  | Resp_VerifyTxSeen VerifyTxSeenResponse
  | Resp_WaitForTxRelay WaitForTxRelayResponse
  | Resp_GetIncompleteCursor GetIncompleteCursorResponse

definition mapE :: "('a \<Rightarrow> 'b) \<Rightarrow> ('s, 'a) action \<Rightarrow> ('s, 'b) action" where
  "mapE f m = bindE m (\<lambda>x. returnE (f x))"

section \<open>Methods\<close>

primrec unary_call :: "'n sdk \<Rightarrow> rpc_request \<Rightarrow> ('n, rpc_response) operation option" where
  "unary_call A Req_Status = Some (mapE Resp_Status (Status_rpc A))"
| "unary_call A (Req_RefreshToken req) = Some (mapE Resp_RefreshToken (RefreshToken req))"
| "unary_call A (Req_ConnectPeer req) = Some (mapE (\<lambda>_. Resp_ConnectPeer) (ConnectPeer A req))"
| "unary_call A (Req_ListWallets req) = Some (mapE Resp_ListWallets (ListWallets A req))"
| "unary_call A (Req_CreateWallet req) = Some (mapE Resp_CreateWallet (CreateWallet A req))"
| "unary_call A (Req_RestoreWallet req) = Some (mapE Resp_RestoreWallet (RestoreWallet A req))"
| "unary_call A (Req_GetWallet req) = Some (mapE Resp_GetWallet (GetWallet A req))"
| "unary_call A (Req_NewAddress req) = Some (mapE Resp_NewAddress (NewAddress A req))"
| "unary_call A (Req_BatchNewAddresses req) = Some (mapE Resp_BatchNewAddresses (BatchNewAddresses A req))"
| "unary_call A (Req_DeriveAt req) = Some (mapE Resp_DeriveAt (DeriveAt A req))"
| "unary_call A (Req_PubKeyAt req) = Some (mapE Resp_PubKeyAt (PubKeyAt A req))"
| "unary_call A (Req_SignHashAt req) = Some (mapE Resp_SignHashAt (SignHashAt A req))"
| "unary_call A (Req_NextIndex req) = Some (mapE Resp_NextIndex (NextIndex A req))"
| "unary_call A (Req_Balance req) = Some (mapE Resp_Balance (Balance A req))"
| "unary_call A (Req_ListUTXOs req) = Some (mapE Resp_ListUTXOs (ListUTXOs A req))"
| "unary_call A (Req_ImportUTXO req) = Some (mapE (\<lambda>_. Resp_ImportUTXO) (ImportUTXO A req))"
| "unary_call A (Req_ProcessRawTx req) = Some (mapE (\<lambda>_. Resp_ProcessRawTx) (ProcessRawTx A req))"
| "unary_call A (Req_ClearUTXOs req) = Some (mapE Resp_ClearUTXOs (ClearUTXOs A req))"
| "unary_call A (Req_ReloadFromStore req) = Some (mapE Resp_ReloadFromStore (ReloadFromStore A req))"
| "unary_call A (Req_WipeWallet req) = Some (mapE Resp_WipeWallet (WipeWallet A req))"
| "unary_call A (Req_PruneUnknownUTXOs req) = Some (mapE Resp_PruneUnknownUTXOs (PruneUnknownUTXOs A req))"
| "unary_call A (Req_IgnoreOutpoint req) = Some (mapE (\<lambda>_. Resp_IgnoreOutpoint) (IgnoreOutpoint A req))"
| "unary_call A (Req_IsOutpointIgnored req) = Some (mapE Resp_IsOutpointIgnored (IsOutpointIgnored A req))"
| "unary_call A (Req_UntrackUTXO req) = Some (mapE Resp_UntrackUTXO (UntrackUTXO A req))"
| "unary_call A (Req_CanCover req) = Some (mapE (\<lambda>_. Resp_CanCover) (CanCover A req))"
| "unary_call A (Req_Send req) = Some (mapE Resp_Send (Send A req))"
| "unary_call A (Req_SendAll req) = Some (mapE Resp_SendAll (SendAll A req))"
| "unary_call A (Req_SpendToOutputs req) = Some (mapE Resp_SpendToOutputs (SpendToOutputs A req))"
| "unary_call A (Req_BroadcastCustomSpend req) = Some (mapE Resp_BroadcastCustomSpend (BroadcastCustomSpend A req))"
| "unary_call A (Req_P2PKHOutput req) = Some (mapE Resp_P2PKHOutput (P2PKHOutput A req))"
| "unary_call A (Req_OpReturnOutput req) = Some (mapE Resp_OpReturnOutput (OpReturnOutput A req))"
| "unary_call A (Req_AnyoneCanSpendOutput req) = Some (mapE Resp_AnyoneCanSpendOutput (AnyoneCanSpendOutput A req))"
| "unary_call A (Req_ParseTransaction req) = Some (mapE Resp_ParseTransaction (ParseTransaction A req))"
| "unary_call A (Req_BroadcastRaw req) = Some (mapE Resp_BroadcastRaw (BroadcastRaw A req))"
| "unary_call A (Req_ExecuteScript req) = Some (mapE Resp_ExecuteScript (ExecuteScript A req))"
| "unary_call A (Req_DecodeOutputAddress req) = Some (mapE Resp_DecodeOutputAddress (DecodeOutputAddress A req))"
| "unary_call A Req_PendingTransactions = Some (mapE Resp_PendingTransactions (PendingTransactions A))"
| "unary_call A Req_RebroadcastPendingTransactions = Some (mapE Resp_RebroadcastPendingTransactions (RebroadcastPendingTransactions A))"
| "unary_call A Req_StreamTransactions = None"
| "unary_call A Req_StreamBlocks = None"
| "unary_call A (Req_StreamPayments req) = None"
| "unary_call A (Req_StreamWalletTransactions req) = None"
| "unary_call A Req_StreamP2PTraffic = None"
| "unary_call A Req_StreamRejects = None"
| "unary_call A (Req_TxState req) = Some (mapE Resp_TxState (TxState A req))"
| "unary_call A (Req_AbandonTransaction req) = Some (mapE (\<lambda>_. Resp_AbandonTransaction) (AbandonTransaction A req))"
| "unary_call A (Req_ClearIgnoredOutpoints req) = Some (mapE Resp_ClearIgnoredOutpoints (ClearIgnoredOutpoints A req))"
| "unary_call A (Req_OwnsScript req) = Some (mapE Resp_OwnsScript (OwnsScript A req))"
| "unary_call A (Req_VerifyTxSeen req) = Some (mapE Resp_VerifyTxSeen (VerifyTxSeen A req))"
| "unary_call A (Req_WaitForTxRelay req) = Some (mapE Resp_WaitForTxRelay (WaitForTxRelay A req))"
| "unary_call A (Req_Rescan req) = None"
| "unary_call A (Req_GetIncompleteCursor req) = Some (mapE Resp_GetIncompleteCursor (GetIncompleteCursor A req))"

text \<open>
  A generated unary handler with the interceptor the server was built with: none when authentication
  is off, else the authorization check in front of the call.
\<close>

definition serve_unary :: "'n sdk \<Rightarrow> bool \<Rightarrow> call_context \<Rightarrow> rpc_request \<Rightarrow> ('n, rpc_response) operation" where
  "serve_unary A intercept ctx r =
     (case unary_call A r of
        None \<Rightarrow> throwE (ErrText ''unknown method'')
      | Some call \<Rightarrow>
         if \<not> intercept then call
         else UnaryAuthInterceptor ctx (ApiMessage r) (full_method r) (\<lambda>_ _. call))"

end
