(* ===== verification/Dispatch_Props.thy ===== *)
theory Dispatch_Props
  imports Dispatch
begin

text \<open>
  What every unary call keeps: the registry, and the wallets of everyone else. The handlers are
  covered one by one, then all together through \<open>unary_call\<close>.
\<close>

section \<open>Frames\<close>

lemmas handler_defs =
  Status_rpc_def ConnectPeer_def NewAddress_def BatchNewAddresses_def DeriveAt_def
  PubKeyAt_def SignHashAt_def NextIndex_def Balance_def ListUTXOs_def
  ImportUTXO_def ProcessRawTx_def ClearUTXOs_def ReloadFromStore_def WipeWallet_def
  PruneUnknownUTXOs_def IgnoreOutpoint_def IsOutpointIgnored_def UntrackUTXO_def CanCover_def
  Send_def SendAll_def SpendToOutputs_def BroadcastCustomSpend_def P2PKHOutput_def
  OpReturnOutput_def AnyoneCanSpendOutput_def ParseTransaction_def BroadcastRaw_def ExecuteScript_def
  DecodeOutputAddress_def PendingTransactions_def RebroadcastPendingTransactions_def TxState_def AbandonTransaction_def
  ClearIgnoredOutpoints_def OwnsScript_def VerifyTxSeen_def WaitForTxRelay_def GetIncompleteCursor_def

lemma node_only_if: "keeps node_only m \<Longrightarrow> keeps node_only n \<Longrightarrow> keeps node_only (if b then m else n)"
  by simp

lemma node_only_handlers:
  "keeps node_only (Status_rpc A)"
  "keeps node_only (ConnectPeer A r1)"
  "keeps node_only (NewAddress A r2)"
  "keeps node_only (BatchNewAddresses A r3)"
  "keeps node_only (DeriveAt A r4)"
  "keeps node_only (PubKeyAt A r5)"
  "keeps node_only (SignHashAt A r6)"
  "keeps node_only (NextIndex A r7)"
  "keeps node_only (Balance A r8)"
  "keeps node_only (ListUTXOs A r9)"
  "keeps node_only (ImportUTXO A r10)"
  "keeps node_only (ProcessRawTx A r11)"
  "keeps node_only (ClearUTXOs A r12)"
  "keeps node_only (ReloadFromStore A r13)"
  "keeps node_only (WipeWallet A r14)"
  "keeps node_only (PruneUnknownUTXOs A r15)"
  "keeps node_only (IgnoreOutpoint A r16)"
  "keeps node_only (IsOutpointIgnored A r17)"
  "keeps node_only (UntrackUTXO A r18)"
  "keeps node_only (CanCover A r19)"
  "keeps node_only (Send A r20)"
  "keeps node_only (SendAll A r21)"
  "keeps node_only (SpendToOutputs A r22)"
  "keeps node_only (BroadcastCustomSpend A r23)"
  "keeps node_only (P2PKHOutput A r24)"
  "keeps node_only (OpReturnOutput A r25)"
  "keeps node_only (AnyoneCanSpendOutput A r26)"
  "keeps node_only (ParseTransaction A r27)"
  "keeps node_only (BroadcastRaw A r28)"
  "keeps node_only (ExecuteScript A r29)"
  "keeps node_only (DecodeOutputAddress A r30)"
  "keeps node_only (PendingTransactions A)"
  "keeps node_only (RebroadcastPendingTransactions A)"
  "keeps node_only (TxState A r33)"
  "keeps node_only (AbandonTransaction A r34)"
  "keeps node_only (ClearIgnoredOutpoints A r35)"
  "keeps node_only (OwnsScript A r36)"
  "keeps node_only (VerifyTxSeen A r37)"
  "keeps node_only (WaitForTxRelay A r38)"
  "keeps node_only (GetIncompleteCursor A r39)"
  unfolding handler_defs Let_def
  by (auto intro!: node_only_intros node_only_wallet node_only_saveSnapshot node_only_if
      split: prod.splits sum.splits option.splits bool.splits)

lemma node_only_mapE: "keeps node_only m \<Longrightarrow> keeps node_only (mapE f m)"
  unfolding mapE_def by (intro node_only_intros)

text \<open>The calls that change more than the SDK's state.\<close>

fun registering :: "rpc_request \<Rightarrow> bool" where
  "registering (Req_CreateWallet _) = True"
| "registering (Req_RestoreWallet _) = True"
| "registering (Req_RefreshToken _) = True"
| "registering _ = False"

lemma node_only_unary:
  assumes "unary_call A r = Some m" and "\<not> registering r"
  shows "keeps node_only m"
  using assms
  by (cases r) (auto intro!: node_only_mapE node_only_handlers node_only_GetWallet node_only_ListWallets)

text \<open>
  What a restart would find: the state file can be read, it names each wallet once, it holds the records
  \<open>ms\<close> as they are, and nothing that is not in memory too.
\<close>

definition kept :: "walletMeta list \<Rightarrow> 'n service \<Rightarrow> bool" where
  "kept ms s \<longleftrightarrow> registry_inv s \<and> unique_state s \<and> list_all wf_meta (s_state s)
     \<and> (\<exists>raw ps. lookup_file s (statePath s) = Some raw \<and> unmarshal_state raw = Inr ps \<and> distinct (map meta_key ps)
          \<and> set ms \<subseteq> set ps \<and> set ps \<subseteq> set (s_state s))"

lemma kept_updates [simp]:
  "kept ms (s\<lparr>s_node := n\<rparr>) = kept ms s" "kept ms (s\<lparr>entropy := e\<rparr>) = kept ms s"
  by (simp_all add: kept_def lookup_file_def statePath_def)

lemma saved_kept:
  assumes "saved s" and "registry_inv s" and "unique_state s" and "list_all wf_meta (s_state s)"
    and "set ms \<subseteq> set (s_state s)"
  shows "kept ms s"
  using assms by (auto simp: kept_def saved_def unmarshal_MarshalIndent_state unique_state_def)

lemma enroller_kept:
  assumes "enroller add tid wid secrets" and run: "add q s = (r, s')" and k: "kept ms s"
  shows "kept ms s'"
proof -
  note add = enroller.add_cases [OF assms(1,2)] enroller.add_inv [OF assms(1,2)] enroller.add_unique [OF assms(1,2)]
    enroller.add_wf [OF assms(1,2)]
  have inv: "registry_inv s'" "unique_state s'" "list_all wf_meta (s_state s')"
    using add(2-4) k by (simp_all add: kept_def)
  show ?thesis
    using add(1)
  proof (elim disjE conjE exE)
    assume "quiet s s'"
    with k show ?thesis by (auto simp: quiet_def)
  next
    fix sec
    assume "enrolled (tid q) (wid q) sec s s'"
      and out: "case r of Inl e \<Rightarrow> lookup_file s' (statePath s) = lookup_file s (statePath s)
                        | Inr x \<Rightarrow> sec = secrets q x \<and> saved s'"
    then have grown: "set (s_state s) \<subseteq> set (s_state s')" "statePath s' = statePath s"
      by (auto simp: enrolled_def statePath_def)
    have old: "set ms \<subseteq> set (s_state s)" using k by (auto simp: kept_def)
    show ?thesis
    proof (cases r)
      case (Inl e)
      then have "lookup_file s' (statePath s') = lookup_file s (statePath s)" using out grown(2) by simp
      with k inv grown(1) show ?thesis by (auto simp: kept_def)
    next
      case (Inr x)
      with out inv grown(1) old show ?thesis by (auto intro: saved_kept)
    qed
  qed
qed

text \<open>What no call does: lose or change a live wallet, or break the registry.\<close>

definition registry_step :: "'n service \<Rightarrow> 'n service \<Rightarrow> bool" where
  "registry_step s s' \<longleftrightarrow>
     (registry_inv s \<longrightarrow> registry_inv s') \<and> (registry_inv s \<longrightarrow> unique_state s \<longrightarrow> unique_state s')
     \<and> (list_all wf_meta (s_state s) \<longrightarrow> list_all wf_meta (s_state s'))
     \<and> (\<forall>k tw. lookup_wallet s k = Some tw \<longrightarrow> lookup_wallet s' k = Some tw)
     \<and> s_opts s' = s_opts s \<and> s_dataDir s' = s_dataDir s \<and> (\<forall>ms. kept ms s \<longrightarrow> kept ms s')"

lemma registry_step_updates:
  "registry_step s (s\<lparr>s_node := n\<rparr>)" "registry_step s (s\<lparr>entropy := e\<rparr>)"
  by (simp_all add: registry_step_def)

lemma enroller_step:
  assumes "enroller add tid wid secrets" and "add q s = (r, s')"
  shows "registry_step s s'"
proof -
  have "s_opts s' = s_opts s \<and> s_dataDir s' = s_dataDir s"
    using enroller.add_cases [OF assms] by (auto simp: quiet_def enrolled_def)
  with enroller.add_inv [OF assms] enroller.add_unique [OF assms] enroller.add_wf [OF assms]
    enroller.add_keeps_wallets [OF assms] enroller_kept [OF assms] show ?thesis
    by (simp add: registry_step_def)
qed

lemma mapE_run: "mapE f m s = (r, s') \<Longrightarrow> \<exists>r0. m s = (r0, s')"
  by (auto simp: mapE_def act_simps split: prod.splits sum.splits)

lemma refresh_state: "RefreshToken req s = (r, s') \<Longrightarrow> \<exists>e. s' = s\<lparr>entropy := e\<rparr>"
proof -
  assume run: "RefreshToken req s = (r, s')"
  have same: "\<exists>e. s = s\<lparr>entropy := e\<rparr>" by (rule exI [of _ "entropy s"]) simp
  show ?thesis
  proof (cases "AuthEnabled (s_opts s)")
    case False
    with run same show ?thesis by (auto simp: RefreshToken_def act_simps)
  next
    case True
    show ?thesis
    proof (cases "validateJWT (JWTSecret (s_opts s)) (clock s) (RefreshTokenReq_refresh_token req) ''refresh''")
      case (Inl e)
      with True run same show ?thesis by (auto simp: RefreshToken_def act_simps time_Now_def)
    next
      case (Inr sub)
      then show ?thesis
        using True run issueTokens_outcome [of "s_opts s" "SubTenantID sub" "SubWalletID sub" s]
        by (auto simp: RefreshToken_def act_simps time_Now_def)
    qed
  qed
qed

lemma unary_registry_step:
  assumes "unary_call A r = Some m" and "m s = (res, s')"
  shows "registry_step s s'"
proof (cases "registering r")
  case False
  with node_only_unary [OF assms(1)] assms(2) registry_step_updates(1) show ?thesis
    by (metis node_onlyE)
next
  case True
  then consider (create) q where "r = Req_CreateWallet q" | (restore) q where "r = Req_RestoreWallet q"
    | (refresh) q where "r = Req_RefreshToken q"
    by (cases r) auto
  then show ?thesis
  proof cases
    case create
    then obtain r0 where "CreateWallet A q s = (r0, s')"
      using assms mapE_run by fastforce
    then show ?thesis by (rule enroller_step [OF create.enroller_axioms])
  next
    case restore
    then obtain r0 where "RestoreWallet A q s = (r0, s')"
      using assms mapE_run by fastforce
    then show ?thesis by (rule enroller_step [OF restore.enroller_axioms])
  next
    case refresh
    then obtain r0 where "RefreshToken q s = (r0, s')"
      using assms mapE_run by fastforce
    with refresh_state registry_step_updates(2) show ?thesis by metis
  qed
qed

section \<open>Confinement\<close>

text \<open>Two SDKs that agree on everything but the wallets other than \<open>h\<close>.\<close>

definition agrees :: "handle \<Rightarrow> 'n sdk \<Rightarrow> 'n sdk \<Rightarrow> bool" where
  "agrees h A B \<longleftrightarrow> the_node A = the_node B \<and> the_pkg A = the_pkg B
     \<and> wal_NewDerivedAddress (the_wallet A) h = wal_NewDerivedAddress (the_wallet B) h
     \<and> wal_BatchNewDerivedAddresses (the_wallet A) h = wal_BatchNewDerivedAddresses (the_wallet B) h
     \<and> wal_DeriveAt (the_wallet A) h = wal_DeriveAt (the_wallet B) h
     \<and> wal_PubKeyAt (the_wallet A) h = wal_PubKeyAt (the_wallet B) h
     \<and> wal_SignHashAt (the_wallet A) h = wal_SignHashAt (the_wallet B) h
     \<and> wal_NextIndex (the_wallet A) h = wal_NextIndex (the_wallet B) h
     \<and> wal_Balance (the_wallet A) h = wal_Balance (the_wallet B) h
     \<and> wal_BalanceBSV (the_wallet A) h = wal_BalanceBSV (the_wallet B) h
     \<and> wal_SpendableBalance (the_wallet A) h = wal_SpendableBalance (the_wallet B) h
     \<and> wal_ImmatureBalance (the_wallet A) h = wal_ImmatureBalance (the_wallet B) h
     \<and> wal_UTXOs (the_wallet A) h = wal_UTXOs (the_wallet B) h
     \<and> wal_ForceImportCoin (the_wallet A) h = wal_ForceImportCoin (the_wallet B) h
     \<and> wal_ImportUTXO (the_wallet A) h = wal_ImportUTXO (the_wallet B) h
     \<and> wal_ProcessRawTx (the_wallet A) h = wal_ProcessRawTx (the_wallet B) h
     \<and> wal_ClearUTXOs (the_wallet A) h = wal_ClearUTXOs (the_wallet B) h
     \<and> wal_ReloadFromStore (the_wallet A) h = wal_ReloadFromStore (the_wallet B) h
     \<and> wal_Wipe (the_wallet A) h = wal_Wipe (the_wallet B) h
     \<and> wal_PruneUnknownUTXOs (the_wallet A) h = wal_PruneUnknownUTXOs (the_wallet B) h
     \<and> wal_IgnoreOutpoint (the_wallet A) h = wal_IgnoreOutpoint (the_wallet B) h
     \<and> wal_UnignoreOutpoint (the_wallet A) h = wal_UnignoreOutpoint (the_wallet B) h
     \<and> wal_IsOutpointIgnored (the_wallet A) h = wal_IsOutpointIgnored (the_wallet B) h
     \<and> wal_UntrackUTXO (the_wallet A) h = wal_UntrackUTXO (the_wallet B) h
     \<and> wal_CanCover (the_wallet A) h = wal_CanCover (the_wallet B) h
     \<and> wal_Send (the_wallet A) h = wal_Send (the_wallet B) h
     \<and> wal_SendAll (the_wallet A) h = wal_SendAll (the_wallet B) h
     \<and> wal_SpendToOutputsDetailed (the_wallet A) h = wal_SpendToOutputsDetailed (the_wallet B) h
     \<and> wal_SpendToOutputsDetailedFrom (the_wallet A) h = wal_SpendToOutputsDetailedFrom (the_wallet B) h
     \<and> wal_SpendToOutputsDetailedIgnoringFixed (the_wallet A) h = wal_SpendToOutputsDetailedIgnoringFixed (the_wallet B) h
     \<and> wal_TxState (the_wallet A) h = wal_TxState (the_wallet B) h
     \<and> wal_AbandonTransaction (the_wallet A) h = wal_AbandonTransaction (the_wallet B) h
     \<and> wal_ClearIgnoredOutpoints (the_wallet A) h = wal_ClearIgnoredOutpoints (the_wallet B) h
     \<and> wal_OwnsScript (the_wallet A) h = wal_OwnsScript (the_wallet B) h
     \<and> wal_GetIncompleteCursor (the_wallet A) h = wal_GetIncompleteCursor (the_wallet B) h
     \<and> wal_SetStore (the_wallet A) h = wal_SetStore (the_wallet B) h
     \<and> wal_LoadAddressSnapshot (the_wallet A) h = wal_LoadAddressSnapshot (the_wallet B) h
     \<and> wal_SetNextIndices (the_wallet A) h = wal_SetNextIndices (the_wallet B) h
     \<and> wal_LoadFromStore (the_wallet A) h = wal_LoadFromStore (the_wallet B) h
     \<and> wal_NextIndices (the_wallet A) h = wal_NextIndices (the_wallet B) h
     \<and> wal_SaveAddressSnapshot (the_wallet A) h = wal_SaveAddressSnapshot (the_wallet B) h
     \<and> wal_Addresses (the_wallet A) h = wal_Addresses (the_wallet B) h
     \<and> wal_Selector (the_wallet A) h = wal_Selector (the_wallet B) h"

lemma agrees_views:
  assumes "agrees (tw_w tw) A B"
  shows "walletAddresses A (tw_w tw) = walletAddresses B (tw_w tw)"
    and "walletProtoLocked A tw = walletProtoLocked B tw" and "walletProto A tw = walletProto B tw"
    and "saveSnapshot A tw = saveSnapshot B tw"
proof -
  show 1: "walletAddresses A (tw_w tw) = walletAddresses B (tw_w tw)"
    using assms by (intro ext) (simp add: walletAddresses_def agrees_def Let_def)
  show 2: "walletProtoLocked A tw = walletProtoLocked B tw"
    using assms by (intro ext) (simp add: walletProtoLocked_def agrees_def 1)
  show "walletProto A tw = walletProto B tw"
    by (simp add: walletProto_def 2)
  show "saveSnapshot A tw = saveSnapshot B tw"
    using assms by (simp add: saveSnapshot_def saveSnapshotLocked_def agrees_def)
qed

lemma with_wallet_cong:
  assumes "\<And>tw. lookup_wallet s (walletKey t w) = Some tw \<Longrightarrow> f tw = g tw"
  shows "bindE (wallet t w) f s = bindE (wallet t w) g s"
proof (cases "wallet t w s")
  case (Pair r s1)
  show ?thesis
  proof (cases r)
    case (Inr tw)
    with Pair have "wallet t w s = (Inr tw, s1)" by simp
    moreover from this have "f tw = g tw"
      by (intro assms) (simp add: wallet_success)
    ultimately show ?thesis by (simp add: bindE_apply)
  qed (simp add: bindE_apply Pair)
qed

text \<open>The calls on one wallet.\<close>

fun on_wallet :: "rpc_request \<Rightarrow> bool" where
  "on_wallet (Req_GetWallet _) = True"
| "on_wallet (Req_NewAddress _) = True"
| "on_wallet (Req_BatchNewAddresses _) = True"
| "on_wallet (Req_DeriveAt _) = True"
| "on_wallet (Req_PubKeyAt _) = True"
| "on_wallet (Req_SignHashAt _) = True"
| "on_wallet (Req_NextIndex _) = True"
| "on_wallet (Req_Balance _) = True"
| "on_wallet (Req_ListUTXOs _) = True"
| "on_wallet (Req_ImportUTXO _) = True"
| "on_wallet (Req_ProcessRawTx _) = True"
| "on_wallet (Req_ClearUTXOs _) = True"
| "on_wallet (Req_ReloadFromStore _) = True"
| "on_wallet (Req_WipeWallet _) = True"
| "on_wallet (Req_PruneUnknownUTXOs _) = True"
| "on_wallet (Req_IgnoreOutpoint _) = True"
| "on_wallet (Req_IsOutpointIgnored _) = True"
| "on_wallet (Req_UntrackUTXO _) = True"
| "on_wallet (Req_CanCover _) = True"
| "on_wallet (Req_Send _) = True"
| "on_wallet (Req_SendAll _) = True"
| "on_wallet (Req_SpendToOutputs _) = True"
| "on_wallet (Req_TxState _) = True"
| "on_wallet (Req_AbandonTransaction _) = True"
| "on_wallet (Req_ClearIgnoredOutpoints _) = True"
| "on_wallet (Req_OwnsScript _) = True"
| "on_wallet (Req_GetIncompleteCursor _) = True"
| "on_wallet _ = False"

lemma outPoints_cong: "the_pkg A = the_pkg B \<Longrightarrow> outPoints A xs = outPoints B xs"
  by (induction xs) (auto split: sum.splits)

text \<open>The wallet a call names, if it is there, is one on which the two SDKs agree.\<close>

definition agree_at :: "'n service \<Rightarrow> string \<Rightarrow> string \<Rightarrow> 'n sdk \<Rightarrow> 'n sdk \<Rightarrow> bool" where
  "agree_at s t w A B \<longleftrightarrow> (\<forall>tw. lookup_wallet s (walletKey t w) = Some tw \<longrightarrow> agrees (tw_w tw) A B)"

lemma agree_atD:
  assumes "agree_at s t w A B" and "lookup_wallet s (walletKey t w) = Some tw"
  shows "agrees (tw_w tw) A B \<and> walletProto A tw = walletProto B tw \<and> saveSnapshot A tw = saveSnapshot B tw
    \<and> outPoints A = outPoints B"
proof -
  have ag: "agrees (tw_w tw) A B" using assms by (simp add: agree_at_def)
  moreover have "outPoints A = outPoints B"
    using ag by (intro ext outPoints_cong) (simp add: agrees_def)
  ultimately show ?thesis using agrees_views [OF ag] by simp
qed

lemma handlers_confined:
  "agree_at s (tenant_id r0) (wallet_id r0) A B \<Longrightarrow> GetWallet A r0 s = GetWallet B r0 s"
  "agree_at s (tenant_id r1) (wallet_id r1) A B \<Longrightarrow> NewAddress A r1 s = NewAddress B r1 s"
  "agree_at s (tenant_id r2) (wallet_id r2) A B \<Longrightarrow> BatchNewAddresses A r2 s = BatchNewAddresses B r2 s"
  "agree_at s (tenant_id r3) (wallet_id r3) A B \<Longrightarrow> DeriveAt A r3 s = DeriveAt B r3 s"
  "agree_at s (tenant_id r4) (wallet_id r4) A B \<Longrightarrow> PubKeyAt A r4 s = PubKeyAt B r4 s"
  "agree_at s (tenant_id r5) (wallet_id r5) A B \<Longrightarrow> SignHashAt A r5 s = SignHashAt B r5 s"
  "agree_at s (tenant_id r6) (wallet_id r6) A B \<Longrightarrow> NextIndex A r6 s = NextIndex B r6 s"
  "agree_at s (tenant_id r7) (wallet_id r7) A B \<Longrightarrow> Balance A r7 s = Balance B r7 s"
  "agree_at s (tenant_id r8) (wallet_id r8) A B \<Longrightarrow> ListUTXOs A r8 s = ListUTXOs B r8 s"
  "agree_at s (tenant_id r9) (wallet_id r9) A B \<Longrightarrow> ImportUTXO A r9 s = ImportUTXO B r9 s"
  "agree_at s (tenant_id r10) (wallet_id r10) A B \<Longrightarrow> ProcessRawTx A r10 s = ProcessRawTx B r10 s"
  "agree_at s (tenant_id r11) (wallet_id r11) A B \<Longrightarrow> ClearUTXOs A r11 s = ClearUTXOs B r11 s"
  "agree_at s (tenant_id r12) (wallet_id r12) A B \<Longrightarrow> ReloadFromStore A r12 s = ReloadFromStore B r12 s"
  "agree_at s (tenant_id r13) (wallet_id r13) A B \<Longrightarrow> WipeWallet A r13 s = WipeWallet B r13 s"
  "agree_at s (tenant_id r14) (wallet_id r14) A B \<Longrightarrow> PruneUnknownUTXOs A r14 s = PruneUnknownUTXOs B r14 s"
  "agree_at s (tenant_id r15) (wallet_id r15) A B \<Longrightarrow> IgnoreOutpoint A r15 s = IgnoreOutpoint B r15 s"
  "agree_at s (tenant_id r16) (wallet_id r16) A B \<Longrightarrow> IsOutpointIgnored A r16 s = IsOutpointIgnored B r16 s"
  "agree_at s (tenant_id r17) (wallet_id r17) A B \<Longrightarrow> UntrackUTXO A r17 s = UntrackUTXO B r17 s"
  "agree_at s (tenant_id r18) (wallet_id r18) A B \<Longrightarrow> CanCover A r18 s = CanCover B r18 s"
  "agree_at s (tenant_id r19) (wallet_id r19) A B \<Longrightarrow> Send A r19 s = Send B r19 s"
  "agree_at s (tenant_id r20) (wallet_id r20) A B \<Longrightarrow> SendAll A r20 s = SendAll B r20 s"
  "agree_at s (tenant_id r21) (wallet_id r21) A B \<Longrightarrow> SpendToOutputs A r21 s = SpendToOutputs B r21 s"
  "agree_at s (tenant_id r22) (wallet_id r22) A B \<Longrightarrow> TxState A r22 s = TxState B r22 s"
  "agree_at s (tenant_id r23) (wallet_id r23) A B \<Longrightarrow> AbandonTransaction A r23 s = AbandonTransaction B r23 s"
  "agree_at s (tenant_id r24) (wallet_id r24) A B \<Longrightarrow> ClearIgnoredOutpoints A r24 s = ClearIgnoredOutpoints B r24 s"
  "agree_at s (tenant_id r25) (wallet_id r25) A B \<Longrightarrow> OwnsScript A r25 s = OwnsScript B r25 s"
  "agree_at s (tenant_id r26) (wallet_id r26) A B \<Longrightarrow> GetIncompleteCursor A r26 s = GetIncompleteCursor B r26 s"
  unfolding handler_defs GetWallet_def Let_def
  by (rule with_wallet_cong, drule (1) agree_atD, simp add: agrees_def)+

lemma wallet_call_confined:
  assumes "tenantWalletFromRequest (ApiMessage r) = (t, w, True)" and "on_wallet r" and "agree_at s t w A B"
    and "unary_call A r = Some m" and "unary_call B r = Some m'"
  shows "m s = m' s"
  using assms
  by (cases r) (auto simp: tenantWalletFromRequest_def mapE_def bindE_apply handlers_confined)

section \<open>Conversions\<close>

lemma rev_by_index: "length h = 32 \<Longrightarrow> map (\<lambda>i. h ! (31 - i)) [0..<32] = rev h"
  by (rule nth_equalityI) (simp_all add: rev_nth)

section \<open>Properties\<close>

text \<open>
  C8. No call breaks the registry: whatever a unary call does and answers, it keeps the registry
  invariant, the uniqueness of saved records, the options and every live wallet; and unless it creates
  or restores a wallet or refreshes tokens, it changes nothing of the service at all but the SDK's own
  state.
\<close>

theorem every_call_keeps_registry:
  assumes "unary_call A r = Some m" and "m s = (res, s')" and "registry_inv s"
  shows "registry_inv s' \<and> (unique_state s \<longrightarrow> unique_state s')
    \<and> (\<forall>k tw. lookup_wallet s k = Some tw \<longrightarrow> lookup_wallet s' k = Some tw) \<and> s_opts s' = s_opts s
    \<and> (\<not> registering r \<longrightarrow> (\<exists>n. s' = s\<lparr>s_node := n\<rparr>))"
proof -
  have "\<exists>n. s' = s\<lparr>s_node := n\<rparr>" if "\<not> registering r"
    using node_only_unary [OF assms(1) that] assms(2) by (metis node_onlyE)
  with unary_registry_step [OF assms(1,2)] assms(3) show ?thesis
    by (simp add: registry_step_def)
qed

theorem every_call_keeps_registry_witness:
  "\<exists>m res s'. unary_call demo_sdk (Req_CreateWallet demo_req) = Some m \<and> m demo_service = (res, s') \<and> registry_inv s'"
proof -
  obtain m where m: "unary_call demo_sdk (Req_CreateWallet demo_req) = Some m" by simp
  obtain res s' where r: "m demo_service = (res, s')" by (cases "m demo_service")
  from every_call_keeps_registry [OF m r demo_inv(1)] m r show ?thesis by blast
qed

text \<open>
  C11. A call on a wallet is confined to that wallet: its answer and its effect depend on the SDK's
  wallets only through the one it names. With two SDKs that behave alike but for other wallets, the
  call does exactly the same; and when the identity is well-formed but has no wallet, it answers
  \<open>NotFound\<close> and does nothing.
\<close>

theorem wallet_calls_confined:
  assumes "tenantWalletFromRequest (ApiMessage r) = (t, w, True)" and "on_wallet r"
    and "unary_call A r = Some m" and "unary_call B r = Some m'"
    and "\<forall>tw. lookup_wallet s (walletKey t w) = Some tw \<longrightarrow> agrees (tw_w tw) A B"
  shows "m s = m' s \<and> (idRE t \<longrightarrow> idRE w \<longrightarrow> lookup_wallet s (walletKey t w) = None \<longrightarrow>
       m s = (Inl (Status NotFound ''wallet not found''), s))"
proof (intro conjI impI)
  show "m s = m' s"
    using wallet_call_confined [OF assms(1,2) _ assms(3,4)] assms(5) by (simp add: agree_at_def)
  assume "idRE t" and "idRE w" and "lookup_wallet s (walletKey t w) = None"
  from wallet_unknown [OF this] assms(1-3) show "m s = (Inl (Status NotFound ''wallet not found''), s)"
    by (cases r) (auto simp: tenantWalletFromRequest_def mapE_def bindE_apply handler_defs GetWallet_def)
qed

definition other_sdk :: "nat sdk" where
  "other_sdk = demo_sdk\<lparr>the_wallet := (the_wallet demo_sdk)\<lparr>wal_Balance := \<lambda>w n. if w = 0 then 0 else 21\<rparr>\<rparr>"

definition one_wallet :: "nat service" where
  "one_wallet = demo_service\<lparr>s_wallets :=
     [(walletKey ''acme'' ''hot'', \<lparr>tw_meta = legacy_meta, tw_w = 0, tw_store = 0, tw_rescanning = False\<rparr>)]\<rparr>"

theorem wallet_calls_confined_witness:
  "wal_Balance (the_wallet demo_sdk) 1 0 \<noteq> wal_Balance (the_wallet other_sdk) 1 0
   \<and> (\<exists>m m'. unary_call demo_sdk (Req_Balance demo_req) = Some m \<and> unary_call other_sdk (Req_Balance demo_req) = Some m'
        \<and> m one_wallet = m' one_wallet)"
proof -
  obtain m m' where m: "unary_call demo_sdk (Req_Balance demo_req) = Some m"
    and m': "unary_call other_sdk (Req_Balance demo_req) = Some m'" by simp
  have t: "tenantWalletFromRequest (ApiMessage (Req_Balance demo_req)) = (''acme'', ''hot'', True)"
    by (simp add: tenantWalletFromRequest_def demo_req_def)
  have ag: "\<forall>tw. lookup_wallet one_wallet (walletKey ''acme'' ''hot'') = Some tw \<longrightarrow> agrees (tw_w tw) demo_sdk other_sdk"
    by (auto simp: one_wallet_def lookup_wallet_def other_sdk_def agrees_def fun_eq_iff)
  from wallet_calls_confined [OF t _ m m' ag] m m' show ?thesis
    by (auto simp: other_sdk_def)
qed

text \<open>
  Delivery probes are bounded: for every \<^verbatim>\<open>int32\<close> number of milliseconds the timeout is the exact
  product, or ten seconds when the number is not positive; it is at least a millisecond, at most
  \<open>2 ^ 31\<close> milliseconds, and never wraps around.
\<close>

lemma relay_timeout_bounds:
  assumes "in_int32 ms"
  shows "relayTimeout ms = (if ms \<le> 0 then 10000 * time_Millisecond else ms * time_Millisecond)
    \<and> time_Millisecond \<le> relayTimeout ms \<and> relayTimeout ms < 2 ^ 31 * time_Millisecond"
proof (cases "ms \<le> 0")
  case True
  then show ?thesis
    by (simp add: relayTimeout_def to_int64_def time_Second_def time_Millisecond_def)
next
  case False
  then have "in_int64 (ms * time_Millisecond)"
    using assms by (simp add: in_int32_def in_int64_def time_Millisecond_def)
  with False assms show ?thesis
    by (simp add: relayTimeout_def to_int64_id in_int32_def time_Millisecond_def)
qed

text \<open>
  Block hashes are reported in display order: the 64 hexadecimal digits of a 32-byte hash decode
  to the hash with its bytes reversed, so no two hashes look alike and the order explorers use is
  recovered.
\<close>

lemma block_hash_display:
  assumes "length h = 32"
  shows "Hex_DecodeString (blockHashHex h) = Inr (rev h) \<and> length (blockHashHex h) = 64"
  using assms by (simp add: blockHashHex_def rev_by_index hex.dec_enc)

end
