(* ===== verification/Streams.thy ===== *)
theory Streams
  imports Dispatch_Props
begin

text \<open>
  The event streams of \<^verbatim>\<open>internal/service/service.go\<close> and their generated handlers: a call subscribes to
  one of the six brokers and passes on what its filter keeps. A handler is run against the ticks of
  its goroutine (see \<open>Broker\<close>); \<open>send\<close> says which send to the client fails.
\<close>

section \<open>Handlers\<close>

type_synonym 'a sender = "nat \<Rightarrow> 'a \<Rightarrow> goerr option"

type_synonym ('n, 'a) stream_run = "'n service \<Rightarrow> unit result option \<times> 'a list \<times> 'n service"

definition StreamTransactions :: "Transaction option sender \<Rightarrow> Transaction option tick list
    \<Rightarrow> ('n, Transaction option) stream_run" where
  "StreamTransactions send ts s =
     (case streamAll send ts (txBroker s) of (r, out, b) \<Rightarrow> (r, out, s\<lparr>txBroker := b\<rparr>))"

definition StreamBlocks :: "Block sender \<Rightarrow> Block tick list \<Rightarrow> ('n, Block) stream_run" where
  "StreamBlocks send ts s =
     (case streamAll send ts (blockBroker s) of (r, out, b) \<Rightarrow> (r, out, s\<lparr>blockBroker := b\<rparr>))"

definition StreamPayments :: "call_context \<Rightarrow> TenantWallet \<Rightarrow> Payment sender \<Rightarrow> Payment tick list
    \<Rightarrow> ('n, Payment) stream_run" where
  "StreamPayments ctx req send ts s =
     (case authorize ctx ''/bsvms.v1.BSVMS/StreamPayments'' (ApiMessage (Req_StreamPayments req)) s of
        Inl e \<Rightarrow> (Some (Inl e), [], s)
      | Inr _ \<Rightarrow>
         (case streamFiltered (\<lambda>v. matches (tenant_id req) (wallet_id req) (Payment_tenant_id v) (Payment_wallet_id v))
             send ts (paymentBroker s) of
           (r, out, b) \<Rightarrow> (r, out, s\<lparr>paymentBroker := b\<rparr>)))"

definition StreamWalletTransactions :: "call_context \<Rightarrow> TenantWallet \<Rightarrow> WalletTransaction sender
    \<Rightarrow> WalletTransaction tick list \<Rightarrow> ('n, WalletTransaction) stream_run" where
  "StreamWalletTransactions ctx req send ts s =
     (case authorize ctx ''/bsvms.v1.BSVMS/StreamWalletTransactions'' (ApiMessage (Req_StreamWalletTransactions req)) s of
        Inl e \<Rightarrow> (Some (Inl e), [], s)
      | Inr _ \<Rightarrow>
         (case streamFiltered (\<lambda>v. matches (tenant_id req) (wallet_id req)
               (WalletTransaction_tenant_id v) (WalletTransaction_wallet_id v))
             send ts (walletTxBroker s) of
           (r, out, b) \<Rightarrow> (r, out, s\<lparr>walletTxBroker := b\<rparr>)))"

definition StreamP2PTraffic :: "P2PTraffic sender \<Rightarrow> P2PTraffic tick list \<Rightarrow> ('n, P2PTraffic) stream_run" where
  "StreamP2PTraffic send ts s =
     (case streamAll send ts (trafficBroker s) of (r, out, b) \<Rightarrow> (r, out, s\<lparr>trafficBroker := b\<rparr>))"

definition StreamRejects :: "Reject sender \<Rightarrow> Reject tick list \<Rightarrow> ('n, Reject) stream_run" where
  "StreamRejects send ts s =
     (case streamAll send ts (rejectBroker s) of (r, out, b) \<Rightarrow> (r, out, s\<lparr>rejectBroker := b\<rparr>))"

text \<open>
  The generated handler of a stream: receive the request through the (wrapped) stream, give up on an
  error, else run the method on it.
\<close>

definition stream_handler :: "authServerStream \<Rightarrow> (rpc_request \<Rightarrow> ('n, 'a) stream_run) \<Rightarrow> ('n, 'a) stream_run" where
  "stream_handler a body s =
     (case RecvMsg a s of
        (Inr (ApiMessage r), _) \<Rightarrow> body r s
      | (Inr _, _) \<Rightarrow> (Some (Inl (ErrText ''unexpected message'')), [], s)
      | (Inl e, _) \<Rightarrow> (Some (Inl e), [], s))"

section \<open>Isolation\<close>

text \<open>Whatever happens around it, the loop sends nothing its filter rejects.\<close>

lemma stream_loop_kept:
  "stream_loop keep send i ts sent b = (r, out, b') \<Longrightarrow> list_all keep sent \<Longrightarrow> list_all keep out"
  by (induction keep send i ts sent b rule: stream_loop.induct)
    (auto split: option.splits if_splits prod.splits)

lemma streamFiltered_kept:
  "streamFiltered keep send ts b = (r, out, b') \<Longrightarrow> list_all keep out"
  by (auto simp: streamFiltered_def split: prod.splits dest: stream_loop_kept)

lemma stream_payments_run:
  assumes "StreamPayments ctx req send ts s = (r, out, s')" and "out \<noteq> []"
  shows "authorize ctx (full_method (Req_StreamPayments req)) (ApiMessage (Req_StreamPayments req)) s = Inr ()"
    and "\<exists>b. streamFiltered (\<lambda>v. matches (tenant_id req) (wallet_id req) (Payment_tenant_id v) (Payment_wallet_id v))
             send ts (paymentBroker s) = (r, out, b)"
proof -
  have m: "full_method (Req_StreamPayments req) = ''/bsvms.v1.BSVMS/StreamPayments''"
    by (simp add: full_method_def bsvmsServicePrefix_def)
  show "authorize ctx (full_method (Req_StreamPayments req)) (ApiMessage (Req_StreamPayments req)) s = Inr ()"
    using assms unfolding m by (auto simp: StreamPayments_def split: sum.splits)
  show "\<exists>b. streamFiltered (\<lambda>v. matches (tenant_id req) (wallet_id req) (Payment_tenant_id v) (Payment_wallet_id v))
             send ts (paymentBroker s) = (r, out, b)"
    using assms by (auto simp: StreamPayments_def split: sum.splits prod.splits)
qed

lemma stream_wallettx_run:
  assumes "StreamWalletTransactions ctx req send ts s = (r, out, s')" and "out \<noteq> []"
  shows "authorize ctx (full_method (Req_StreamWalletTransactions req)) (ApiMessage (Req_StreamWalletTransactions req)) s = Inr ()"
    and "\<exists>b. streamFiltered (\<lambda>v. matches (tenant_id req) (wallet_id req) (WalletTransaction_tenant_id v) (WalletTransaction_wallet_id v))
             send ts (walletTxBroker s) = (r, out, b)"
proof -
  have m: "full_method (Req_StreamWalletTransactions req) = ''/bsvms.v1.BSVMS/StreamWalletTransactions''"
    by (simp add: full_method_def bsvmsServicePrefix_def)
  show "authorize ctx (full_method (Req_StreamWalletTransactions req)) (ApiMessage (Req_StreamWalletTransactions req)) s = Inr ()"
    using assms unfolding m by (auto simp: StreamWalletTransactions_def split: sum.splits)
  show "\<exists>b. streamFiltered (\<lambda>v. matches (tenant_id req) (wallet_id req) (WalletTransaction_tenant_id v) (WalletTransaction_wallet_id v))
             send ts (walletTxBroker s) = (r, out, b)"
    using assms by (auto simp: StreamWalletTransactions_def split: sum.splits prod.splits)
qed

text \<open>Whose token an authorized stream request carries.\<close>

lemma authorized_stream:
  assumes "AuthEnabled (s_opts s)" and "authorize ctx (full_method r) (ApiMessage r) s = Inr ()"
    and "r = Req_StreamPayments req \<or> r = Req_StreamWalletTransactions req"
  shows "tenant_id req \<noteq> [] \<and> (\<exists>md c. ctx = Some md \<and> genuine (JWTSecret (s_opts s)) (presented_token md) c
     \<and> ClaimType c = ''access'' \<and> unix_seconds (clock s) < Expires c \<and> ClaimTenantID c = tenant_id req
     \<and> (wallet_id req = [] \<or> ClaimWalletID c = wallet_id req))"
proof -
  have t: "tenantWalletFromRequest (ApiMessage r) = (tenant_id req, wallet_id req, True)"
    using assms(3) by (auto simp: tenantWalletFromRequest_def)
  have "\<not> HasSuffix (full_method r) ''/RefreshToken''" "\<not> isBootstrapMethod (full_method r)"
    using assms(3) HasSuffix_full [of "''RefreshToken''" r] HasSuffix_full [of "''CreateWallet''" r]
      HasSuffix_full [of "''RestoreWallet''" r] by (auto simp: isBootstrapMethod_def)
  then obtain sub where p: "presents ctx s sub" and sub: "tenant_id req \<noteq> []" "tenant_id req = SubTenantID sub"
      "wallet_id req = [] \<or> wallet_id req = SubWalletID sub"
    using assms(1,2) unfolding authorize_iff t by auto
  from p show ?thesis
    by (rule presents_genuine) (use sub in auto)
qed

text \<open>The token that lets a client see the events of a tenant and, unless it asks for all, of a wallet.\<close>

definition entitled :: "call_context \<Rightarrow> 'n service \<Rightarrow> TenantWallet \<Rightarrow> string \<Rightarrow> string \<Rightarrow> bool" where
  "entitled ctx s req t w \<longleftrightarrow> (\<exists>md c. ctx = Some md \<and> genuine (JWTSecret (s_opts s)) (presented_token md) c
     \<and> ClaimType c = ''access'' \<and> unix_seconds (clock s) < Expires c \<and> ClaimTenantID c = t
     \<and> (wallet_id req \<noteq> [] \<longrightarrow> ClaimWalletID c = w \<and> wallet_id req = w))"

lemma matches_entitled:
  assumes "AuthEnabled (s_opts s)" and "authorize ctx (full_method r) (ApiMessage r) s = Inr ()"
    and "r = Req_StreamPayments req \<or> r = Req_StreamWalletTransactions req"
    and "matches (tenant_id req) (wallet_id req) t w"
  shows "entitled ctx s req t w"
  using authorized_stream [OF assms(1-3)] assms(4)
  by (auto simp: entitled_def matches_def split: if_splits)

section \<open>Streams behind the interceptor\<close>

text \<open>The streaming methods of the interface, as a server with authentication serves them.\<close>

definition serve_stream :: "call_context \<Rightarrow> message option list \<Rightarrow> string \<Rightarrow> (rpc_request \<Rightarrow> ('n, 'a) stream_run) \<Rightarrow> ('n, 'a) stream_run" where
  "serve_stream ctx inbox fullMethod body = StreamAuthInterceptor ctx inbox fullMethod (\<lambda>a. stream_handler a body)"

lemma serve_stream_run:
  "serve_stream ctx (Some (ApiMessage r) # inbox) m body s =
     (case authorize ctx m (ApiMessage r) s of Inl e \<Rightarrow> (Some (Inl e), [], s) | Inr _ \<Rightarrow> body r s)"
  by (simp add: serve_stream_def StreamAuthInterceptor_def stream_handler_def RecvMsg_first split: sum.split)

lemma streaming_methods:
  assumes "unary_call A r = None"
  shows "\<not> isBootstrapMethod (full_method r)" and "\<not> HasSuffix (full_method r) ''/RefreshToken''"
proof -
  have "rpc_name r \<notin> {''CreateWallet'', ''RestoreWallet'', ''RefreshToken''}" using assms by (cases r) auto
  then show "\<not> isBootstrapMethod (full_method r)" and "\<not> HasSuffix (full_method r) ''/RefreshToken''"
    using HasSuffix_full [of "''RefreshToken''" r] HasSuffix_full [of "''CreateWallet''" r]
      HasSuffix_full [of "''RestoreWallet''" r] by (auto simp: isBootstrapMethod_def)
qed

text \<open>
  C7. Event streams are isolated: with authentication on, every payment and every wallet transaction a
  client is ever sent belongs to the tenant of a genuine, unexpired access token the client presented,
  and to the wallet of that token whenever the request names a wallet, whatever else is published and
  whatever other subscribers do meanwhile.
\<close>

theorem stream_isolation:
  assumes "AuthEnabled (s_opts s)"
  shows "(\<forall>send ts r out s'. StreamPayments ctx req send ts s = (r, out, s') \<longrightarrow>
       (\<forall>p \<in> set out. entitled ctx s req (Payment_tenant_id p) (Payment_wallet_id p)))
    \<and> (\<forall>send ts r out s'. StreamWalletTransactions ctx req send ts s = (r, out, s') \<longrightarrow>
       (\<forall>x \<in> set out. entitled ctx s req (WalletTransaction_tenant_id x) (WalletTransaction_wallet_id x)))"
proof (intro conjI allI impI ballI)
  fix send ts r out s' p
  assume run: "StreamPayments ctx req send ts s = (r, out, s')" and p: "p \<in> set out"
  then have "out \<noteq> []" by auto
  note parts = stream_payments_run [OF run this]
  have "matches (tenant_id req) (wallet_id req) (Payment_tenant_id p) (Payment_wallet_id p)"
    using parts(2) p streamFiltered_kept by (fastforce simp: list_all_iff)
  then show "entitled ctx s req (Payment_tenant_id p) (Payment_wallet_id p)"
    by (intro matches_entitled [OF assms parts(1)]) simp_all
next
  fix send ts r out s' x
  assume run: "StreamWalletTransactions ctx req send ts s = (r, out, s')" and x: "x \<in> set out"
  then have "out \<noteq> []" by auto
  note parts = stream_wallettx_run [OF run this]
  have "matches (tenant_id req) (wallet_id req) (WalletTransaction_tenant_id x) (WalletTransaction_wallet_id x)"
    using parts(2) x streamFiltered_kept by (fastforce simp: list_all_iff)
  then show "entitled ctx s req (WalletTransaction_tenant_id x) (WalletTransaction_wallet_id x)"
    by (intro matches_entitled [OF assms parts(1)]) simp_all
qed

text \<open>
  C20. No stream without a token: on a server with authentication, whatever a streaming method does, it
  sends nothing, changes nothing and does not end well unless the client presented a genuine, unexpired access token
  whose tenant is the tenant its first message names, if that message has one (and then it is not
  empty), and whose wallet is the wallet it names, if any. No way round by the rules for new wallets or for
  refreshing tokens exists, and what then runs is the method on that very message.
\<close>

theorem streams_need_token:
  assumes "AuthEnabled (s_opts s)" and "unary_call A r = None"
    and "serve_stream ctx (Some (ApiMessage r) # inbox) (full_method r) body s = (res, out, s')"
    and "out \<noteq> [] \<or> s' \<noteq> s \<or> res = Some (Inr ())"
  shows "body r s = (res, out, s')
    \<and> (\<exists>md c. ctx = Some md \<and> genuine (JWTSecret (s_opts s)) (presented_token md) c
         \<and> ClaimType c = ''access'' \<and> unix_seconds (clock s) < Expires c
         \<and> (case tenantWalletFromRequest (ApiMessage r) of (t, w, scoped) \<Rightarrow>
              scoped \<longrightarrow> t \<noteq> [] \<and> ClaimTenantID c = t \<and> (w = [] \<or> ClaimWalletID c = w)))"
proof -
  have ok: "authorize ctx (full_method r) (ApiMessage r) s = Inr ()" and run: "body r s = (res, out, s')"
    using assms(3,4) by (auto simp: serve_stream_run split: sum.splits)
  obtain t w scoped where t: "tenantWalletFromRequest (ApiMessage r) = (t, w, scoped)"
    by (cases "tenantWalletFromRequest (ApiMessage r)")
  obtain sub where p: "presents ctx s sub" and sub: "scoped \<longrightarrow> t \<noteq> [] \<and> t = SubTenantID sub \<and> (w = [] \<or> w = SubWalletID sub)"
    using ok assms(1) streaming_methods [OF assms(2)] unfolding authorize_iff t by (auto split: if_splits)
  from p show ?thesis
    by (rule presents_genuine) (use sub run t in auto)
qed

definition demo_payment :: "string \<Rightarrow> Payment" where
  "demo_payment t = \<lparr>Payment_tenant_id = t, Payment_wallet_id = ''hot'', Payment_txid = ''txid'', Payment_amount = 5,
     Payment_address = ''addr'', Payment_vout = 0, Payment_script = []\<rparr>"

definition payment_ticks :: "Payment tick list" where
  "payment_ticks = [Env (EvPublish (demo_payment ''other'')), Env (EvPublish (demo_payment ''acme'')), Ready, Ready, Done]"

lemma demo_stream:
  "\<exists>s'. StreamPayments (authContext demo_token) demo_req (\<lambda>_ _. None) payment_ticks auth_service =
     (Some (Inr ()), [demo_payment ''acme''], s')"
proof -
  let ?r = "Req_StreamPayments demo_req"
  have "tenantWalletFromRequest (ApiMessage ?r) = (''acme'', ''hot'', True)"
    by (simp add: tenantWalletFromRequest_def demo_req_def)
  then have "authorize (authContext demo_token) (full_method ?r) (ApiMessage ?r) auth_service = Inr ()"
    unfolding authorize_iff using demo_presents by (intro disjI2) auto
  moreover have "full_method ?r = ''/bsvms.v1.BSVMS/StreamPayments''"
    by (simp add: full_method_def bsvmsServicePrefix_def)
  moreover have "paymentBroker auth_service = newBroker"
    by (simp add: auth_service_def demo_service_def fresh_service_def host.defs service.defs)
  ultimately show ?thesis
    by (simp add: StreamPayments_def streamFiltered_def payment_ticks_def subscribe_def publish_def newBroker_def
        channel_def take_event_def matches_def demo_req_def demo_payment_def recv_def try_send_def make_chan_def)
qed

theorem stream_isolation_witness:
  "\<exists>s'. StreamPayments (authContext demo_token) demo_req (\<lambda>_ _. None) payment_ticks auth_service =
     (Some (Inr ()), [demo_payment ''acme''], s') \<and> entitled (authContext demo_token) auth_service demo_req ''acme'' ''hot''"
proof -
  obtain s' where run: "StreamPayments (authContext demo_token) demo_req (\<lambda>_ _. None) payment_ticks auth_service =
     (Some (Inr ()), [demo_payment ''acme''], s')"
    using demo_stream by blast
  have "AuthEnabled (s_opts auth_service)" by simp
  from stream_isolation [OF this] run have "entitled (authContext demo_token) auth_service demo_req
      (Payment_tenant_id (demo_payment ''acme'')) (Payment_wallet_id (demo_payment ''acme''))"
    by (metis list.set_intros(1))
  with run show ?thesis by (auto simp: demo_payment_def)
qed


theorem streams_need_token_witness:
  "\<exists>s'. serve_stream (authContext demo_token) [Some (ApiMessage (Req_StreamPayments demo_req))] (full_method (Req_StreamPayments demo_req))
        (\<lambda>r. StreamPayments (authContext demo_token) demo_req (\<lambda>_ _. None) payment_ticks) auth_service
      = (Some (Inr ()), [demo_payment ''acme''], s')
    \<and> (\<exists>md. authContext demo_token = Some md \<and> (\<exists>c. genuine (JWTSecret (s_opts auth_service)) (presented_token md) c
         \<and> ClaimTenantID c = ''acme'' \<and> ClaimWalletID c = ''hot''))"
proof -
  let ?r = "Req_StreamPayments demo_req" and ?body = "\<lambda>r. StreamPayments (authContext demo_token) demo_req (\<lambda>_ _. None) payment_ticks"
  have t: "tenantWalletFromRequest (ApiMessage ?r) = (''acme'', ''hot'', True)"
    by (simp add: tenantWalletFromRequest_def demo_req_def)
  then have ok: "authorize (authContext demo_token) (full_method ?r) (ApiMessage ?r) auth_service = Inr ()"
    unfolding authorize_iff using demo_presents by (intro disjI2) auto
  obtain s' where s': "?body ?r auth_service = (Some (Inr ()), [demo_payment ''acme''], s')"
    using demo_stream by blast
  then have run: "serve_stream (authContext demo_token) (Some (ApiMessage ?r) # []) (full_method ?r) ?body auth_service
      = (Some (Inr ()), [demo_payment ''acme''], s')"
    using ok by (simp add: serve_stream_run)
  have "AuthEnabled (s_opts auth_service)" "unary_call demo_sdk ?r = None" by simp_all
  from streams_need_token [OF this run] t run show ?thesis by auto
qed

end
