(* ===== verification/Rescan.thy ===== *)
theory Rescan
  imports Streams
begin

text \<open>
  \<^verbatim>\<open>Rescan\<close> of \<^verbatim>\<open>internal/service/service.go\<close>: a streaming call that runs the SDK's walk in a second
  goroutine and forwards its progress. \<open>rescan_open\<close> is the handler up to the point where it holds the
  wallet's guard; \<open>run_step\<close> interleaves the handler and the walk from there to the deferred release;
  \<open>system_step\<close> puts any number of such calls beside each other on one service. The walk itself is the
  SDK's: when it reports, asks for a checkpoint and returns is left open.
\<close>

section \<open>Conversions\<close>

definition rescanOptions :: "RescanRequest \<Rightarrow> bsv_RescanOptions" where
  "rescanOptions req =
     \<lparr>ro_MaxBlocks = RescanReq_max_blocks req,
      ro_HeadersTimeout = to_int64 (RescanReq_headers_timeout_ms req * time_Millisecond),
      ro_BlockTimeout = to_int64 (RescanReq_block_timeout_ms req * time_Millisecond),
      ro_MaxConsecutiveBlockErrors = RescanReq_max_consecutive_block_errors req,
      ro_GCEvery = RescanReq_gc_every req, ro_Prefetch = RescanReq_prefetch req,
      ro_PrefetchBytes = RescanReq_prefetch_bytes req, ro_StreamBlockBytes = RescanReq_stream_block_bytes req,
      ro_StartHeight = RescanReq_start_height req, ro_CheckpointEvery = 0\<rparr>"

definition rescanProgressProto :: "bsv_RescanProgress \<Rightarrow> RescanProgress" where
  "rescanProgressProto p =
     \<lparr>RescanProgress_phase = rp_Phase p, RescanProgress_peer = rp_Peer p,
      RescanProgress_headers_seen = to_int32 (rp_HeadersSeen p),
      RescanProgress_batch_headers = to_int32 (rp_BatchHeaders p),
      RescanProgress_blocks_fetched = to_int32 (rp_BlocksFetched p),
      RescanProgress_txs_replayed = to_int32 (rp_TxsReplayed p),
      RescanProgress_errors = to_int32 (rp_Errors p), RescanProgress_block_hash = rp_BlockHash p,
      RescanProgress_message = rp_Message p\<rparr>"

definition rescanStatsProto :: "bsv_RescanStats option \<Rightarrow> RescanStats" where
  "rescanStatsProto mst =
     (case mst of
        None \<Rightarrow>
          \<lparr>RescanStats_headers_seen = 0, RescanStats_blocks_fetched = 0, RescanStats_txs_replayed = 0,
           RescanStats_stopped_at = [], RescanStats_stopped_height = - 1, RescanStats_peer_switches = 0,
           RescanStats_errors = []\<rparr>
      | Some st \<Rightarrow>
          \<lparr>RescanStats_headers_seen = to_int32 (rs_HeadersSeen st),
           RescanStats_blocks_fetched = to_int32 (rs_BlocksFetched st),
           RescanStats_txs_replayed = to_int32 (rs_TxsReplayed st),
           RescanStats_stopped_at = (if rs_StoppedAt st \<noteq> replicate 32 0 then blockHashHex (rs_StoppedAt st) else []),
           RescanStats_stopped_height = rs_StoppedHeight st,
           RescanStats_peer_switches = to_int32 (rs_PeerSwitches st),
           RescanStats_errors = map error_text (rs_Errors st)\<rparr>)"

section \<open>The guard of a wallet\<close>

text \<open>The \<^verbatim>\<open>*tenantWallet\<close> a handler holds is the entry of the map under its key.\<close>

definition set_rescanning :: "string \<Rightarrow> bool \<Rightarrow> 'n service \<Rightarrow> 'n service" where
  "set_rescanning key b s =
     s\<lparr>s_wallets := map (\<lambda>(k, tw). (k, if k = key then tw\<lparr>tw_rescanning := b\<rparr> else tw)) (s_wallets s)\<rparr>"

definition is_rescanning :: "string \<Rightarrow> 'n service \<Rightarrow> bool" where
  "is_rescanning key s = (case lookup_wallet s key of None \<Rightarrow> False | Some tw \<Rightarrow> tw_rescanning tw)"

definition beginRescan :: "string \<Rightarrow> 'n service \<Rightarrow> bool \<times> 'n service" where
  "beginRescan key s = (if is_rescanning key s then (False, s) else (True, set_rescanning key True s))"

definition endRescan :: "string \<Rightarrow> 'n service \<Rightarrow> 'n service" where
  "endRescan key s = set_rescanning key False s"

text \<open>The handler until it holds the guard: the key, the start hash and the options of the walk.\<close>

definition rescan_open :: "'n sdk \<Rightarrow> call_context \<Rightarrow> RescanRequest \<Rightarrow> ('n, string \<times> bytes \<times> bsv_RescanOptions) operation" where
  "rescan_open A ctx req =
     bindE (authorizeE ctx ''/bsvms.v1.BSVMS/Rescan'' (ApiMessage (Req_Rescan req))) (\<lambda>_.
     bindE (wallet (tenant_id req) (wallet_id req)) (\<lambda>tw.
     if RescanReq_start_block_hash req = [] then throwE (invalid ''start_block_hash required'')
     else (case pkg_TxIDFromHex (the_pkg A) (RescanReq_start_block_hash req) of
         Inl _ \<Rightarrow> throwE (invalid ''invalid start_block_hash'')
       | Inr startHash \<Rightarrow>
          (let key = walletKey (tenant_id req) (wallet_id req) in
           (\<lambda>s. case beginRescan key s of
               (False, s') \<Rightarrow> (Inl (Status FailedPrecondition ''rescan already running for this wallet''), s')
             | (True, s') \<Rightarrow>
                 (Inr (key, startHash,
                    let every = RescanReq_checkpoint_every req; o1 = rescanOptions req in
                    if 0 < every then o1\<lparr>ro_CheckpointEvery := every\<rparr> else o1), s'))))))"

section \<open>Handler and walk\<close>

datatype pc = Forwarding | Waiting | Leaving "unit result" | Left "unit result"

text \<open>
  \<open>ru_reported\<close> records what the walk reported so far; \<open>ru_result\<close> is what \<^verbatim>\<open>RescanFromHash\<close> returned;
  \<open>ru_closed\<close> and \<open>ru_finished\<close> are the two channels the walk closes, in this order; \<open>ru_sent\<close> is what the
  client got.
\<close>

record run =
  ru_progress :: "RescanProgress chan"
  ru_closed :: bool
  ru_finished :: bool
  ru_result :: "bsv_RescanStats option result option"
  ru_cancelled :: bool
  ru_sent :: "RescanEvent list"
  ru_reported :: "RescanProgress list"
  ru_checkpoints :: bool
  ru_pc :: pc

definition new_run :: "bsv_RescanOptions \<Rightarrow> run" where
  "new_run options = \<lparr>ru_progress = make_chan 64, ru_closed = False, ru_finished = False, ru_result = None,
     ru_cancelled = False, ru_sent = [], ru_reported = [],
     ru_checkpoints = (0 < ro_CheckpointEvery options), ru_pc = Forwarding\<rparr>"

text \<open>The walk reports; the send does not wait, so a slow client loses reports.\<close>

definition walk_report :: "bsv_RescanProgress \<Rightarrow> run \<Rightarrow> run" where
  "walk_report p u = u\<lparr>ru_progress := try_send (rescanProgressProto p) (ru_progress u),
     ru_reported := ru_reported u @ [rescanProgressProto p]\<rparr>"

text \<open>One step of the forwarding loop; the send to the client fails with \<open>e\<close> or succeeds.\<close>

definition forward :: "goerr option \<Rightarrow> run \<Rightarrow> run option" where
  "forward err u =
     (case recv (ru_progress u) of
        None \<Rightarrow> if ru_closed u then Some (u\<lparr>ru_pc := Waiting\<rparr>) else None
      | Some (p, ch) \<Rightarrow>
         (case err of
            Some e \<Rightarrow> Some (u\<lparr>ru_progress := ch, ru_pc := Leaving (Inl e)\<rparr>)
          | None \<Rightarrow> Some (u\<lparr>ru_progress := ch, ru_sent := ru_sent u @ [RescanEvent_Progress p]\<rparr>)))"

text \<open>After \<^verbatim>\<open><-finished\<close>: report the error of the walk, or send its statistics.\<close>

definition conclude :: "goerr option \<Rightarrow> run \<Rightarrow> run" where
  "conclude err u =
     (case ru_result u of
        Some (Inl e) \<Rightarrow> u\<lparr>ru_pc := Leaving (Inl (internal e))\<rparr>
      | Some (Inr st) \<Rightarrow>
         (case err of
            Some e \<Rightarrow> u\<lparr>ru_pc := Leaving (Inl e)\<rparr>
          | None \<Rightarrow> u\<lparr>ru_sent := ru_sent u @ [RescanEvent_Stats (rescanStatsProto st)], ru_pc := Leaving (Inr ())\<rparr>)
      | None \<Rightarrow> u)"

inductive run_step :: "run \<Rightarrow> run \<Rightarrow> bool" where
  report: "ru_result u = None \<Longrightarrow> run_step u (walk_report p u)"
| walk_returns: "ru_result u = None \<Longrightarrow> run_step u (u\<lparr>ru_result := Some r\<rparr>)"
| close_progress: "ru_result u \<noteq> None \<Longrightarrow> \<not> ru_closed u \<Longrightarrow> run_step u (u\<lparr>ru_closed := True\<rparr>)"
| close_finished: "ru_closed u \<Longrightarrow> \<not> ru_finished u \<Longrightarrow> run_step u (u\<lparr>ru_finished := True\<rparr>)"
| forwards: "ru_pc u = Forwarding \<Longrightarrow> forward err u = Some u' \<Longrightarrow> run_step u u'"
| concludes: "ru_pc u = Waiting \<Longrightarrow> ru_finished u \<Longrightarrow> run_step u (conclude err u)"
| cancels: "ru_pc u = Leaving r \<Longrightarrow> \<not> ru_cancelled u \<Longrightarrow> run_step u (u\<lparr>ru_cancelled := True\<rparr>)"
| leaves: "ru_pc u = Leaving r \<Longrightarrow> ru_cancelled u \<Longrightarrow> ru_finished u \<Longrightarrow> run_step u (u\<lparr>ru_pc := Left r\<rparr>)"

inductive_cases run_stepE: "run_step u u'"

section \<open>Many calls on one service\<close>

record 'n system =
  sy_service :: "'n service"
  sy_runs :: "(string \<times> run) list"

text \<open>
  Steps of the system: a call takes a guard and starts its run, a run moves, a walk's checkpoint saves
  the address snapshot, a run that has left releases the guard, and anything else the service does
  that leaves the wallets in place.
\<close>

inductive system_step :: "'n sdk \<Rightarrow> 'n system \<Rightarrow> 'n system \<Rightarrow> bool" for A where
  opens: "rescan_open A ctx req (sy_service y) = (Inr (key, hash, options), s') \<Longrightarrow>
     system_step A y \<lparr>sy_service = s', sy_runs = (key, new_run options) # sy_runs y\<rparr>"
| refused: "rescan_open A ctx req (sy_service y) = (Inl e, s') \<Longrightarrow> system_step A y (y\<lparr>sy_service := s'\<rparr>)"
| moves: "sy_runs y = before @ (key, u) # after \<Longrightarrow> run_step u u' \<Longrightarrow>
     system_step A y (y\<lparr>sy_runs := before @ (key, u') # after\<rparr>)"
| checkpoint: "(key, u) \<in> set (sy_runs y) \<Longrightarrow> ru_checkpoints u \<Longrightarrow> ru_result u = None \<Longrightarrow> lookup_wallet (sy_service y) key = Some tw \<Longrightarrow>
     saveSnapshot A tw (sy_service y) = (r, s') \<Longrightarrow> system_step A y (y\<lparr>sy_service := s'\<rparr>)"
| releases: "sy_runs y = before @ (key, u) # after \<Longrightarrow> ru_pc u = Left r \<Longrightarrow>
     system_step A y \<lparr>sy_service = endRescan key (sy_service y), sy_runs = before @ after\<rparr>"
| sdk_works: "system_step A y (y\<lparr>sy_service := (sy_service y)\<lparr>s_node := n\<rparr>\<rparr>)"
| call: "unary_call A q = Some m \<Longrightarrow> m (sy_service y) = (r, s') \<Longrightarrow> system_step A y (y\<lparr>sy_service := s'\<rparr>)"

inductive_cases system_stepE: "system_step A y y'"

inductive reachable :: "'n sdk \<Rightarrow> 'n system \<Rightarrow> 'n system \<Rightarrow> bool" for A y0 where
  start: "reachable A y0 y0"
| steps: "reachable A y0 y \<Longrightarrow> system_step A y y' \<Longrightarrow> reachable A y0 y'"

section \<open>One run\<close>

text \<open>
  What the client has is a prefix of the truth: progress it was sent comes, in order, from what the
  walk reported, and the statistics come last, once, and only when the call succeeds.
\<close>

fun outcome_ok :: "pc \<Rightarrow> bsv_RescanStats option result option \<Rightarrow> RescanEvent list \<Rightarrow> bool" where
  "outcome_ok (Leaving (Inr u)) res tail = (\<exists>st. res = Some (Inr st) \<and> tail = [RescanEvent_Stats (rescanStatsProto st)])"
| "outcome_ok (Left (Inr u)) res tail = (\<exists>st. res = Some (Inr st) \<and> tail = [RescanEvent_Stats (rescanStatsProto st)])"
| "outcome_ok _ res tail = (tail = [])"

definition run_inv :: "run \<Rightarrow> bool" where
  "run_inv u \<longleftrightarrow> cap (ru_progress u) = 64 \<and> length (buf (ru_progress u)) \<le> 64
     \<and> (ru_closed u \<longrightarrow> ru_result u \<noteq> None) \<and> (ru_finished u \<longrightarrow> ru_closed u)
     \<and> (\<forall>r. ru_pc u = Left r \<longrightarrow> ru_finished u \<and> ru_cancelled u)
     \<and> (\<exists>ps tail. ru_sent u = map RescanEvent_Progress ps @ tail
          \<and> subseq (ps @ buf (ru_progress u)) (ru_reported u) \<and> outcome_ok (ru_pc u) (ru_result u) tail)"

lemma run_inv_new: "run_inv (new_run options)"
  by (simp add: run_inv_def new_run_def make_chan_def)

lemma subseq_try_send:
  assumes "subseq (ps @ buf ch) rs"
  shows "subseq (ps @ buf (try_send p ch)) (rs @ [p])"
proof (cases "length (buf ch) < cap ch")
  case True
  have "subseq ((ps @ buf ch) @ [p]) (rs @ [p])"
    using assms by (intro list_emb_append_mono) auto
  with True show ?thesis by (simp add: try_send_def)
next
  case False
  have "subseq (ps @ buf ch) (rs @ [p])"
    using assms by (rule list_emb_prefix)
  with False show ?thesis by (simp add: try_send_def)
qed

lemma outcome_other: "(\<forall>x. p \<noteq> Leaving (Inr x)) \<Longrightarrow> (\<forall>x. p \<noteq> Left (Inr x)) \<Longrightarrow> outcome_ok p res tail = (tail = [])"
  by (cases "(p, res, tail)" rule: outcome_ok.cases) auto

lemma run_invE:
  assumes "run_inv u"
  obtains ps tail where "ru_sent u = map RescanEvent_Progress ps @ tail" and "subseq (ps @ buf (ru_progress u)) (ru_reported u)"
    and "outcome_ok (ru_pc u) (ru_result u) tail"
  using assms unfolding run_inv_def by blast

lemma run_inv_report:
  assumes "run_inv u"
  shows "run_inv (walk_report p u)"
proof -
  obtain ps tail where sent: "ru_sent u = map RescanEvent_Progress ps @ tail"
    and sub: "subseq (ps @ buf (ru_progress u)) (ru_reported u)" and oc: "outcome_ok (ru_pc u) (ru_result u) tail"
    using assms by (rule run_invE)
  have "cap (try_send x (ru_progress u)) = 64 \<and> length (buf (try_send x (ru_progress u))) \<le> 64" for x
    using assms by (auto simp: run_inv_def try_send_def)
  moreover have "subseq (ps @ buf (try_send (rescanProgressProto p) (ru_progress u))) (ru_reported u @ [rescanProgressProto p])"
    by (rule subseq_try_send [OF sub])
  ultimately show ?thesis
    using assms sent oc unfolding run_inv_def walk_report_def
    by (intro conjI exI [of _ ps] exI [of _ tail]) auto
qed

lemma run_inv_forward:
  assumes "run_inv u" and "ru_pc u = Forwarding" and "forward err u = Some u'"
  shows "run_inv u'"
proof -
  obtain ps tail where sent: "ru_sent u = map RescanEvent_Progress ps @ tail"
    and sub: "subseq (ps @ buf (ru_progress u)) (ru_reported u)" and oc: "outcome_ok (ru_pc u) (ru_result u) tail"
    using assms(1) by (rule run_invE)
  have tail: "tail = []" using oc assms(2) by simp
  consider (empty) "u' = u\<lparr>ru_pc := Waiting\<rparr>"
    | (sent) p ch where "recv (ru_progress u) = Some (p, ch)" "u' = u\<lparr>ru_progress := ch, ru_sent := ru_sent u @ [RescanEvent_Progress p]\<rparr>"
    | (failed) p ch e where "recv (ru_progress u) = Some (p, ch)" "u' = u\<lparr>ru_progress := ch, ru_pc := Leaving (Inl e)\<rparr>"
    using assms(3) by (auto simp: forward_def split: option.splits if_splits prod.splits)
  then show ?thesis
  proof cases
    case empty
    with assms(1) sent sub tail show ?thesis by (auto simp: run_inv_def)
  next
    case (sent p ch)
    note b = chan.receive_Some [OF sent(1)]
    have "ru_sent u' = map RescanEvent_Progress (ps @ [p]) @ []" and "subseq ((ps @ [p]) @ buf (ru_progress u')) (ru_reported u')"
      using \<open>ru_sent u = map RescanEvent_Progress ps @ tail\<close> tail sub b by (simp_all add: sent(2))
    moreover have "outcome_ok (ru_pc u') (ru_result u') []" using assms(2) by (simp add: sent(2))
    ultimately show ?thesis
      using assms(1,2) b unfolding run_inv_def
      by (intro conjI exI [of _ "ps @ [p]"] exI [of _ "[]"]) (simp_all add: sent(2))
  next
    case (failed p ch e)
    note b = chan.receive_Some [OF failed(1)]
    have "subseq (ps @ buf ch) (ps @ buf (ru_progress u))"
      using b by (simp add: list_emb_append_mono list_emb_Cons)
    then have "subseq (ps @ buf ch) (ru_reported u)" using sub by (rule subseq_order.trans)
    with assms(1) b sent tail show ?thesis unfolding run_inv_def by (auto simp: failed(2))
  qed
qed

lemma run_inv_step:
  assumes "run_step u u'" and "run_inv u"
  shows "run_inv u'"
  using assms
proof (cases rule: run_step.cases)
  case (report p)
  with assms(2) show ?thesis by (simp add: run_inv_report)
next
  case (walk_returns r)
  have "\<forall>x. ru_pc u \<noteq> Leaving (Inr x)" "\<forall>x. ru_pc u \<noteq> Left (Inr x)"
    using assms(2) walk_returns(2) unfolding run_inv_def by auto
  with assms(2) show ?thesis
    unfolding run_inv_def walk_returns(1) by (auto simp: outcome_other)
next
  case (forwards err)
  with assms(2) show ?thesis by (rule run_inv_forward)
next
  case (concludes err)
  obtain ps tail where sent: "ru_sent u = map RescanEvent_Progress ps @ tail"
    and sub: "subseq (ps @ buf (ru_progress u)) (ru_reported u)" and oc: "outcome_ok (ru_pc u) (ru_result u) tail"
    using assms(2) by (rule run_invE)
  have tail: "tail = []" using oc concludes(2) by simp
  with assms(2) sent sub concludes(2) show ?thesis
    unfolding run_inv_def concludes(1) by (auto simp: conclude_def split: option.splits sum.splits)
next
  case (leaves r)
  with assms(2) show ?thesis
    unfolding run_inv_def by (cases r) auto
qed (auto simp: run_inv_def)

text \<open>
  Once the walk has returned, the run comes to its end: every further step makes progress, and until
  the handler has left, some step is possible.
\<close>

fun pc_rank :: "pc \<Rightarrow> nat" where
  "pc_rank Forwarding = 3"
| "pc_rank Waiting = 2"
| "pc_rank (Leaving _) = 1"
| "pc_rank (Left _) = 0"

definition run_rank :: "run \<Rightarrow> nat" where
  "run_rank u = (if ru_closed u then 0 else 1) + (if ru_finished u then 0 else 1)
     + (if ru_cancelled u then 0 else 1) + length (buf (ru_progress u)) + pc_rank (ru_pc u)"

lemma run_rank_decreases:
  assumes "run_step u u'" and "ru_result u \<noteq> None"
  shows "run_rank u' < run_rank u" and "ru_result u' \<noteq> None"
proof -
  from assms have "run_rank u' < run_rank u \<and> ru_result u' \<noteq> None"
  proof (cases rule: run_step.cases)
    case (forwards err)
    then show ?thesis
      using assms(2) by (auto simp: forward_def run_rank_def recv_def split: option.splits if_splits list.splits)
  next
    case (concludes err)
    then show ?thesis
      using assms(2) by (auto simp: conclude_def run_rank_def split: option.splits sum.splits)
  qed (auto simp: run_rank_def)
  then show "run_rank u' < run_rank u" and "ru_result u' \<noteq> None" by simp_all
qed

lemma run_can_move:
  assumes "ru_result u \<noteq> None" and "\<forall>r. ru_pc u \<noteq> Left r"
  shows "\<exists>u'. run_step u u'"
proof (cases "ru_closed u \<and> ru_finished u")
  case False
  then show ?thesis
    using close_progress [OF assms(1)] close_finished [of u] by blast
next
  case True
  show ?thesis
  proof (cases "ru_pc u")
    case Forwarding
    have "\<exists>u'. forward None u = Some u'"
      using True by (auto simp: forward_def split: option.splits prod.splits)
    with Forwarding show ?thesis using forwards by blast
  next
    case Waiting
    with True show ?thesis using concludes by blast
  next
    case (Leaving r)
    with True show ?thesis using cancels leaves by blast
  qed (use assms(2) in simp)
qed

lemma run_ends:
  assumes "ru_result u \<noteq> None"
  shows "\<exists>u' r. run_step\<^sup>*\<^sup>* u u' \<and> ru_pc u' = Left r"
  using assms
proof (induction "run_rank u" arbitrary: u rule: less_induct)
  case less
  show ?case
  proof (cases "\<exists>r. ru_pc u = Left r")
    case False
    then obtain u1 where u1: "run_step u u1" using run_can_move [OF less.prems] by blast
    from less.hyps [OF run_rank_decreases [OF u1 less.prems]] obtain u' r where
      "run_step\<^sup>*\<^sup>* u1 u'" "ru_pc u' = Left r" by blast
    with u1 show ?thesis by (meson converse_rtranclp_into_rtranclp)
  qed auto
qed

lemma run_inv_steps: "run_step\<^sup>*\<^sup>* (new_run options) u \<Longrightarrow> run_inv u"
  by (induction rule: rtranclp_induct) (auto intro: run_inv_new run_inv_step)

lemma run_result_stays: "run_step\<^sup>*\<^sup>* u v \<Longrightarrow> ru_result u \<noteq> None \<Longrightarrow> ru_result v \<noteq> None"
  by (induction rule: rtranclp_induct) (auto dest: run_rank_decreases(2))

lemma run_finite:
  assumes "ru_result (f 0) \<noteq> None"
  shows "\<not> (\<forall>i. run_step (f i) (f (Suc i)))"
proof
  assume steps: "\<forall>i. run_step (f i) (f (Suc i))"
  have res: "ru_result (f i) \<noteq> None" for i
    by (induction i) (use assms steps run_rank_decreases(2) in blast)+
  have "(f (Suc i), f i) \<in> measure run_rank" for i
    using run_rank_decreases(1) [of "f i" "f (Suc i)"] steps res by simp
  then show False
    using wf_measure [of run_rank] unfolding wf_iff_no_infinite_down_chain by blast
qed

section \<open>The guard\<close>

lemma lookup_set_rescanning:
  "lookup_wallet (set_rescanning key b s) k =
     map_option (\<lambda>tw. if k = key then tw\<lparr>tw_rescanning := b\<rparr> else tw) (lookup_wallet s k)"
proof -
  have "map_of (map (\<lambda>(k, tw). (k, if k = key then tw\<lparr>tw_rescanning := b\<rparr> else tw)) ws) k =
     map_option (\<lambda>tw. if k = key then tw\<lparr>tw_rescanning := b\<rparr> else tw) (map_of ws k)" for ws
    by (induction ws) auto
  then show ?thesis by (simp add: lookup_wallet_def set_rescanning_def)
qed

lemma set_rescanning_fields [simp]:
  "s_state (set_rescanning key b s) = s_state s" "s_opts (set_rescanning key b s) = s_opts s"
  "wallet_events (set_rescanning key b s) = wallet_events s" "s_dataDir (set_rescanning key b s) = s_dataDir s"
  "map fst (s_wallets (set_rescanning key b s)) = map fst (s_wallets s)"
  by (auto simp: set_rescanning_def)

lemma live_inv_set_rescanning: "live_inv (set_rescanning key b s) = live_inv s"
proof -
  have "live_inv s" if "live_inv (set_rescanning key b s)"
    unfolding live_inv_def
  proof (intro allI impI)
    fix k tw
    assume "lookup_wallet s k = Some tw"
    then have "lookup_wallet (set_rescanning key b s) k = Some (if k = key then tw\<lparr>tw_rescanning := b\<rparr> else tw)"
      by (simp add: lookup_set_rescanning)
    with that show "k = meta_key (tw_meta tw) \<and> tw_meta tw \<in> set (s_state s)
        \<and> (tw_w tw, TenantID (tw_meta tw), WalletID (tw_meta tw)) \<in> set (wallet_events s)"
      unfolding live_inv_def by (fastforce split: if_splits)
  qed
  moreover have "live_inv (set_rescanning key b s)" if "live_inv s"
    using that unfolding live_inv_def by (auto simp: lookup_set_rescanning split: if_splits)
  ultimately show ?thesis by blast
qed

lemma registry_inv_set_rescanning [simp]: "registry_inv (set_rescanning key b s) = registry_inv s"
  unfolding registry_inv_def by (simp add: lookup_set_rescanning live_inv_set_rescanning)

lemma is_rescanning_set:
  "is_rescanning k (set_rescanning key b s) =
     (if k = key then b \<and> lookup_wallet s key \<noteq> None else is_rescanning k s)"
  by (simp add: is_rescanning_def lookup_set_rescanning split: option.splits)

text \<open>No unary call touches a guard: wallets stay, and a new wallet starts without one.\<close>

definition same_guards :: "'n service \<Rightarrow> 'n service \<Rightarrow> bool" where
  "same_guards s s' \<longleftrightarrow> (\<forall>k. is_rescanning k s' = is_rescanning k s)"

lemma same_guards_updates:
  "same_guards s (s\<lparr>s_node := n\<rparr>)" "same_guards s (s\<lparr>entropy := e\<rparr>)"
  by (simp_all add: same_guards_def is_rescanning_def)

lemma enrolled_guards:
  assumes "enrolled t w secrets s s'" and "lookup_wallet s (walletKey t w) = None"
  shows "same_guards s s'"
  using assms unfolding enrolled_def same_guards_def is_rescanning_def
  by (elim exE conjE) (simp add: lookup_wallet_def update_conv')

lemma enroller_guards:
  assumes "enroller add tid wid secrets" and "add q s = (r, s')"
  shows "same_guards s s'"
  using enroller.add_cases [OF assms] enrolled_guards
  by (fastforce simp: quiet_def same_guards_def is_rescanning_def)

lemma unary_guards:
  assumes "unary_call A r = Some m" and "m s = (res, s')"
  shows "same_guards s s'"
proof (cases "registering r")
  case False
  with node_only_unary [OF assms(1)] assms(2) same_guards_updates(1) show ?thesis
    by (metis node_onlyE)
next
  case True
  then consider (create) q where "r = Req_CreateWallet q" | (restore) q where "r = Req_RestoreWallet q"
    | (refresh) q where "r = Req_RefreshToken q"
    by (cases r) auto
  then show ?thesis
  proof cases
    case create
    then obtain r0 where "CreateWallet A q s = (r0, s')"
      using assms mapE_run by fastforce
    then show ?thesis by (rule enroller_guards [OF create.enroller_axioms])
  next
    case restore
    then obtain r0 where "RestoreWallet A q s = (r0, s')"
      using assms mapE_run by fastforce
    then show ?thesis by (rule enroller_guards [OF restore.enroller_axioms])
  next
    case refresh
    then obtain r0 where "RefreshToken q s = (r0, s')"
      using assms mapE_run by fastforce
    with refresh_state same_guards_updates(2) show ?thesis by metis
  qed
qed

text \<open>Opening a call: the guard is taken exactly when the call goes on.\<close>

lemma rescan_open_outcome:
  "rescan_open A ctx req s = (r, s') \<Longrightarrow>
     (\<exists>e. r = Inl e \<and> s' = s) \<or>
     (\<exists>hash options. r = Inr (walletKey (tenant_id req) (wallet_id req), hash, options)
        \<and> lookup_wallet s (walletKey (tenant_id req) (wallet_id req)) \<noteq> None
        \<and> \<not> is_rescanning (walletKey (tenant_id req) (wallet_id req)) s
        \<and> s' = set_rescanning (walletKey (tenant_id req) (wallet_id req)) True s)"
  unfolding rescan_open_def Let_def
  by (auto simp: act_simps authorizeE_def wallet_def beginRescan_def
      split: if_splits sum.splits option.splits)

lemma rescan_open_busy:
  assumes "is_rescanning (walletKey (tenant_id req) (wallet_id req)) s"
  shows "\<exists>e. rescan_open A ctx req s = (Inl e, s)
    \<and> (authorize ctx ''/bsvms.v1.BSVMS/Rescan'' (ApiMessage (Req_Rescan req)) s = Inr () \<longrightarrow>
       idRE (tenant_id req) \<longrightarrow> idRE (wallet_id req) \<longrightarrow> RescanReq_start_block_hash req \<noteq> [] \<longrightarrow>
       (\<exists>h. pkg_TxIDFromHex (the_pkg A) (RescanReq_start_block_hash req) = Inr h) \<longrightarrow>
       e = Status FailedPrecondition ''rescan already running for this wallet'')"
proof -
  obtain tw where tw: "lookup_wallet s (walletKey (tenant_id req) (wallet_id req)) = Some tw"
    using assms by (auto simp: is_rescanning_def split: option.splits)
  obtain e where "rescan_open A ctx req s = (Inl e, s)"
    using rescan_open_outcome [of A ctx req s] assms by (metis surj_pair)
  moreover have "rescan_open A ctx req s = (Inl (Status FailedPrecondition ''rescan already running for this wallet''), s)"
    if "authorize ctx ''/bsvms.v1.BSVMS/Rescan'' (ApiMessage (Req_Rescan req)) s = Inr ()" "idRE (tenant_id req)"
      "idRE (wallet_id req)" "RescanReq_start_block_hash req \<noteq> []"
      "pkg_TxIDFromHex (the_pkg A) (RescanReq_start_block_hash req) = Inr h" for h
  proof -
    have "wallet (tenant_id req) (wallet_id req) s = (Inr tw, s)"
      using that(2,3) tw by (simp add: wallet_success)
    with that assms show ?thesis
      by (simp add: rescan_open_def bindE_apply authorizeE_def beginRescan_def Let_def)
  qed
  ultimately show ?thesis by auto
qed

section \<open>The invariant of the system\<close>

text \<open>
  The guards that are held are those of the calls that run, no wallet has two of them, and every run
  keeps the invariant of one run.
\<close>

definition guard_inv :: "'n system \<Rightarrow> bool" where
  "guard_inv y \<longleftrightarrow> distinct (map fst (sy_runs y))
     \<and> (\<forall>k. is_rescanning k (sy_service y) \<longleftrightarrow> k \<in> fst ` set (sy_runs y))
     \<and> (\<forall>(k, u) \<in> set (sy_runs y). run_inv u)"

lemma guard_inv_same:
  "same_guards (sy_service y) s' \<Longrightarrow> guard_inv (y\<lparr>sy_service := s'\<rparr>) = guard_inv y"
  by (simp add: guard_inv_def same_guards_def)

lemma guard_inv_opens:
  assumes "guard_inv y" and "rescan_open A ctx req (sy_service y) = (Inr (key, hash, options), s')"
  shows "guard_inv \<lparr>sy_service = s', sy_runs = (key, new_run options) # sy_runs y\<rparr>"
  using assms(1) rescan_open_outcome [OF assms(2)] run_inv_new [of options]
  by (auto simp: guard_inv_def is_rescanning_set)

lemma guard_inv_releases:
  assumes "guard_inv y" and "sy_runs y = before @ (key, u) # after"
  shows "guard_inv \<lparr>sy_service = endRescan key (sy_service y), sy_runs = before @ after\<rparr>"
  using assms by (auto simp: guard_inv_def endRescan_def is_rescanning_set image_Un)

lemma guard_inv_step:
  assumes "system_step A y y'" and "guard_inv y"
  shows "guard_inv y'"
  using assms
proof (cases rule: system_step.cases)
  case (opens ctx req key hash options s')
  with assms(2) guard_inv_opens show ?thesis by metis
next
  case (refused ctx req e s')
  with rescan_open_outcome [OF refused(2)] assms(2) show ?thesis by (auto simp: guard_inv_def)
next
  case (moves before key u after u')
  with assms(2) run_inv_step [OF moves(3)] show ?thesis
    by (auto simp: guard_inv_def)
next
  case (checkpoint key u tw r s')
  obtain n where "s' = (sy_service y)\<lparr>s_node := n\<rparr>"
    using node_onlyE [OF node_only_saveSnapshot checkpoint(6)] .
  with checkpoint(1) assms(2) show ?thesis by (simp add: guard_inv_same same_guards_updates)
next
  case (releases before key u after r)
  with assms(2) guard_inv_releases show ?thesis by metis
next
  case (sdk_works n)
  with assms(2) show ?thesis by (simp add: guard_inv_same same_guards_updates)
next
  case (call q m r s')
  with assms(2) unary_guards [OF call(2,3)] show ?thesis by (simp add: guard_inv_same)
qed

lemma guard_inv_reachable: "reachable A y0 y \<Longrightarrow> guard_inv y0 \<Longrightarrow> guard_inv y"
  by (induction rule: reachable.induct) (auto intro: guard_inv_step)

text \<open>The steps of one run are steps of the system.\<close>

lemma run_lifts:
  assumes "run_step\<^sup>*\<^sup>* u u'" and "sy_runs y = before @ (key, u) # after"
  shows "(system_step A)\<^sup>*\<^sup>* y (y\<lparr>sy_runs := before @ (key, u') # after\<rparr>)"
  using assms(1)
proof (induction rule: rtranclp_induct)
  case base
  have "y = y\<lparr>sy_runs := before @ (key, u) # after\<rparr>" using assms(2) by simp
  then show ?case by (metis rtranclp.rtrancl_refl)
next
  case (step v v')
  have "system_step A (y\<lparr>sy_runs := before @ (key, v) # after\<rparr>)
     (y\<lparr>sy_runs := before @ (key, v) # after\<rparr>\<lparr>sy_runs := before @ (key, v') # after\<rparr>)"
    by (rule system_step.moves [OF _ step.hyps(2)]) simp
  with step.IH show ?case by simp
qed

end
