(* ===== verification/Rescan_Props.thy ===== *)
theory Rescan_Props
  imports Rescan
begin

text \<open>
  What a client and an operator can rely on when wallets are rescanned: one walk per wallet, a handler
  that comes back, and a stream that tells the truth.
\<close>

section \<open>A concrete call\<close>

definition demo_rescan :: RescanRequest where
  "demo_rescan = \<lparr>tenant_id = ''acme'', wallet_id = ''hot'', RescanReq_start_block_hash = ''00'',
     RescanReq_start_height = 0, RescanReq_max_blocks = 0, RescanReq_headers_timeout_ms = 0,
     RescanReq_block_timeout_ms = 0, RescanReq_max_consecutive_block_errors = 0,
     RescanReq_checkpoint_every = 0, RescanReq_gc_every = 0, RescanReq_prefetch = 0,
     RescanReq_prefetch_bytes = 0, RescanReq_stream_block_bytes = 0\<rparr>"

definition demo_idle :: "nat system" where
  "demo_idle = \<lparr>sy_service = one_wallet, sy_runs = []\<rparr>"

definition demo_busy :: "nat system" where
  "demo_busy = \<lparr>sy_service = set_rescanning (walletKey ''acme'' ''hot'') True one_wallet,
     sy_runs = [(walletKey ''acme'' ''hot'', new_run (rescanOptions demo_rescan))]\<rparr>"

lemma one_wallet_lookup:
  "lookup_wallet one_wallet k = (if k = walletKey ''acme'' ''hot''
     then Some \<lparr>tw_meta = legacy_meta, tw_w = 0, tw_store = 0, tw_rescanning = False\<rparr> else None)"
  by (simp add: one_wallet_def lookup_wallet_def)

lemma one_wallet_idle: "\<not> is_rescanning k one_wallet"
  by (simp add: is_rescanning_def one_wallet_lookup)

lemma one_wallet_open: "AuthEnabled (s_opts (one_wallet :: nat service)) = False"
  by (simp add: one_wallet_def)

lemma Hex_00: "Hex_DecodeString ''00'' = Inr [0]"
  by code_simp

lemma demo_opens: "rescan_open demo_sdk ctx demo_rescan one_wallet =
    (Inr (walletKey ''acme'' ''hot'', [0], rescanOptions demo_rescan), set_rescanning (walletKey ''acme'' ''hot'') True one_wallet)"
proof -
  have w: "wallet ''acme'' ''hot'' one_wallet =
      (Inr \<lparr>tw_meta = legacy_meta, tw_w = 0, tw_store = 0, tw_rescanning = False\<rparr>, one_wallet)"
    using demo_ids by (simp add: wallet_success one_wallet_lookup)
  show ?thesis
    using w Hex_00 one_wallet_open
    by (simp add: rescan_open_def bindE_apply authorizeE_def authorize_def demo_rescan_def beginRescan_def
        one_wallet_idle Let_def)
qed

lemma demo_idle_guards: "sy_runs demo_idle = []" "\<forall>k. \<not> is_rescanning k (sy_service demo_idle)"
  by (simp_all add: demo_idle_def one_wallet_idle)

lemma demo_busy_reachable: "reachable demo_sdk demo_idle demo_busy"
proof -
  have "system_step demo_sdk demo_idle demo_busy"
    using system_step.opens [of demo_sdk None demo_rescan demo_idle] demo_opens
    by (simp add: demo_idle_def demo_busy_def)
  with reachable.start show ?thesis by (rule reachable.steps)
qed

section \<open>One walk per wallet\<close>

text \<open>
  C6. Whatever calls are made and however they interleave, a wallet is never rewound by two walks at
  once: at every moment the calls that hold a guard are on different wallets, a wallet's guard is up
  exactly while such a call runs, and another call for that wallet is turned away without any effect,
  with \<open>FailedPrecondition\<close> when it is otherwise in order.
\<close>

theorem rescan_exclusive:
  assumes "reachable A y0 y" and "sy_runs y0 = []" and "\<forall>k. \<not> is_rescanning k (sy_service y0)"
  shows "distinct (map fst (sy_runs y))
    \<and> (\<forall>k. is_rescanning k (sy_service y) \<longleftrightarrow> k \<in> fst ` set (sy_runs y))
    \<and> (\<forall>ctx req. walletKey (tenant_id req) (wallet_id req) \<in> fst ` set (sy_runs y) \<longrightarrow>
         (\<exists>e. rescan_open A ctx req (sy_service y) = (Inl e, sy_service y)
            \<and> (authorize ctx ''/bsvms.v1.BSVMS/Rescan'' (ApiMessage (Req_Rescan req)) (sy_service y) = Inr () \<longrightarrow>
               idRE (tenant_id req) \<longrightarrow> idRE (wallet_id req) \<longrightarrow> RescanReq_start_block_hash req \<noteq> [] \<longrightarrow>
               (\<exists>h. pkg_TxIDFromHex (the_pkg A) (RescanReq_start_block_hash req) = Inr h) \<longrightarrow>
               e = Status FailedPrecondition ''rescan already running for this wallet'')))"
proof -
  have "guard_inv y0" using assms(2,3) by (simp add: guard_inv_def)
  then have inv: "guard_inv y" by (rule guard_inv_reachable [OF assms(1)])
  have "\<exists>e. rescan_open A ctx req (sy_service y) = (Inl e, sy_service y)
      \<and> (authorize ctx ''/bsvms.v1.BSVMS/Rescan'' (ApiMessage (Req_Rescan req)) (sy_service y) = Inr () \<longrightarrow>
         idRE (tenant_id req) \<longrightarrow> idRE (wallet_id req) \<longrightarrow> RescanReq_start_block_hash req \<noteq> [] \<longrightarrow>
         (\<exists>h. pkg_TxIDFromHex (the_pkg A) (RescanReq_start_block_hash req) = Inr h) \<longrightarrow>
         e = Status FailedPrecondition ''rescan already running for this wallet'')"
    if "walletKey (tenant_id req) (wallet_id req) \<in> fst ` set (sy_runs y)" for ctx and req :: RescanRequest
    using that inv rescan_open_busy by (metis guard_inv_def)
  with inv show ?thesis by (simp add: guard_inv_def)
qed

theorem rescan_exclusive_witness:
  "walletKey ''acme'' ''hot'' \<in> fst ` set (sy_runs demo_busy)
   \<and> (\<forall>ctx. rescan_open demo_sdk ctx demo_rescan (sy_service demo_busy) =
         (Inl (Status FailedPrecondition ''rescan already running for this wallet''), sy_service demo_busy))"
proof -
  have busy: "walletKey (tenant_id demo_rescan) (wallet_id demo_rescan) \<in> fst ` set (sy_runs demo_busy)"
    by (simp add: demo_rescan_def demo_busy_def)
  have "authorize ctx ''/bsvms.v1.BSVMS/Rescan'' (ApiMessage (Req_Rescan demo_rescan)) (sy_service demo_busy) = Inr ()" for ctx
    using one_wallet_open by (simp add: authorize_def demo_busy_def)
  moreover have "\<exists>h. pkg_TxIDFromHex (the_pkg demo_sdk) (RescanReq_start_block_hash demo_rescan) = Inr h"
    using Hex_00 by (simp add: demo_rescan_def)
  moreover have "idRE (tenant_id demo_rescan)" "idRE (wallet_id demo_rescan)" "RescanReq_start_block_hash demo_rescan \<noteq> []"
    using demo_ids by (simp_all add: demo_rescan_def)
  ultimately have "rescan_open demo_sdk ctx demo_rescan (sy_service demo_busy) =
         (Inl (Status FailedPrecondition ''rescan already running for this wallet''), sy_service demo_busy)" for ctx
    using rescan_exclusive [OF demo_busy_reachable demo_idle_guards] busy by metis
  with busy show ?thesis by (simp add: demo_rescan_def)
qed

section \<open>The handler comes back\<close>

text \<open>
  C16. Once the walk has returned, so does the call, whatever the client does and however the two
  goroutines are scheduled: there is no infinite run, the only place a run can stop is the end of the
  handler, and from there the guard is released, so the wallet can be rescanned again.
\<close>

theorem rescan_returns:
  assumes "reachable A y0 y" and "sy_runs y0 = []" and "\<forall>k. \<not> is_rescanning k (sy_service y0)"
    and "(key, u) \<in> set (sy_runs y)" and "ru_result u \<noteq> None"
  shows "(\<nexists>f. f 0 = u \<and> (\<forall>i. run_step (f i) (f (Suc i))))
    \<and> (\<forall>v. run_step\<^sup>*\<^sup>* u v \<longrightarrow> (\<nexists>w. run_step v w) \<longrightarrow> (\<exists>r. ru_pc v = Left r))
    \<and> (\<exists>y'. (system_step A)\<^sup>*\<^sup>* y y' \<and> \<not> is_rescanning key (sy_service y'))"
proof (intro conjI allI impI)
  show "\<nexists>f. f 0 = u \<and> (\<forall>i. run_step (f i) (f (Suc i)))"
    using run_finite assms(5) by blast
  show "\<exists>r. ru_pc v = Left r" if "run_step\<^sup>*\<^sup>* u v" "\<nexists>w. run_step v w" for v
    using run_can_move [of v] run_result_stays [OF that(1) assms(5)] that(2) by blast
  obtain before after where runs: "sy_runs y = before @ (key, u) # after"
    using assms(4) by (meson split_list)
  obtain u' r where u': "run_step\<^sup>*\<^sup>* u u'" "ru_pc u' = Left r"
    using run_ends [OF assms(5)] by blast
  let ?y = "y\<lparr>sy_runs := before @ (key, u') # after\<rparr>"
  have "(system_step A)\<^sup>*\<^sup>* y ?y" by (rule run_lifts [OF u'(1) runs])
  moreover have "system_step A ?y \<lparr>sy_service = endRescan key (sy_service ?y), sy_runs = before @ after\<rparr>"
    by (rule system_step.releases [OF _ u'(2)]) simp
  ultimately show "\<exists>y'. (system_step A)\<^sup>*\<^sup>* y y' \<and> \<not> is_rescanning key (sy_service y')"
    by (intro exI [of _ "\<lparr>sy_service = endRescan key (sy_service ?y), sy_runs = before @ after\<rparr>"])
      (simp add: endRescan_def is_rescanning_set)
qed

definition demo_done :: "nat system" where
  "demo_done = demo_busy\<lparr>sy_runs := [(walletKey ''acme'' ''hot'',
     (new_run (rescanOptions demo_rescan))\<lparr>ru_result := Some (Inr None)\<rparr>)]\<rparr>"

lemma demo_done_reachable: "reachable demo_sdk demo_idle demo_done"
proof -
  let ?u = "new_run (rescanOptions demo_rescan)"
  have "system_step demo_sdk demo_busy (demo_busy\<lparr>sy_runs := [] @ (walletKey ''acme'' ''hot'', ?u\<lparr>ru_result := Some (Inr None)\<rparr>) # []\<rparr>)"
    by (rule system_step.moves [OF _ run_step.walk_returns]) (simp_all add: demo_busy_def new_run_def)
  then have "system_step demo_sdk demo_busy demo_done" by (simp add: demo_done_def)
  with demo_busy_reachable show ?thesis by (rule reachable.steps)
qed

theorem rescan_returns_witness:
  "is_rescanning (walletKey ''acme'' ''hot'') (sy_service demo_done)
   \<and> (\<exists>y'. (system_step demo_sdk)\<^sup>*\<^sup>* demo_done y' \<and> \<not> is_rescanning (walletKey ''acme'' ''hot'') (sy_service y'))"
proof -
  have "is_rescanning (walletKey ''acme'' ''hot'') (sy_service demo_done)"
    by (simp add: demo_done_def demo_busy_def is_rescanning_set one_wallet_lookup)
  moreover have "(walletKey ''acme'' ''hot'', (new_run (rescanOptions demo_rescan))\<lparr>ru_result := Some (Inr None)\<rparr>)
      \<in> set (sy_runs demo_done)"
    by (simp add: demo_done_def)
  ultimately show ?thesis
    using rescan_returns [OF demo_done_reachable demo_idle_guards] by simp
qed

section \<open>What the client is sent\<close>

text \<open>
  C17. The stream of a rescan: when the handler has left, the walk was cancelled and has ended, and the
  client was sent some of the walk's reports, in their order and none invented, followed by the
  statistics exactly when the call succeeded, and then those the walk returned; a walk that failed
  never looks like one that succeeded.
\<close>

theorem rescan_output:
  assumes "run_step\<^sup>*\<^sup>* (new_run options) u" and "ru_pc u = Left r"
  shows "ru_finished u \<and> ru_cancelled u \<and>
    (\<exists>ps. subseq ps (ru_reported u) \<and>
      (case r of
         Inl e \<Rightarrow> ru_sent u = map RescanEvent_Progress ps
       | Inr _ \<Rightarrow> \<exists>st. ru_result u = Some (Inr st) \<and>
           ru_sent u = map RescanEvent_Progress ps @ [RescanEvent_Stats (rescanStatsProto st)]))"
proof -
  have inv: "run_inv u" using assms(1) by (rule run_inv_steps)
  then obtain ps tail where sent: "ru_sent u = map RescanEvent_Progress ps @ tail"
    and sub: "subseq (ps @ buf (ru_progress u)) (ru_reported u)" and oc: "outcome_ok (Left r) (ru_result u) tail"
    unfolding run_inv_def assms(2) by blast
  have "subseq ps (ru_reported u)"
    by (rule subseq_order.trans [OF _ sub]) (simp add: list_emb_prefix)
  moreover have "ru_finished u" "ru_cancelled u"
    using inv assms(2) unfolding run_inv_def by blast+
  ultimately show ?thesis using sent oc by (cases r) auto
qed

definition demo_progress :: bsv_RescanProgress where
  "demo_progress = \<lparr>rp_Phase = ''blocks'', rp_Peer = ''peer'', rp_HeadersSeen = 1, rp_BatchHeaders = 1,
     rp_BlocksFetched = 1, rp_TxsReplayed = 0, rp_Errors = 0, rp_BlockHash = [], rp_Message = []\<rparr>"

definition demo_left :: run where
  "demo_left = \<lparr>ru_progress = make_chan 64, ru_closed = True, ru_finished = True, ru_result = Some (Inr None),
     ru_cancelled = True,
     ru_sent = [RescanEvent_Progress (rescanProgressProto demo_progress), RescanEvent_Stats (rescanStatsProto None)],
     ru_reported = [rescanProgressProto demo_progress], ru_checkpoints = False, ru_pc = Left (Inr ())\<rparr>"

lemma demo_left_run: "run_step\<^sup>*\<^sup>* (new_run (rescanOptions demo_rescan)) demo_left"
proof -
  let ?p = "rescanProgressProto demo_progress"
  let ?u0 = "new_run (rescanOptions demo_rescan)"
  let ?u1 = "walk_report demo_progress ?u0"
  let ?u2 = "?u0\<lparr>ru_reported := [?p], ru_sent := [RescanEvent_Progress ?p]\<rparr>"
  let ?u5 = "?u2\<lparr>ru_result := Some (Inr None), ru_closed := True, ru_finished := True\<rparr>"
  let ?u6 = "?u5\<lparr>ru_pc := Waiting\<rparr>"
  have "run_step ?u0 ?u1" by (rule run_step.report) (simp add: new_run_def)
  moreover have "run_step ?u1 ?u2"
    by (rule run_step.forwards [of _ None])
      (simp_all add: new_run_def walk_report_def forward_def make_chan_def try_send_def recv_def)
  moreover have "run_step ?u2 (?u2\<lparr>ru_result := Some (Inr None)\<rparr>)"
    by (rule run_step.walk_returns) (simp add: new_run_def)
  moreover have "run_step (?u2\<lparr>ru_result := Some (Inr None)\<rparr>) (?u2\<lparr>ru_result := Some (Inr None)\<rparr>\<lparr>ru_closed := True\<rparr>)"
    by (rule run_step.close_progress) (simp_all add: new_run_def)
  moreover have "run_step (?u2\<lparr>ru_result := Some (Inr None)\<rparr>\<lparr>ru_closed := True\<rparr>)
      (?u2\<lparr>ru_result := Some (Inr None)\<rparr>\<lparr>ru_closed := True\<rparr>\<lparr>ru_finished := True\<rparr>)"
    by (rule run_step.close_finished) (simp_all add: new_run_def)
  moreover have "run_step ?u5 ?u6"
    by (rule run_step.forwards [of _ None]) (simp_all add: new_run_def forward_def make_chan_def recv_def)
  moreover have "run_step ?u6 (conclude None ?u6)"
    by (rule run_step.concludes) (simp_all add: new_run_def)
  moreover have "run_step (conclude None ?u6) ((conclude None ?u6)\<lparr>ru_cancelled := True\<rparr>)"
    by (rule run_step.cancels [of _ "Inr ()"]) (simp_all add: new_run_def conclude_def)
  moreover have "run_step ((conclude None ?u6)\<lparr>ru_cancelled := True\<rparr>)
      ((conclude None ?u6)\<lparr>ru_cancelled := True\<rparr>\<lparr>ru_pc := Left (Inr ())\<rparr>)"
    by (rule run_step.leaves) (simp_all add: new_run_def conclude_def)
  ultimately have "run_step\<^sup>*\<^sup>* ?u0 ((conclude None ?u6)\<lparr>ru_cancelled := True\<rparr>\<lparr>ru_pc := Left (Inr ())\<rparr>)"
    by (meson converse_rtranclp_into_rtranclp rtranclp.rtrancl_refl)
  then show ?thesis
    by (simp add: demo_left_def conclude_def new_run_def rescanOptions_def demo_rescan_def)
qed

theorem rescan_output_witness:
  "ru_finished demo_left \<and> ru_sent demo_left =
     [RescanEvent_Progress (rescanProgressProto demo_progress), RescanEvent_Stats (rescanStatsProto None)]"
  using rescan_output [OF demo_left_run, of "Inr ()"] by (simp add: demo_left_def)

end
