(* ===== verification/Go_Time.thy ===== *)
theory Go_Time
  imports Prelude
begin

text \<open>
  Code that waits: calls that take time, \<^verbatim>\<open>time.Sleep\<close>, and the loops
  \<^verbatim>\<open>for time.Now().Before(deadline) { ...; time.Sleep(time.Second) }\<close> of the two programs. An action yields
  its value, the nanoseconds that passed, and the new world. Time inside an action is measured from its
  start (Go's clock readings are monotonic), so a deadline is a budget: what is left of it is positive
  exactly while the clock is before the deadline.
\<close>

type_synonym ('w, 'a) timed = "'w \<Rightarrow> 'a \<times> nat \<times> 'w"

definition returnT :: "'a \<Rightarrow> ('w, 'a) timed" where
  "returnT x = (\<lambda>w. (x, 0, w))"

definition bindT :: "('w, 'a) timed \<Rightarrow> ('a \<Rightarrow> ('w, 'b) timed) \<Rightarrow> ('w, 'b) timed" where
  "bindT m f = (\<lambda>w. case m w of (x, d, w') \<Rightarrow> (case f x w' of (y, d', w'') \<Rightarrow> (y, d + d', w'')))"

definition a_second :: nat where
  "a_second = 10 ^ 9"

definition time_Sleep :: "nat \<Rightarrow> ('w, unit) timed" where
  "time_Sleep d = (\<lambda>w. ((), d, w))"

lemma returnT_apply [act_simps]: "returnT x w = (x, 0, w)"
  by (simp add: returnT_def)

lemma bindT_apply [act_simps]:
  "bindT m f w = (case m w of (x, d, w') \<Rightarrow> (case f x w' of (y, d', w'') \<Rightarrow> (y, d + d', w'')))"
  by (simp add: bindT_def)

lemma bindT_returnT [simp]: "bindT (returnT x) f = f x"
  by (simp add: bindT_def returnT_def fun_eq_iff split: prod.split)

text \<open>
  The loop. \<open>body\<close> is one pass: \<open>Inl r\<close> leaves the function with \<open>r\<close>, \<open>Inr acc\<close> goes on to the sleep and
  the next test of the clock. When the budget is spent the loop ends with the last \<open>acc\<close>.
\<close>

function retry :: "nat \<Rightarrow> ('a \<Rightarrow> ('w, 'r + 'a) timed) \<Rightarrow> 'a \<Rightarrow> ('w, 'r + 'a) timed" where
  "retry budget body acc w =
     (if budget = 0 then (Inr acc, 0, w)
      else (case body acc w of
          (Inl r, d, w') \<Rightarrow> (Inl r, d, w')
        | (Inr acc', d, w') \<Rightarrow>
           (case retry (budget - (d + a_second)) body acc' w' of
              (res, d', w'') \<Rightarrow> (res, d + a_second + d', w''))))"
  by pat_completeness auto
termination
  by (relation "measure (\<lambda>(budget, _). budget)") (auto simp: a_second_def)

declare retry.simps [simp del]

text \<open>The passes of a run: the accumulator and the world each of them starts with.\<close>

function passes :: "nat \<Rightarrow> ('a \<Rightarrow> ('w, 'r + 'a) timed) \<Rightarrow> 'a \<Rightarrow> 'w \<Rightarrow> ('a \<times> 'w) list" where
  "passes budget body acc w =
     (if budget = 0 then []
      else (case body acc w of
          (Inl r, d, w') \<Rightarrow> [(acc, w)]
        | (Inr acc', d, w') \<Rightarrow> (acc, w) # passes (budget - (d + a_second)) body acc' w'))"
  by pat_completeness auto
termination
  by (relation "measure (\<lambda>(budget, _). budget)") (auto simp: a_second_def)

declare passes.simps [simp del]

abbreviation pass_result :: "('a \<Rightarrow> ('w, 'r + 'a) timed) \<Rightarrow> 'a \<times> 'w \<Rightarrow> 'r + 'a" where
  "pass_result body x \<equiv> fst (body (fst x) (snd x))"

lemma passes_Nil [simp]: "passes budget body acc w = [] \<longleftrightarrow> budget = 0"
  by (subst passes.simps) (auto split: prod.split sum.split)

text \<open>A pass takes at least the second it sleeps, so there are few of them.\<close>

lemma passes_bounded: "passes budget body acc w \<noteq> [] \<Longrightarrow> (length (passes budget body acc w) - 1) * a_second < budget"
proof (induction budget body acc w rule: passes.induct)
  case (1 budget body acc w)
  show ?case
  proof (cases "body acc w")
    case (fields r d w')
    show ?thesis
    proof (cases r)
      case (Inl x)
      with fields "1.prems" show ?thesis
        by (subst passes.simps, subst (asm) passes.simps) (auto split: if_splits)
    next
      case (Inr acc')
      let ?rest = "passes (budget - (d + a_second)) body acc' w'"
      have b: "budget \<noteq> 0" using "1.prems" by simp
      then have p: "passes budget body acc w = (acc, w) # ?rest"
        using fields Inr by (subst passes.simps) simp
      show ?thesis
      proof (cases "?rest = []")
        case True
        with b p show ?thesis by simp
      next
        case False
        have "(length ?rest - 1) * a_second < budget - (d + a_second)"
          using "1.IH" [OF b fields [symmetric] Inr] False fields by simp
        moreover obtain k where "length ?rest = Suc k" using False by (cases ?rest) auto
        ultimately show ?thesis by (simp add: p)
      qed
    qed
  qed
qed

text \<open>The result of the loop is that of its last pass; every earlier pass asked for another one.\<close>

lemma retry_last:
  assumes "budget \<noteq> 0"
  shows "fst (retry budget body acc w) = pass_result body (last (passes budget body acc w))"
  using assms
proof (induction budget body acc w rule: passes.induct)
  case (1 budget body acc w)
  show ?case
  proof (cases "body acc w")
    case (fields r d w')
    show ?thesis
    proof (cases r)
      case (Inl x)
      with fields "1.prems" show ?thesis
        by (simp add: retry.simps [of budget] passes.simps [of budget])
    next
      case (Inr acc')
      show ?thesis
      proof (cases "budget - (d + a_second) = 0")
        case True
        with fields Inr "1.prems" show ?thesis
          by (simp add: retry.simps [of budget] passes.simps [of budget] retry.simps [of 0] passes.simps [of 0])
      next
        case False
        have "fst (retry (budget - (d + a_second)) body acc' w') =
            pass_result body (last (passes (budget - (d + a_second)) body acc' w'))"
          using "1.IH" [OF "1.prems" fields [symmetric] Inr] False fields by simp
        with fields Inr False "1.prems" show ?thesis
          by (simp add: retry.simps [of budget] passes.simps [of budget] split_beta)
      qed
    qed
  qed
qed

lemma passes_butlast:
  "x \<in> set (butlast (passes budget body acc w)) \<Longrightarrow> \<exists>acc'. pass_result body x = Inr acc'"
proof (induction budget body acc w rule: passes.induct)
  case (1 budget body acc w)
  show ?case
  proof (cases "body acc w")
    case (fields r d w')
    with 1 show ?thesis
      by (cases r) (auto simp: passes.simps [of budget] split: if_splits)
  qed
qed

lemma passes_first: "budget \<noteq> 0 \<Longrightarrow> hd (passes budget body acc w) = (acc, w)"
  by (subst passes.simps) (auto split: prod.split sum.split)

text \<open>A loop whose passes all fail alike runs until its deadline, and no longer than a pass beyond it, with their error.\<close>

lemma retry_steady:
  assumes "\<And>acc. body acc w = (Inr a, d, w)" and "0 < budget"
  shows "\<exists>t. retry budget body acc w = (Inr a, t, w) \<and> budget \<le> t \<and> t < budget + d + a_second"
  using assms
proof (induction budget body acc w rule: retry.induct)
  case (1 budget body acc w)
  show ?case
  proof (cases "budget - (d + a_second) = 0")
    case True
    with "1.prems" show ?thesis by (simp add: retry.simps [of budget] retry.simps [of 0])
  next
    case False
    then obtain t where "retry (budget - (d + a_second)) body a w = (Inr a, t, w)" "budget - (d + a_second) \<le> t"
        "t < budget - (d + a_second) + d + a_second"
      using "1.IH" [of "Inr a" "(d, w)" a d w] "1.prems" by auto
    with "1.prems" False show ?thesis by (simp add: retry.simps [of budget])
  qed
qed

text \<open>
  A loop that is patient enough: when every pass takes at most \<open>D\<close> and leaves the world as \<open>step\<close> says, and the
  pass after \<open>k\<close> of them would leave the loop, then the loop is left by that pass or an earlier one.
\<close>

lemma retry_reaches:
  assumes "\<And>acc w. fst (snd (body acc w)) \<le> D" and "\<And>acc w. snd (snd (body acc w)) = step w"
    and "\<And>acc. \<exists>r. fst (body acc ((step ^^ k) w)) = Inl r" and "k * (D + a_second) < budget"
  shows "\<exists>r t w'. retry budget body acc w = (Inl r, t, w') \<and> t \<le> k * (D + a_second) + D"
  using assms(3,4)
proof (induction k arbitrary: budget acc w)
  case 0
  then obtain r where "fst (body acc w) = Inl r" by auto
  then obtain d w' where b: "body acc w = (Inl r, d, w')" by (metis prod.collapse)
  then have "d \<le> D" using assms(1) [of acc w] by simp
  with 0 b show ?case by (simp add: retry.simps)
next
  case (Suc k)
  obtain r d w' where b: "body acc w = (r, d, w')" by (cases "body acc w")
  have d: "d \<le> D" and w': "w' = step w" using assms(1) [of acc w] assms(2) [of acc w] b by simp_all
  show ?case
  proof (cases r)
    case (Inl x)
    with b d Suc.prems(2) show ?thesis by (simp add: retry.simps)
  next
    case (Inr acc')
    have "k * (D + a_second) < budget - (d + a_second)" using Suc.prems(2) d by simp
    moreover have "\<exists>r. fst (body a ((step ^^ k) w')) = Inl r" for a
      using Suc.prems(1) [of a] by (simp add: w' funpow_swap1)
    ultimately obtain x t v where "retry (budget - (d + a_second)) body acc' w' = (Inl x, t, v)" "t \<le> k * (D + a_second) + D"
      using Suc.IH by blast
    with b d Inr Suc.prems(2) show ?thesis by (simp add: retry.simps [of budget])
  qed
qed

text \<open>A loop whose passes never succeed runs out of time.\<close>

lemma retry_stuck:
  assumes "\<And>acc w. P w \<Longrightarrow> \<exists>a d w'. body acc w = (Inr a, d, w') \<and> P w'" and "P w"
  shows "\<exists>a d w'. retry budget body acc w = (Inr a, d, w') \<and> P w'"
  using assms
proof (induction budget body acc w rule: retry.induct)
  case (1 budget body acc w)
  obtain a d w' where b: "body acc w = (Inr a, d, w')" "P w'" using "1.prems" by blast
  show ?case
  proof (cases "budget = 0")
    case False
    with "1.IH" [of "Inr a" "(d, w')" a d w'] "1.prems"(1) b show ?thesis
      by (auto simp: retry.simps [of budget])
  qed (use "1.prems"(2) in \<open>simp add: retry.simps\<close>)
qed

section \<open>Frames\<close>

text \<open>What an action leaves of the world, in every case: the frame rule for actions that take time.\<close>

definition keepsT :: "('w \<Rightarrow> 'w \<Rightarrow> bool) \<Rightarrow> ('w, 'a) timed \<Rightarrow> bool" where
  "keepsT R m \<longleftrightarrow> (\<forall>w. R w (snd (snd (m w))))"

lemma keepsT_run: "keepsT R m \<Longrightarrow> m w = (r, d, w') \<Longrightarrow> R w w'"
  unfolding keepsT_def by (metis snd_conv)

context frame_relation
begin

lemma keepsT_return: "keepsT R (returnT x)"
  by (simp add: keepsT_def returnT_apply frame_refl)

lemma keepsT_bindT: "keepsT R m \<Longrightarrow> (\<And>x. keepsT R (f x)) \<Longrightarrow> keepsT R (bindT m f)"
  unfolding keepsT_def bindT_apply by (simp add: split_beta) (metis frame_trans)

lemma keepsT_retry:
  assumes "\<And>a. keepsT R (body a)"
  shows "keepsT R (retry budget body acc)"
proof -
  have "R w (snd (snd (retry budget body acc w)))" for w
    using assms
  proof (induction budget body acc w rule: retry.induct)
    case (1 budget body acc w)
    obtain r d w' where f: "body acc w = (r, d, w')" by (cases "body acc w")
    have b: "R w w'" using keepsT_run [OF "1.prems" f] .
    show ?case
    proof (cases "\<exists>a. budget \<noteq> 0 \<and> r = Inr a")
      case True
      then obtain a where a: "budget \<noteq> 0" "r = Inr a" by blast
      have "R w' (snd (snd (retry (budget - (d + a_second)) body a w')))"
        using "1.IH" [OF a(1) f [symmetric] a(2)] "1.prems" f by auto
      with a f b show ?thesis
        by (simp add: retry.simps [of budget] split_beta) (metis frame_trans)
    next
      case False
      with f b show ?thesis by (subst retry.simps) (cases r; auto simp: frame_refl)
    qed
  qed
  then show ?thesis by (simp add: keepsT_def)
qed

end

end
