(* ===== verification/Server.thy ===== *)
theory Server
  imports Go_Time Dispatch_Props
begin

text \<open>
  The server process, \<^verbatim>\<open>cmd/bsvms/main.go\<close>: its settings from flags and environment, the connection to
  the network, and the wiring of the service into a gRPC server with or without the interceptors. The
  environment is a function \<^verbatim>\<open>getenv\<close>; \<open>flags\<close> holds what \<^verbatim>\<open>flag.Parse\<close> found on the command line. What the
  SDK and the system do at start-up is the parameter \<open>boot\<close>.
\<close>

section \<open>Settings\<close>

definition env :: "(string \<Rightarrow> string) \<Rightarrow> string \<Rightarrow> string \<Rightarrow> string" where
  "env getenv key fallback = (let v = getenv key in if v \<noteq> [] then v else fallback)"

definition envBool :: "(string \<Rightarrow> string) \<Rightarrow> string \<Rightarrow> bool \<Rightarrow> bool" where
  "envBool getenv key fallback =
     (let v = ToLower (getenv key) in
      if v \<in> set [''1'', ''true'', ''yes'', ''on''] then True
      else if v \<in> set [''0'', ''false'', ''no'', ''off''] then False
      else fallback)"

definition envInt :: "(string \<Rightarrow> string) \<Rightarrow> string \<Rightarrow> int \<Rightarrow> int" where
  "envInt getenv key fallback =
     (let v = getenv key in
      if v \<noteq> [] then (case ParseInt v of Some n \<Rightarrow> n | None \<Rightarrow> fallback) else fallback)"

definition secretBytes :: "string \<Rightarrow> bytes" where
  "secretBytes v =
     (if v = [] then []
      else (case Std_DecodeString v of
          Inr decoded \<Rightarrow> decoded
        | Inl _ \<Rightarrow> (case RawURL_DecodeString v of
             Inr decoded \<Rightarrow> decoded
           | Inl _ \<Rightarrow> bytes_of_string v)))"

definition splitList :: "string \<Rightarrow> string list" where
  "splitList v = filter (\<lambda>item. item \<noteq> []) (map TrimSpace (Split v CHR '',''))"

datatype network_type = Mainnet | Testnet | STN | Regtest

definition network :: "string \<Rightarrow> network_type" where
  "network name =
     (let n = ToLower name in
      if n = ''testnet'' then Testnet
      else if n = ''stn'' then STN
      else if n = ''regtest'' then Regtest
      else Mainnet)"

text \<open>The values \<^verbatim>\<open>flag.Parse\<close> took from the command line; \<open>None\<close> where the flag was not given.\<close>

record flags =
  fl_version :: "bool option"
  fl_addr :: "string option"
  fl_data_dir :: "string option"
  fl_network :: "string option"
  fl_connect :: "bool option"
  fl_peers :: "string option"
  fl_auth :: "bool option"
  fl_enable_custom_spend :: "bool option"
  fl_jwt_secret :: "string option"
  fl_data_key :: "string option"
  fl_broadcast_fanout :: "int option"
  fl_no_pending_tx_tracking :: "bool option"

record settings =
  cf_showVersion :: bool
  cf_addr :: string
  cf_dataDir :: string
  cf_networkName :: string
  cf_connect :: bool
  cf_peers :: string
  cf_authEnabled :: bool
  cf_enableCustomSpend :: bool
  cf_jwtSecret :: string
  cf_dataKey :: string
  cf_broadcastFanout :: int
  cf_noPendingTracking :: bool

definition given :: "'a option \<Rightarrow> 'a \<Rightarrow> 'a" where
  "given flag fallback = (case flag of Some v \<Rightarrow> v | None \<Rightarrow> fallback)"

definition config :: "(string \<Rightarrow> string) \<Rightarrow> flags \<Rightarrow> settings" where
  "config getenv fl =
     \<lparr>cf_showVersion = given (fl_version fl) False,
      cf_addr = given (fl_addr fl) (env getenv ''BSVMS_ADDR'' '':50051''),
      cf_dataDir = given (fl_data_dir fl) (env getenv ''BSVMS_DATA_DIR'' ''data''),
      cf_networkName = given (fl_network fl) (env getenv ''BSVMS_NETWORK'' ''mainnet''),
      cf_connect = given (fl_connect fl) (envBool getenv ''BSVMS_CONNECT'' True),
      cf_peers = given (fl_peers fl) (env getenv ''BSVMS_PEERS'' []),
      cf_authEnabled = given (fl_auth fl) (envBool getenv ''BSVMS_AUTH'' False),
      cf_enableCustomSpend = given (fl_enable_custom_spend fl) (envBool getenv ''BSVMS_ENABLE_CUSTOM_SPEND'' False),
      cf_jwtSecret = given (fl_jwt_secret fl) (env getenv ''BSVMS_JWT_SECRET'' []),
      cf_dataKey = given (fl_data_key fl) (env getenv ''BSVMS_DATA_KEY'' []),
      cf_broadcastFanout = given (fl_broadcast_fanout fl) (envInt getenv ''BSVMS_BROADCAST_FANOUT'' 0),
      cf_noPendingTracking = given (fl_no_pending_tx_tracking fl) (envBool getenv ''BSVMS_NO_PENDING_TX_TRACKING'' False)\<rparr>"

definition service_options :: "settings \<Rightarrow> Options" where
  "service_options cf =
     \<lparr>AuthEnabled = cf_authEnabled cf, EnableCustomSpend = cf_enableCustomSpend cf,
      JWTSecret = secretBytes (cf_jwtSecret cf), DataKey = secretBytes (cf_dataKey cf),
      AccessTTL = 0, RefreshTTL = 0,
      BroadcastFanout = cf_broadcastFanout cf, DisablePendingTxTracking = cf_noPendingTracking cf\<rparr>"

section \<open>Start-up\<close>

text \<open>\<^verbatim>\<open>filepath.Clean\<close> by components, on a stack, and \<^verbatim>\<open>filepath.Abs\<close>.\<close>

fun clean_parts :: "bool \<Rightarrow> string list \<Rightarrow> string list \<Rightarrow> string list" where
  "clean_parts rooted stack [] = rev stack"
| "clean_parts rooted stack (p # ps) =
     (if p = [] \<or> p = ''.'' then clean_parts rooted stack ps
      else if p = ''..'' then
        (case stack of
           [] \<Rightarrow> clean_parts rooted (if rooted then [] else [''..'']) ps
         | q # qs \<Rightarrow> if q = ''..'' then clean_parts rooted (''..'' # stack) ps else clean_parts rooted qs ps)
      else clean_parts rooted (p # stack) ps)"

definition filepath_Clean :: "string \<Rightarrow> string" where
  "filepath_Clean p =
     (let rooted = (p \<noteq> [] \<and> hd p = CHR ''/''); body = Join (clean_parts rooted [] (Split p CHR ''/'')) ''/''
      in if rooted then CHR ''/'' # body else if body = [] then ''.'' else body)"

definition filepath_Abs :: "string result \<Rightarrow> string \<Rightarrow> string result" where
  "filepath_Abs cwd p =
     (if p \<noteq> [] \<and> hd p = CHR ''/'' then Inr (filepath_Clean p)
      else (case cwd of Inl e \<Rightarrow> Inl e | Inr d \<Rightarrow> Inr (filepath_Clean (d @ CHR ''/'' # p))))"

record 'n boot =
  bsv_New :: "network_type \<Rightarrow> 'n"
  node_Connect :: "'n \<Rightarrow> unit result \<times> 'n"
  node_Disconnect :: "'n \<Rightarrow> 'n"
  connect_time :: "string \<Rightarrow> 'n \<Rightarrow> nat"
  net_Listen :: "string \<Rightarrow> unit result"
  os_Getwd :: "string result"

text \<open>One pass of the retry loop: leave on success, else remember the error.\<close>

definition connect_pass :: "'n sdk \<Rightarrow> 'n boot \<Rightarrow> string \<Rightarrow> goerr option \<Rightarrow> ('n, unit + goerr option) timed" where
  "connect_pass A B peer lastErr = (\<lambda>n. case node_ConnectPeer (the_node A) peer n of
       (Inl e, n') \<Rightarrow> (Inr (Some e), connect_time B peer n, n')
     | (Inr _, n') \<Rightarrow> (Inl (), connect_time B peer n, n'))"

definition connectPeerWithRetry :: "'n sdk \<Rightarrow> 'n boot \<Rightarrow> string \<Rightarrow> nat \<Rightarrow> ('n, unit result) timed" where
  "connectPeerWithRetry A B peer timeout =
     bindT (retry timeout (connect_pass A B peer) None) (\<lambda>r.
     returnT (case r of Inl _ \<Rightarrow> Inr () | Inr (Some e) \<Rightarrow> Inl e | Inr None \<Rightarrow> Inr ()))"

fun connect_peers :: "'n sdk \<Rightarrow> 'n boot \<Rightarrow> string list \<Rightarrow> ('n, string + unit) timed" where
  "connect_peers A B [] = returnT (Inr ())"
| "connect_peers A B (peer # peers) =
     bindT (connectPeerWithRetry A B peer (30 * a_second)) (\<lambda>r.
     case r of
       Inl e \<Rightarrow> returnT (Inl (''connect peer '' @ peer @ '': '' @ error_text e))
     | Inr _ \<Rightarrow> connect_peers A B peers)"

definition connect_network :: "'n sdk \<Rightarrow> 'n boot \<Rightarrow> settings \<Rightarrow> ('n, string + unit) timed" where
  "connect_network A B cf =
     (if cf_connect cf then
        (\<lambda>n. case node_Connect B n of
            (Inl e, n') \<Rightarrow> (Inl (''connect BSV node: '' @ error_text e), 0, n')
          | (Inr _, n') \<Rightarrow> connect_peers A B (splitList (cf_peers cf)) n')
      else returnT (Inr ()))"

text \<open>
  How \<^verbatim>\<open>main\<close> ends: the version is printed, \<^verbatim>\<open>log.Fatalf\<close> stops the process with a message, or the server
  serves on an address; the flag says whether the interceptors are installed.
\<close>

datatype 'n launch = VersionShown | Stopped string | Serving "'n service" bool string

definition bsvms_main :: "'n sdk \<Rightarrow> 'n boot \<Rightarrow> (string \<Rightarrow> string) \<Rightarrow> flags \<Rightarrow> host \<Rightarrow> 'n launch" where
  "bsvms_main A B getenv fl h =
     (let cf = config getenv fl in
      if cf_showVersion cf then VersionShown
      else (case filepath_Abs (os_Getwd B) (cf_dataDir cf) of
          Inl e \<Rightarrow> Stopped (''resolve data dir: '' @ error_text e)
        | Inr absDataDir \<Rightarrow>
           (case os_MkdirAll absDataDir h of
              (Inl e, h1) \<Rightarrow> Stopped (''create data dir: '' @ error_text e)
            | (Inr _, h1) \<Rightarrow>
               (case connect_network A B cf (bsv_New B (network (cf_networkName cf))) of
                  (Inl msg, d, n) \<Rightarrow> Stopped msg
                | (Inr _, d, n) \<Rightarrow>
                   (case NewWithOptions A n absDataDir (service_options cf) (h1\<lparr>clock := clock h1 + int d\<rparr>) of
                      (Inl e, s) \<Rightarrow> Stopped (''init service: '' @ error_text e)
                    | (Inr _, s) \<Rightarrow>
                       (case net_Listen B (cf_addr cf) of
                          Inl e \<Rightarrow> Stopped (''listen '' @ cf_addr cf @ '': '' @ error_text e)
                        | Inr _ \<Rightarrow> Serving s (service_AuthEnabled s) (cf_addr cf)))))))"

section \<open>The end\<close>

text \<open>
  What is left of \<^verbatim>\<open>main\<close> once \<^verbatim>\<open>server.Serve\<close> returns: an error stops the process at once, and deferred calls
  do not run; after a graceful stop (a signal) \<^verbatim>\<open>main\<close> returns and they do, the last one first. The left value
  is the message of \<^verbatim>\<open>log.Fatalf\<close>.
\<close>

definition serve_end :: "'n sdk \<Rightarrow> 'n boot \<Rightarrow> settings \<Rightarrow> unit result \<Rightarrow> 'n service \<Rightarrow> (string + unit) \<times> 'n service" where
  "serve_end A B cf served s =
     (case served of
        Inl e \<Rightarrow> (Inl (''serve grpc: '' @ error_text e), s)
      | Inr _ \<Rightarrow>
         (case Close A s of (_, s') \<Rightarrow>
            (Inr (), if cf_connect cf then s'\<lparr>s_node := node_Disconnect B (s_node s')\<rparr> else s')))"

end
