(* ===== verification/Server_Props.thy ===== *)
theory Server_Props
  imports Server
begin

text \<open>What an operator can rely on when \<^verbatim>\<open>bsvms\<close> is started.\<close>

section \<open>Calls on a running server\<close>

text \<open>
  The host changes between calls, all but its files: it is later, other file operations fail, there is
  other randomness. Each call is served in the conditions it meets.
\<close>

definition under :: "host \<Rightarrow> 'n service \<Rightarrow> 'n service" where
  "under h s = s\<lparr>read_fault := read_fault h, write_fault := write_fault h, rename_fault := rename_fault h,
     mkdir_fault := mkdir_fault h, entropy := entropy h, clock := clock h\<rparr>"

fun serve_calls :: "'n sdk \<Rightarrow> bool \<Rightarrow> (host \<times> call_context \<times> rpc_request) list \<Rightarrow> 'n service \<Rightarrow> 'n service" where
  "serve_calls A intercept [] s = s"
| "serve_calls A intercept ((h, ctx, r) # calls) s =
     serve_calls A intercept calls (snd (serve_unary A intercept ctx r (under h s)))"

lemma registry_step_same:
  assumes "s_wallets s' = s_wallets s" and "s_state s' = s_state s" and "wallet_events s' = wallet_events s"
    and "s_opts s' = s_opts s" and "s_dataDir s' = s_dataDir s" and "files s' = files s"
  shows "registry_step s s'"
proof -
  have "lookup_wallet s' = lookup_wallet s" using assms(1) by (simp add: lookup_wallet_def fun_eq_iff)
  then show ?thesis
    using assms(2-) assms(1)
    by (simp add: registry_step_def registry_inv_def live_inv_def unique_state_def kept_def lookup_file_def statePath_def)
qed

lemma registry_step_clock: "registry_step s (s\<lparr>clock := t\<rparr>)"
  by (rule registry_step_same) simp_all

lemma registry_step_under: "registry_step s (under h s)"
  by (rule registry_step_same) (simp_all add: under_def)

lemma registry_step_trans: "registry_step s s1 \<Longrightarrow> registry_step s1 s2 \<Longrightarrow> registry_step s s2"
  by (simp add: registry_step_def)

lemma registry_step_refl: "registry_step s s"
  by (simp add: registry_step_def)

lemma serve_unary_step: "registry_step s (snd (serve_unary A intercept ctx r s))"
proof (cases "unary_call A r")
  case None
  then show ?thesis by (simp add: serve_unary_def throwE_apply registry_step_refl)
next
  case (Some m)
  have m: "registry_step s (snd (m s))"
    using unary_registry_step [OF Some] by (metis prod.collapse)
  show ?thesis
    using m Some
    by (auto simp: serve_unary_def UnaryAuthInterceptor_def bindE_apply authorizeE_def registry_step_refl
        split: sum.split)
qed

lemma serve_calls_step: "registry_step s (serve_calls A intercept calls s)"
proof (induction A intercept calls s rule: serve_calls.induct)
  case (2 A intercept h ctx r calls s)
  let ?s1 = "snd (serve_unary A intercept ctx r (under h s))"
  have "registry_step s ?s1"
    using registry_step_under serve_unary_step by (rule registry_step_trans)
  with 2 show ?case by (auto intro: registry_step_trans)
qed (simp add: registry_step_refl)

lemma serve_unary_refused:
  assumes "authorize ctx (full_method r) (ApiMessage r) s = Inl e" and "unary_call A r \<noteq> None"
  shows "serve_unary A True ctx r s = (Inl e, s)"
  using assms by (auto simp: serve_unary_def UnaryAuthInterceptor_def bindE_apply authorizeE_def)

lemma launch_serving:
  assumes "bsvms_main A B getenv fl h = Serving s intercept addr"
  shows "\<exists>n d h1. NewWithOptions A n d (service_options (config getenv fl)) h1 = (Inr (), s)
    \<and> read_fault h1 = read_fault h \<and> intercept = AuthEnabled (s_opts s)"
proof -
  obtain d h1 t n where "os_MkdirAll d h = (Inr (), h1)"
    and "NewWithOptions A n d (service_options (config getenv fl)) (h1\<lparr>clock := clock h1 + int t\<rparr>) = (Inr (), s)"
    and "intercept = AuthEnabled (s_opts s)"
    using assms by (auto simp: bsvms_main_def Let_def service_AuthEnabled_def split: if_splits sum.splits prod.splits)
  moreover have "h1 = h" using calculation(1) os_MkdirAll_state [of d h] by simp
  ultimately show ?thesis by fastforce
qed

text \<open>
  C4. A server that serves is guarded: its registry is sound, its interceptors are installed exactly
  when authentication was asked for, and then its signing secret has at least 32 bytes. After any
  sequence of calls, at any times and whichever file operations fail, this still holds, every wallet it started with is still there, and a
  call its authorization check refuses is answered with the refusal and changes nothing.
\<close>

theorem server_guards_calls:
  assumes "bsvms_main A B getenv fl h = Serving s intercept addr" and "honest_reads h"
    and "s1 = serve_calls A intercept calls s"
  shows "registry_inv s1 \<and> intercept = cf_authEnabled (config getenv fl)
    \<and> (\<forall>k tw. lookup_wallet s k = Some tw \<longrightarrow> lookup_wallet s1 k = Some tw)
    \<and> (intercept \<longrightarrow> 32 \<le> length (JWTSecret (s_opts s1))
         \<and> (\<forall>ctx r e. unary_call A r \<noteq> None \<longrightarrow> authorize ctx (full_method r) (ApiMessage r) s1 = Inl e \<longrightarrow>
              serve_unary A intercept ctx r s1 = (Inl e, s1)))"
proof -
  obtain n d h1 h2 where new: "NewWithOptions A n d (service_options (config getenv fl)) h1 = (Inr (), s)"
    and i: "intercept = AuthEnabled (s_opts s)" and hr: "honest_reads h1"
    and opts: "withDefaults (service_options (config getenv fl)) d h1 = (Inr (s_opts s), h2)"
    using launch_serving [OF assms(1)] assms(2) new_success(3) unfolding honest_reads_def by metis
  have step: "registry_step s s1" unfolding assms(3) by (rule serve_calls_step)
  have "AuthEnabled (s_opts s) = cf_authEnabled (config getenv fl)"
    and "AuthEnabled (s_opts s) \<longrightarrow> 32 \<le> length (JWTSecret (s_opts s))"
    using withDefaults_success [OF opts] by (auto simp: ttl_defaults_def service_options_def split: if_splits)
  with step i new_success(1) [OF new hr] show ?thesis
    by (auto simp: registry_step_def serve_unary_refused)
qed

section \<open>A concrete start\<close>

definition demo_flags :: flags where
  "demo_flags = \<lparr>fl_version = None, fl_addr = None, fl_data_dir = Some ''/data'', fl_network = Some ''regtest'',
     fl_connect = Some False, fl_peers = None, fl_auth = Some True, fl_enable_custom_spend = None,
     fl_jwt_secret = Some (Std_EncodeToString (replicate 32 2)), fl_data_key = Some (Std_EncodeToString (replicate 32 1)),
     fl_broadcast_fanout = None, fl_no_pending_tx_tracking = None\<rparr>"

definition demo_boot :: "nat boot" where
  "demo_boot = \<lparr>bsv_New = \<lambda>_. 0, node_Connect = \<lambda>n. (Inr (), n), node_Disconnect = \<lambda>n. n, connect_time = \<lambda>_ _. 0,
     net_Listen = \<lambda>_. Inr (), os_Getwd = Inr ''/''\<rparr>"

lemma secretBytes_std: "secretBytes (Std_EncodeToString bs) = bs"
proof (cases "Std_EncodeToString bs = []")
  case True
  have "bs = []" using std64.dec_enc [of bs] unfolding True by (simp add: Std_DecodeString_def strip_newlines_def or_corrupt_def)
  with True show ?thesis by (simp add: secretBytes_def)
qed (simp add: secretBytes_def std64.dec_enc)

lemma fresh_start:
  assumes "length (DataKey o') = 32" and "32 \<le> length (JWTSecret o')" and "BroadcastFanout o' = 0"
    and "\<not> DisablePendingTxTracking o'"
  shows "\<exists>s. NewWithOptions demo_sdk n d o' (quiet_host e) = (Inr (), s)"
proof -
  have "DataKey o' \<noteq> []" "JWTSecret o' \<noteq> []" using assms(1,2) by auto
  then have wd: "withDefaults o' d (quiet_host e) = (Inr ((ttl_defaults o')\<lparr>DataKey := DataKey o', JWTSecret := JWTSecret o'\<rparr>), quiet_host e)"
    using assms(1,2) by (intro withDefaults_run) auto
  let ?s = "fresh_service n d ((ttl_defaults o')\<lparr>DataKey := DataKey o', JWTSecret := JWTSecret o'\<rparr>) (quiet_host e)"
  have h: "mkdir_fault ?s = (\<lambda>_. None)" "read_fault ?s = (\<lambda>_. None)" "files ?s = []"
    by (simp_all add: fresh_service_def host.defs quiet_host_def)
  have "loadState ?s = (Inr (), ?s\<lparr>s_state := []\<rparr>)"
    using h by (simp add: loadState_def act_simps os_ReadFile_def lookup_file_def)
  moreover have "os_MkdirAll p ?s = (Inr (), ?s)" for p
    using h by (simp add: os_MkdirAll_def)
  ultimately have "\<exists>s. start_service demo_sdk ?s = (Inr (), s)"
    using assms(3,4) by (simp add: start_service_def act_simps registerNodeEvents_def ttl_defaults_def)
  with wd show ?thesis by (simp add: NewWithOptions_def)
qed

lemma demo_serving: "\<exists>s. bsvms_main demo_sdk demo_boot (\<lambda>_. []) demo_flags (quiet_host []) = Serving s True '':50051''"
proof -
  let ?cf = "config (\<lambda>_. []) demo_flags"
  have o: "DataKey (service_options ?cf) = replicate 32 1" "JWTSecret (service_options ?cf) = replicate 32 2"
    "BroadcastFanout (service_options ?cf) = 0" "\<not> DisablePendingTxTracking (service_options ?cf)"
    "AuthEnabled (service_options ?cf)"
    by (simp_all add: service_options_def config_def demo_flags_def given_def secretBytes_std envInt_def envBool_def ToLower_def)
  obtain s where s: "NewWithOptions demo_sdk 0 ''/data'' (service_options ?cf) (quiet_host []) = (Inr (), s)"
    using fresh_start [of "service_options ?cf" 0 "''/data''" "[]"] o by auto
  have "honest_reads (quiet_host [])" by (simp add: honest_reads_def quiet_host_def)
  then obtain h' where "withDefaults (service_options ?cf) ''/data'' (quiet_host []) = (Inr (s_opts s), h')"
    using new_success(3) [OF s] by blast
  then have "AuthEnabled (s_opts s)"
    using o(5) withDefaults_success by (force simp: ttl_defaults_def)
  moreover have "filepath_Abs x ''/data'' = Inr ''/data''" for x
    by (simp add: filepath_Abs_def filepath_Clean_def Let_def)
  moreover have "os_MkdirAll p (quiet_host []) = (Inr (), quiet_host [])" for p
    by (simp add: os_MkdirAll_def quiet_host_def)
  moreover have "(quiet_host [])\<lparr>clock := clock (quiet_host [])\<rparr> = quiet_host []" by simp
  moreover have "\<not> cf_showVersion ?cf" "cf_dataDir ?cf = ''/data''" "\<not> cf_connect ?cf" "cf_addr ?cf = '':50051''"
    by (simp_all add: config_def demo_flags_def given_def env_def)
  ultimately show ?thesis
    using s by (simp add: bsvms_main_def Let_def connect_network_def returnT_apply demo_boot_def service_AuthEnabled_def)
qed

theorem server_guards_calls_witness:
  "\<exists>s. bsvms_main demo_sdk demo_boot (\<lambda>_. []) demo_flags (quiet_host []) = Serving s True '':50051''
     \<and> serve_unary demo_sdk True None (Req_Balance demo_req) s =
        (Inl (Status Unauthenticated ''missing metadata''), s)"
proof -
  obtain s where s: "bsvms_main demo_sdk demo_boot (\<lambda>_. []) demo_flags (quiet_host []) = Serving s True '':50051''"
    using demo_serving by blast
  have hr: "honest_reads (quiet_host [])" by (simp add: honest_reads_def quiet_host_def)
  have "AuthEnabled (s_opts s)" using launch_serving [OF s] by auto
  then have "authorize None (full_method (Req_Balance demo_req)) (ApiMessage (Req_Balance demo_req)) s =
      Inl (Status Unauthenticated ''missing metadata'')"
    using HasSuffix_full [of "''RefreshToken''" "Req_Balance demo_req"] HasSuffix_full [of "''CreateWallet''" "Req_Balance demo_req"]
      HasSuffix_full [of "''RestoreWallet''" "Req_Balance demo_req"]
    by (simp add: authorize_def isBootstrapMethod_def authSubjectFromContext_def)
  with server_guards_calls [OF s hr, of s "[]"] s show ?thesis by simp
qed

section \<open>Secrets\<close>

text \<open>The two alphabets agree where they overlap, so what either decodes is the same.\<close>

lemma alphabets_agree:
  assumes "sym_val std_alphabet c = Some x" and "sym_val url_alphabet c = Some y"
  shows "x = y"
proof -
  have "list_all (\<lambda>c. sym_val url_alphabet c = None \<or> sym_val url_alphabet c = sym_val std_alphabet c) std_alphabet"
    by code_simp
  moreover have "c \<in> set std_alphabet"
    using assms(1) by (auto simp: sym_val_def dest!: map_of_SomeD in_set_zipE)
  ultimately show ?thesis using assms by (auto simp: list_all_iff)
qed

lemma quantum4_agree:
  "quantum4 std_alphabet a b c d = Some q \<Longrightarrow> quantum4 url_alphabet a b c d = Some q' \<Longrightarrow> q = q'"
proof -
  assume "quantum4 std_alphabet a b c d = Some q" and "quantum4 url_alphabet a b c d = Some q'"
  then obtain x y z w x' y' z' w' where
    "sym_val std_alphabet a = Some x" "sym_val std_alphabet b = Some y" "sym_val std_alphabet c = Some z"
    "sym_val std_alphabet d = Some w" "sym_val url_alphabet a = Some x'" "sym_val url_alphabet b = Some y'"
    "sym_val url_alphabet c = Some z'" "sym_val url_alphabet d = Some w'"
    "q = [byte_xy x y, byte_yz y z, byte_zw z w]" "q' = [byte_xy x' y', byte_yz y' z', byte_zw z' w']"
    unfolding quantum4_def by (auto split: option.splits)
  then show "q = q'" using alphabets_agree by metis
qed

lemma pad_raw_agree:
  assumes "pad_decode std_alphabet s = Some x" and "raw_decode url_alphabet s = Some y" and "CHR ''='' \<notin> set s"
  shows "x = y"
  using assms
proof (induction url_alphabet s arbitrary: x y rule: raw_decode.induct)
  case (5 a b c d s)
  from 5(2-4) obtain q q' bs bs' where q: "quantum4 std_alphabet a b c d = Some q" "quantum4 url_alphabet a b c d = Some q'"
    and bs: "pad_decode std_alphabet s = Some bs" "raw_decode url_alphabet s = Some bs'" and xy: "x = q @ bs" "y = q' @ bs'"
    by (auto split: if_splits option.splits)
  have "CHR ''='' \<notin> set s" using 5(4) by simp
  then have "bs = bs'" by (rule 5(1) [OF q(2) bs])
  with quantum4_agree [OF q] xy show ?case by simp
qed auto

lemma secretBytes_url: "secretBytes (RawURL_EncodeToString bs) = bs"
proof -
  let ?v = "RawURL_EncodeToString bs"
  have dec: "RawURL_DecodeString ?v = Inr bs" by (rule rawurl.dec_enc)
  have strip: "strip_newlines ?v = ?v"
    by (simp add: RawURL_EncodeToString_def strip_newlines_encode)
  have pad: "CHR ''='' \<notin> set ?v"
  proof -
    have "set ?v \<subseteq> set url_alphabet"
      using b64_encode_chars [of url_alphabet "[]" bs] by (simp add: RawURL_EncodeToString_def)
    moreover have "CHR ''='' \<notin> set url_alphabet" using wf_url by (simp add: wf_alphabet_def)
    ultimately show ?thesis by blast
  qed
  have "x = bs" if "Std_DecodeString ?v = Inr x" for x
    using that dec pad_raw_agree [of ?v x bs] pad strip
    by (auto simp: Std_DecodeString_def RawURL_DecodeString_def or_corrupt_def split: option.splits)
  moreover have "bs = []" if "?v = []"
    using dec that by (simp add: RawURL_DecodeString_def strip_newlines_def or_corrupt_def)
  ultimately show ?thesis
    using dec by (auto simp: secretBytes_def split: sum.splits)
qed

text \<open>A character outside both alphabets makes both decoders fail.\<close>

definition base64_char :: "char \<Rightarrow> bool" where
  "base64_char c \<longleftrightarrow> c \<in> set std_alphabet \<union> set url_alphabet \<or> c = CHR ''='' \<or> of_char c \<in> {10, 13 :: nat}"

lemma sym_val_None: "\<not> base64_char c \<Longrightarrow> sym_val std_alphabet c = None \<and> sym_val url_alphabet c = None"
  by (auto simp: base64_char_def sym_val_def map_of_eq_None_iff dest: set_zip_leftD)

lemma decode_foreign:
  assumes "c \<in> set s" and "\<not> base64_char c"
  shows "pad_decode std_alphabet s = None" and "raw_decode url_alphabet s = None"
proof -
  have ne: "c \<noteq> CHR ''=''" using assms(2) by (simp add: base64_char_def)
  show "pad_decode std_alphabet s = None"
    using assms(1)
  proof (induction std_alphabet s rule: pad_decode.induct)
    case (2 a b d e s)
    show ?case
    proof (cases "quantum4 std_alphabet a b d e")
      case None
      with 2(2) sym_val_None [OF assms(2)] ne show ?thesis
        by (auto simp: quantum2_def quantum3_def split: option.splits)
    next
      case (Some q)
      then have "c \<in> set s"
        using 2(2) sym_val_None [OF assms(2)] by (auto simp: quantum4_def split: option.splits)
      with 2(1) Some show ?thesis by auto
    qed
  qed auto
  show "raw_decode url_alphabet s = None"
    using assms(1)
  proof (induction url_alphabet s rule: raw_decode.induct)
    case (5 a b d e s)
    show ?case
    proof (cases "quantum4 url_alphabet a b d e")
      case (Some q)
      then have "c \<in> set s"
        using 5(2) sym_val_None [OF assms(2)] by (auto simp: quantum4_def split: option.splits)
      with 5(1) [OF Some] Some show ?thesis by simp
    qed simp
  qed (use sym_val_None [OF assms(2)] in \<open>auto simp: quantum2_def quantum3_def split: option.splits\<close>)
qed

lemma secretBytes_raw:
  assumes "c \<in> set v" and "\<not> base64_char c"
  shows "secretBytes v = bytes_of_string v"
proof -
  have "c \<in> set (strip_newlines v)"
    using assms by (simp add: strip_newlines_def base64_char_def)
  with decode_foreign assms(2) have "pad_decode std_alphabet (strip_newlines v) = None"
    "raw_decode url_alphabet (strip_newlines v) = None" by blast+
  with assms(1) show ?thesis
    by (auto simp: secretBytes_def Std_DecodeString_def RawURL_DecodeString_def or_corrupt_def)
qed

text \<open>
  Secrets can be given in three forms: standard base64 and unpadded URL base64 of any bytes give
  those bytes, and a text with a character outside both alphabets is taken as it is.
\<close>

lemma secret_formats:
  "secretBytes (Std_EncodeToString bs) = bs \<and> secretBytes (RawURL_EncodeToString bs) = bs
   \<and> ((\<exists>c \<in> set v. \<not> base64_char c) \<longrightarrow> secretBytes v = bytes_of_string v)"
  using secretBytes_std secretBytes_url secretBytes_raw by blast

text \<open>
  C39. A raw data key of 32 letters, digits, plus and slash signs is never accepted: it is also valid
  base64, so it is decoded to 24 bytes, and the server does not start, although the option is documented
  as taking a 32-byte key raw or in base64.
\<close>

theorem raw_data_key_rejected:
  assumes "length v = 32" and "list_all (\<lambda>c. c \<in> set std_alphabet) v" and "cf_dataKey (config getenv fl) = v"
    and "honest_reads h"
  shows "length (secretBytes v) = 24 \<and> bsvms_main A B getenv fl h \<noteq> Serving s intercept addr"
proof -
  obtain bs where bs: "pad_decode std_alphabet v = Some bs" "length bs = 24"
    using pad_decode_length [OF assms(2) wf_std, of 8] assms(1) by auto
  have "strip_newlines v = v"
    using assms(2) alphabet_printable [OF wf_std] unfolding strip_newlines_def
    by (intro filter_True) (force simp: list_all_iff)
  moreover have "v \<noteq> []" using assms(1) by auto
  ultimately have sb: "secretBytes v = bs"
    using bs by (simp add: secretBytes_def Std_DecodeString_def or_corrupt_def)
  have "False" if run: "bsvms_main A B getenv fl h = Serving s intercept addr"
  proof -
    obtain n d h1 where new: "NewWithOptions A n d (service_options (config getenv fl)) h1 = (Inr (), s)"
      and "read_fault h1 = read_fault h"
      using launch_serving [OF run] by blast
    then have "honest_reads h1" using assms(4) by (simp add: honest_reads_def)
    then obtain h2 where "withDefaults (service_options (config getenv fl)) d h1 = (Inr (s_opts s), h2)"
      using new_success(3) [OF new] by blast
    then show False
      using withDefaults_success [of "service_options (config getenv fl)" d h1 "s_opts s" h2] bs(2) assms(3) sb
      by (auto simp: service_options_def split: if_splits)
  qed
  with sb bs(2) show ?thesis by auto
qed

theorem raw_data_key_rejected_witness:
  "length (secretBytes (replicate 32 CHR ''k'')) = 24
   \<and> bsvms_main demo_sdk demo_boot (\<lambda>_. []) (demo_flags\<lparr>fl_data_key := Some (replicate 32 CHR ''k'')\<rparr>) (quiet_host [])
       \<noteq> Serving demo_service False '':50051''"
proof (rule raw_data_key_rejected)
  show "list_all (\<lambda>c. c \<in> set std_alphabet) (replicate 32 CHR ''k'')"
    by (simp add: list_all_iff std_alphabet_def)
  show "cf_dataKey (config (\<lambda>_. []) (demo_flags\<lparr>fl_data_key := Some (replicate 32 CHR ''k'')\<rparr>)) = replicate 32 CHR ''k''"
    by (simp add: config_def given_def)
  show "honest_reads (quiet_host [])" by (simp add: honest_reads_def quiet_host_def)
qed simp

section \<open>Peers\<close>

text \<open>
  Connecting a peer at start-up takes a bounded number of attempts, at most thirty for the thirty
  seconds \<^verbatim>\<open>main\<close> allows, whatever the network does; the outcome is that of the last attempt, which is
  the only one that may have succeeded.
\<close>

lemma connect_peer_bounded:
  assumes "attempts = passes (30 * a_second) (connect_pass A B peer) None n"
  shows "1 \<le> length attempts \<and> length attempts \<le> 30
    \<and> fst (connectPeerWithRetry A B peer (30 * a_second) n) = fst (node_ConnectPeer (the_node A) peer (snd (last attempts)))
    \<and> (\<forall>x \<in> set (butlast attempts). \<exists>e. fst (node_ConnectPeer (the_node A) peer (snd x)) = Inl e)"
proof -
  have pos: "30 * a_second \<noteq> 0" by (simp add: a_second_def)
  then have ne: "attempts \<noteq> []" by (simp add: assms)
  have "(length attempts - 1) * a_second < 30 * a_second"
    using passes_bounded [of "30 * a_second" "connect_pass A B peer" None n] ne unfolding assms by blast
  then have len: "length attempts \<le> 30" by (simp add: a_second_def)
  have pass: "fst (connect_pass A B peer e m) =
      (case fst (node_ConnectPeer (the_node A) peer m) of Inl e \<Rightarrow> Inr (Some e) | Inr u \<Rightarrow> Inl ())" for e m
    by (simp add: connect_pass_def split_beta split: sum.split)
  have "fst (connectPeerWithRetry A B peer (30 * a_second) n) = fst (node_ConnectPeer (the_node A) peer (snd (last attempts)))"
    using retry_last [OF pos, of "connect_pass A B peer" None n]
    by (simp add: connectPeerWithRetry_def bindT_apply returnT_apply split_beta assms pass split: sum.splits)
  moreover have "\<exists>e. fst (node_ConnectPeer (the_node A) peer (snd x)) = Inl e" if "x \<in> set (butlast attempts)" for x
    using passes_butlast that unfolding assms by (fastforce simp: pass split: sum.splits)
  ultimately show ?thesis
    using ne len by (cases attempts) auto
qed

section \<open>Shutting down\<close>

text \<open>
  A graceful stop closes the store of every wallet, in whatever order the map gives them, also when closing
  one of them fails; the registry, the saved state and the files are left as they are.
\<close>

lemma close_stores_node:
  "close_stores A tws s = (Inr (), s\<lparr>s_node := foldl (\<lambda>n tw. snd (sqlite_Close (the_pkg A) (tw_store tw) n)) (s_node s) tws\<rparr>)"
  by (induction tws arbitrary: s) (auto simp: act_simps bindE_apply sdkE_def split: prod.split)

lemma graceful_stop:
  assumes "serve_end A B cf (Inr ()) s = (r, s')"
  shows "r = Inr () \<and> (\<exists>n. s' = s\<lparr>s_node := n\<rparr>)
    \<and> (\<not> cf_connect cf \<longrightarrow>
        s_node s' = foldl (\<lambda>n tw. snd (sqlite_Close (the_pkg A) (tw_store tw) n)) (s_node s) (map snd (s_wallets s)))"
  using assms by (auto simp: serve_end_def Close_def bindE_apply getS_def close_stores_node split: if_splits)

end
