(* ===== verification/Durability.thy ===== *)
theory Durability
  imports Server_Props
begin

text \<open>
  What survives: the wallets a server has acknowledged, over later calls, failing file operations and
  restarts.
\<close>

section \<open>What the next start makes of the state file\<close>

lemma state_view_mono:
  assumes "set ms \<subseteq> set ms'" and "distinct (map meta_key ms')"
  shows "state_view key ms \<subseteq>\<^sub>m state_view key ms'"
  unfolding map_le_def
proof
  fix x
  assume "x \<in> dom (state_view key ms)"
  then obtain v where v: "state_view key ms x = Some v" by blast
  obtain t w where x: "x = (t, w)" by (cases x)
  from v obtain m where m: "find (\<lambda>m. meta_key m = walletKey t w) ms = Some m"
    by (auto simp: x state_view_def split: if_splits option.splits)
  then have "m \<in> set ms'" and "meta_key m = walletKey t w"
    using assms(1) by (auto simp: find_Some_iff in_set_conv_nth subset_iff)
  with assms(2) have "find (\<lambda>m. meta_key m = walletKey t w) ms' = Some m" by (rule find_unique)
  with m show "state_view key ms x = state_view key ms' x" by (simp add: x state_view_def)
qed

text \<open>
  A restart on the files of a service: its vault lies between the records known to be saved and the
  vault of the service that stopped.
\<close>

lemma restart_between:
  assumes k: "kept ms s" and new: "NewWithOptions B n (s_dataDir s) options h = (Inr (), s2)" and hr: "honest_reads h"
    and same: "lookup_file h (statePath s) = lookup_file s (statePath s)" "DataKey (s_opts s2) = DataKey (s_opts s)"
  shows "state_view (DataKey (s_opts s)) ms \<subseteq>\<^sub>m vault s2" and "vault s2 \<subseteq>\<^sub>m vault s"
proof -
  obtain raw ps where f: "lookup_file s (statePath s) = Some raw" "unmarshal_state raw = Inr ps" "distinct (map meta_key ps)"
    and ps: "set ms \<subseteq> set ps" "set ps \<subseteq> set (s_state s)"
    using k by (auto simp: kept_def)
  have "state_in (lookup_file h (filepath_Join (s_dataDir s) ''bsvms-wallets.json'')) = ps"
    using f(1,2) same(1) by (simp add: statePath_def state_in_def)
  with new_vault(2) [OF new hr] f(3) same(2) have v: "vault s2 = state_view (DataKey (s_opts s)) ps" by simp
  have inv: "registry_inv s" "unique_state s" using k by (simp_all add: kept_def)
  show "state_view (DataKey (s_opts s)) ms \<subseteq>\<^sub>m vault s2"
    unfolding v using ps(1) f(3) by (rule state_view_mono)
  show "vault s2 \<subseteq>\<^sub>m vault s"
    unfolding v vault_by_state [OF inv] using ps(2) inv(2) unfolding unique_state_def by (rule state_view_mono)
qed

lemma serve_calls_kept:
  assumes "kept ms s"
  shows "kept ms (serve_calls A i calls s)" and "s_opts (serve_calls A i calls s) = s_opts s"
    and "s_dataDir (serve_calls A i calls s) = s_dataDir s"
  using serve_calls_step [of s A i calls] assms by (simp_all add: registry_step_def)

lemma created_kept:
  assumes "CreateWallet A req s = (Inr resp, s')" and "registry_inv s" and "unique_state s" and "list_all wf_meta (s_state s)"
  shows "kept (s_state s') s'"
  by (rule saved_kept [OF create.add_success(5) [OF assms(1)] create.add_inv [OF assms(1,2)]
      create.add_unique [OF assms(1-3)] create.add_wf [OF assms(1,4)] subset_refl])

section \<open>Properties\<close>

text \<open>
  C2. An acknowledged wallet is durable. After a creation that succeeded, let the server serve any calls,
  in any conditions: failing writes and renames, half-written files, calls that fail half way. A service
  started later on the same data directory and data key, with whatever SDK, still has the wallet with the
  mnemonic the caller was given, and every wallet that was there before it, with the same secrets; and it
  has none that the running service did not have. The state file is all they share.
\<close>

theorem created_wallet_survives_restart:
  assumes "CreateWallet A req s = (Inr resp, s1)" and "registry_inv s" and "unique_state s"
    and "list_all wf_meta (s_state s)" and "s2 = serve_calls A intercept calls s1"
    and "NewWithOptions B n (s_dataDir s2) options h = (Inr (), s3)" and "honest_reads h"
    and "lookup_file h (statePath s2) = lookup_file s2 (statePath s2)"
    and "DataKey (s_opts s3) = DataKey (s_opts s2)"
  shows "(vault s)((tenant_id req, wallet_id req) \<mapsto> (CreateWalletResp_mnemonic resp, [])) \<subseteq>\<^sub>m vault s3
    \<and> vault s3 \<subseteq>\<^sub>m vault s2"
proof -
  have k: "kept (s_state s1) s1" using assms(1-4) by (rule created_kept)
  then have inv: "registry_inv s1" "unique_state s1" by (simp_all add: kept_def)
  have k2: "kept (s_state s1) s2" "s_opts s2 = s_opts s1"
    unfolding assms(5) using serve_calls_kept [OF k] by simp_all
  have "vault s1 = (vault s)((tenant_id req, wallet_id req) \<mapsto> (CreateWalletResp_mnemonic resp, []))"
    using create.add_success(6) [OF assms(1)] by simp
  with restart_between [OF k2(1) assms(6-9)] vault_by_state [OF inv] k2(2) show ?thesis by simp
qed

text \<open>
  The example: a second creation meets a full disk before the server stops.
\<close>

definition full_disk_call :: "host \<times> call_context \<times> rpc_request" where
  "full_disk_call = ((quiet_host (replicate 200 7))\<lparr>write_fault := \<lambda>p. Some (ErrText ''no space left on device'', 0)\<rparr>,
     None, Req_CreateWallet \<lparr>tenant_id = ''acme'', wallet_id = ''cold''\<rparr>)"

lemma restart_demo:
  assumes "kept ms s" and "s_opts s = demo_opts" and "s_dataDir s = ''data''"
  shows "\<exists>s2. NewWithOptions demo_sdk 0 ''data'' demo_opts ((quiet_host [])\<lparr>files := files s\<rparr>) = (Inr (), s2)
    \<and> DataKey (s_opts s2) = DataKey (s_opts s)"
proof -
  let ?h = "(quiet_host [])\<lparr>files := files s\<rparr>"
  obtain raw ps where "lookup_file s (statePath s) = Some raw" and ps: "unmarshal_state raw = Inr ps" "set ps \<subseteq> set (s_state s)"
    using assms(1) by (auto simp: kept_def)
  then have f: "lookup_file ?h (filepath_Join ''data'' ''bsvms-wallets.json'') = Some raw"
    using assms(3) by (simp add: statePath_def lookup_file_def)
  have "\<forall>m \<in> set (state_in (lookup_file ?h (filepath_Join ''data'' ''bsvms-wallets.json''))). sealed_meta (DataKey demo_opts) m"
    using assms(1,2) ps unfolding f by (auto simp: state_in_def kept_def registry_inv_def)
  then obtain s2 where s2: "NewWithOptions demo_sdk 0 ''data'' demo_opts ?h = (Inr (), s2)"
    using new_demo [OF _ _ _ _ _ f ps(1), of demo_opts]
    by (auto simp: quiet_host_def demo_opts_def defaultOptions_def)
  have "honest_reads ?h" by (simp add: honest_reads_def quiet_host_def)
  then obtain h' where "withDefaults demo_opts ''data'' ?h = (Inr (s_opts s2), h')"
    using new_success(3) [OF s2] by blast
  moreover have "withDefaults demo_opts ''data'' ?h = (Inr (ttl_defaults demo_opts), ?h)"
    by (rule withDefaults_given) simp_all
  ultimately have "s_opts s2 = ttl_defaults demo_opts" by simp
  with s2 assms(2) show ?thesis by (simp add: ttl_defaults_def)
qed

theorem created_wallet_survives_restart_witness:
  "\<exists>resp s1 s2 s3. CreateWallet demo_sdk demo_req demo_service = (Inr resp, s1)
     \<and> s2 = serve_calls demo_sdk False [full_disk_call] s1
     \<and> NewWithOptions demo_sdk 0 ''data'' demo_opts ((quiet_host [])\<lparr>files := files s2\<rparr>) = (Inr (), s3)
     \<and> vault s3 (''acme'', ''hot'') = Some (CreateWalletResp_mnemonic resp, [])"
proof -
  obtain resp s1 where c: "CreateWallet demo_sdk demo_req demo_service = (Inr resp, s1)"
    using create_demo by blast
  define s2 where "s2 = serve_calls demo_sdk False [full_disk_call] s1"
  have k: "kept (s_state s1) s2" "s_opts s2 = demo_opts" "s_dataDir s2 = ''data''"
    using serve_calls_kept [OF created_kept [OF c demo_inv]] create_demo_host [OF c] by (simp_all add: s2_def)
  obtain s3 where s3: "NewWithOptions demo_sdk 0 ''data'' demo_opts ((quiet_host [])\<lparr>files := files s2\<rparr>) = (Inr (), s3)"
    "DataKey (s_opts s3) = DataKey (s_opts s2)"
    using restart_demo [OF k] by blast
  have "honest_reads ((quiet_host [])\<lparr>files := files s2\<rparr>)" by (simp add: honest_reads_def quiet_host_def)
  from created_wallet_survives_restart [OF c demo_inv s2_def _ this _ s3(2)] s3(1) k(3)
  have "(vault demo_service)((tenant_id demo_req, wallet_id demo_req) \<mapsto> (CreateWalletResp_mnemonic resp, [])) \<subseteq>\<^sub>m vault s3"
    by (simp add: lookup_file_def)
  then have "vault s3 (''acme'', ''hot'') = Some (CreateWalletResp_mnemonic resp, [])"
    by (auto simp: map_le_def demo_req_def)
  with c s2_def s3(1) show ?thesis by blast
qed

end
