(* ===== verification/Blackjack_Cards.thy ===== *)
theory Blackjack_Cards
  imports Go_Strings "HOL-Library.Multiset" "HOL-Library.Stream"
begin

text \<open>
  The game of \<^verbatim>\<open>cmd/blackjack/main.go\<close>: cards, the shuffled deck, the value of a hand, the two turns and
  the outcome. Standard input is the list of lines still to be read; reading past its end gives the
  empty text, as \<^verbatim>\<open>ReadString\<close> does when its error is ignored. Taking a card from an empty deck would
  panic: \<open>None\<close>.
\<close>

section \<open>Cards and the deck\<close>

record card =
  card_rank :: string
  card_suit :: string

definition card_String :: "card \<Rightarrow> string" where
  "card_String c = card_rank c @ card_suit c"

definition handStringParts :: "card list \<Rightarrow> string list" where
  "handStringParts hand = map card_String hand"

definition handString :: "card list \<Rightarrow> string" where
  "handString hand = Join (handStringParts hand) '' ''"

definition ranks :: "string list" where
  "ranks = [''A'', ''2'', ''3'', ''4'', ''5'', ''6'', ''7'', ''8'', ''9'', ''10'', ''J'', ''Q'', ''K'']"

definition suits :: "string list" where
  "suits = [''S'', ''H'', ''D'', ''C'']"

definition full_deck :: "card list" where
  "full_deck = concat (map (\<lambda>s. map (\<lambda>r. \<lparr>card_rank = r, card_suit = s\<rparr>) ranks) suits)"

text \<open>
  The generator behind \<^verbatim>\<open>rand.Rand\<close> is any stream of numbers; \<^verbatim>\<open>int31n(k)\<close> is the next one, reduced below
  \<open>k\<close>. \<^verbatim>\<open>Shuffle\<close> goes down from the last position and swaps each with a random one not above it.
\<close>

type_synonym rng = "nat stream"

definition int31n :: "nat \<Rightarrow> rng \<Rightarrow> nat \<times> rng" where
  "int31n k r = (shd r mod k, stl r)"

definition swap :: "nat \<Rightarrow> nat \<Rightarrow> 'a list \<Rightarrow> 'a list" where
  "swap i j xs = xs[i := xs ! j, j := xs ! i]"

fun shuffle_down :: "nat \<Rightarrow> 'a list \<Rightarrow> rng \<Rightarrow> 'a list \<times> rng" where
  "shuffle_down 0 xs r = (xs, r)"
| "shuffle_down (Suc i) xs r = (case int31n (Suc (Suc i)) r of (j, r') \<Rightarrow> shuffle_down i (swap (Suc i) j xs) r')"

definition newDeck :: "rng \<Rightarrow> card list \<times> rng" where
  "newDeck r = shuffle_down (length full_deck - 1) full_deck r"

fun draw :: "card list \<Rightarrow> (card \<times> card list) option" where
  "draw [] = None"
| "draw (c # deck) = Some (c, deck)"

section \<open>The value of a hand\<close>

text \<open>
  \<^verbatim>\<open>n, _ := strconv.Atoi(rank)\<close> is 0 for a rank that is no number. Go answers the nearest limit for a number
  out of its range, and its sums wrap there; no rank of the deck comes near.
\<close>

definition Atoi_value :: "string \<Rightarrow> int" where
  "Atoi_value s = (case ParseInt s of Some n \<Rightarrow> n | None \<Rightarrow> 0)"

fun count_hand :: "card list \<Rightarrow> int \<Rightarrow> nat \<Rightarrow> int \<times> nat" where
  "count_hand [] tot aces = (tot, aces)"
| "count_hand (c # hand) tot aces =
     (if card_rank c = ''A'' then count_hand hand (tot + 11) (Suc aces)
      else if card_rank c \<in> set [''K'', ''Q'', ''J''] then count_hand hand (tot + 10) aces
      else count_hand hand (tot + Atoi_value (card_rank c)) aces)"

fun soften :: "int \<Rightarrow> nat \<Rightarrow> int" where
  "soften tot 0 = tot"
| "soften tot (Suc aces) = (if tot > 21 then soften (tot - 10) aces else tot)"

definition handValue :: "card list \<Rightarrow> int" where
  "handValue hand = (case count_hand hand 0 0 of (tot, aces) \<Rightarrow> soften tot aces)"

definition outcome :: "int \<Rightarrow> int \<Rightarrow> string" where
  "outcome playerTotal houseTotal =
     (if playerTotal > 21 then ''house''
      else if houseTotal > 21 then ''player''
      else if playerTotal > houseTotal then ''player''
      else if houseTotal > playerTotal then ''house''
      else ''push'')"

section \<open>A hand\<close>

definition defaultBet :: int where
  "defaultBet = 1000"

definition read_line :: "string list \<Rightarrow> string \<times> string list" where
  "read_line input = (case input of [] \<Rightarrow> ([], []) | line # rest \<Rightarrow> (line, rest))"

definition askBet :: "string list \<Rightarrow> int \<times> string list" where
  "askBet input =
     (case read_line input of (raw, rest) \<Rightarrow>
       (let line = TrimSpace raw in
        (if line = [] then defaultBet
         else (case ParseInt line of None \<Rightarrow> defaultBet | Some n \<Rightarrow> if n \<le> 0 then defaultBet else n), rest)))"

fun player_turn :: "card list \<Rightarrow> card list \<Rightarrow> string list \<Rightarrow> (card list \<times> card list \<times> string list) option" where
  "player_turn hand deck [] = Some (hand, deck, [])"
| "player_turn hand deck (line # input) =
     (if handValue hand \<ge> 21 then Some (hand, deck, line # input)
      else if ToLower (TrimSpace line) \<noteq> ''h'' then Some (hand, deck, input)
      else (case draw deck of
          None \<Rightarrow> None
        | Some (c, deck') \<Rightarrow> player_turn (hand @ [c]) deck' input))"

fun house_turn :: "card list \<Rightarrow> card list \<Rightarrow> card list \<Rightarrow> (card list \<times> card list) option" where
  "house_turn playerHand houseHand [] =
     (if handValue playerHand \<le> 21 \<and> handValue houseHand < 17 then None else Some (houseHand, []))"
| "house_turn playerHand houseHand (c # deck) =
     (if handValue playerHand \<le> 21 \<and> handValue houseHand < 17
      then house_turn playerHand (houseHand @ [c]) deck
      else Some (houseHand, c # deck))"

text \<open>The cards of one hand of \<^verbatim>\<open>playHand\<close>: two for the player, two for the house, then the turns.\<close>

definition play_cards :: "card list \<Rightarrow> string list \<Rightarrow> (card list \<times> card list \<times> card list \<times> string list) option" where
  "play_cards deck input =
     (case deck of
        p1 # p2 # h1 # h2 # deck' \<Rightarrow>
          (case player_turn [p1, p2] deck' input of
             None \<Rightarrow> None
           | Some (playerHand, deck'', input') \<Rightarrow>
              (case house_turn playerHand [h1, h2] deck'' of
                 None \<Rightarrow> None
               | Some (houseHand, rest) \<Rightarrow> Some (playerHand, houseHand, rest, input')))
      | _ \<Rightarrow> None)"

section \<open>The best total\<close>

text \<open>
  What \<^verbatim>\<open>handValue\<close> is meant to be: of all the totals a hand can have, an ace counting 1 or 11, the
  greatest that does not exceed 21, or the least when all do.
\<close>

fun pips :: "card \<Rightarrow> int list" where
  "pips c = (if card_rank c = ''A'' then [1, 11]
     else if card_rank c \<in> set [''K'', ''Q'', ''J''] then [10] else [Atoi_value (card_rank c)])"

fun totals :: "card list \<Rightarrow> int list" where
  "totals [] = [0]"
| "totals (c # hand) = concat (map (\<lambda>n. map (\<lambda>t. n + t) (totals hand)) (pips c))"

definition best_total :: "card list \<Rightarrow> int" where
  "best_total hand =
     (let fits = filter (\<lambda>t. t \<le> 21) (totals hand) in
      if fits \<noteq> [] then Max (set fits) else Min (set (totals hand)))"

text \<open>With all aces low, and how many aces there are.\<close>

definition hard_total :: "card list \<Rightarrow> int" where
  "hard_total hand = sum_list (map (\<lambda>c. hd (pips c)) hand)"

definition aces :: "card list \<Rightarrow> nat" where
  "aces hand = length (filter (\<lambda>c. card_rank c = ''A'') hand)"

lemma hard_total_simps [simp]:
  "hard_total [] = 0" "hard_total (c # hand) = hd (pips c) + hard_total hand"
  "hard_total (hand @ hand') = hard_total hand + hard_total hand'"
  by (simp_all add: hard_total_def)

lemma aces_simps [simp]:
  "aces [] = 0" "aces (c # hand) = (if card_rank c = ''A'' then Suc (aces hand) else aces hand)"
  by (simp_all add: aces_def)

lemma count_hand_eq: "count_hand hand t a = (t + hard_total hand + 10 * int (aces hand), a + aces hand)"
  by (induction hand t a rule: count_hand.induct) auto

lemma handValue_eq: "handValue hand = soften (hard_total hand + 10 * int (aces hand)) (aces hand)"
  by (simp add: handValue_def count_hand_eq)

lemma totals_set: "set (totals hand) = (\<lambda>k. hard_total hand + 10 * int k) ` {0..aces hand}"
proof (induction hand)
  case (Cons c hand)
  show ?case
  proof (cases "card_rank c = ''A''")
    case True
    have "(\<lambda>k. 11 + (hard_total hand + 10 * int k)) ` {0..aces hand}
        = (\<lambda>k. 1 + hard_total hand + 10 * int k) ` (Suc ` {0..aces hand})"
      unfolding image_image by (simp add: algebra_simps)
    then have "(\<lambda>k. 1 + (hard_total hand + 10 * int k)) ` {0..aces hand} \<union> (\<lambda>k. 11 + (hard_total hand + 10 * int k)) ` {0..aces hand}
        = (\<lambda>k. 1 + hard_total hand + 10 * int k) ` ({0..aces hand} \<union> Suc ` {0..aces hand})"
      by (simp add: image_Un add.assoc)
    moreover have "{0..aces hand} \<union> Suc ` {0..aces hand} = {0..Suc (aces hand)}"
      by (auto simp: image_Suc_atLeastAtMost)
    ultimately show ?thesis using True Cons by (simp add: image_image)
  next
    case False
    with Cons show ?thesis by (auto simp: image_image algebra_simps)
  qed
qed simp

lemma soften_spec:
  "\<exists>k \<le> a. soften (h + 10 * int a) a = h + 10 * int k \<and> (k = 0 \<or> h + 10 * int k \<le> 21)
     \<and> (\<forall>j \<le> a. k < j \<longrightarrow> 21 < h + 10 * int j)"
proof (induction a)
  case (Suc a)
  show ?case
  proof (cases "21 < h + 10 * int (Suc a)")
    case True
    then have "soften (h + 10 * int (Suc a)) (Suc a) = soften (h + 10 * int a) a"
      by (simp add: algebra_simps)
    with Suc True show ?thesis by (metis le_Suc_eq)
  next
    case False
    then show ?thesis by (intro exI [of _ "Suc a"]) auto
  qed
qed simp

lemma best_total_eq: "handValue hand = best_total hand"
proof -
  let ?h = "hard_total hand" and ?a = "aces hand"
  obtain k where k: "k \<le> ?a" "handValue hand = ?h + 10 * int k" "k = 0 \<or> ?h + 10 * int k \<le> 21"
    and above: "\<forall>j \<le> ?a. k < j \<longrightarrow> 21 < ?h + 10 * int j"
    using soften_spec [of ?a ?h] unfolding handValue_eq by blast
  have mem: "?h + 10 * int j \<in> set (totals hand)" if "j \<le> ?a" for j
    using that by (auto simp: totals_set)
  show ?thesis
  proof (cases "?h + 10 * int k \<le> 21")
    case True
    have "t \<le> ?h + 10 * int k" if t: "t \<in> set (totals hand)" "t \<le> 21" for t
    proof -
      obtain j where "j \<le> ?a" "t = ?h + 10 * int j" using t(1) unfolding totals_set by auto
      with t(2) above show ?thesis by (cases "k < j") auto
    qed
    then have "Max (set (filter (\<lambda>t. t \<le> 21) (totals hand))) = ?h + 10 * int k"
      using True mem [OF k(1)] by (intro Max_eqI) auto
    moreover have "filter (\<lambda>t. t \<le> 21) (totals hand) \<noteq> []"
      using True mem [OF k(1)] by (auto simp: filter_empty_conv)
    ultimately show ?thesis using k(2) by (simp add: best_total_def Let_def)
  next
    case False
    then have "k = 0" using k(3) by simp
    with False have "filter (\<lambda>t. t \<le> 21) (totals hand) = []"
      by (auto simp: filter_empty_conv totals_set)
    moreover have "Min (set (totals hand)) = ?h"
      using mem [of 0] by (intro Min_eqI) (auto simp: totals_set)
    ultimately show ?thesis using k(2) \<open>k = 0\<close> by (simp add: best_total_def Let_def)
  qed
qed

text \<open>
  C32. The value of a hand is the best it can have: of all totals, with each ace as 1 or 11, the greatest
  that does not exceed 21, or the least if every one does.
\<close>

theorem hand_value_is_best:
  "handValue hand = best_total hand
   \<and> handValue hand \<in> set (totals hand) \<and> (handValue hand \<le> 21 \<longleftrightarrow> (\<exists>t \<in> set (totals hand). t \<le> 21))"
proof -
  obtain k where k: "k \<le> aces hand" "handValue hand = hard_total hand + 10 * int k" "k = 0 \<or> handValue hand \<le> 21"
    using soften_spec [of "aces hand" "hard_total hand"] unfolding handValue_eq by auto
  then have mem: "handValue hand \<in> set (totals hand)" by (auto simp: totals_set)
  have "handValue hand \<le> 21" if "t \<in> set (totals hand)" "t \<le> 21" for t
    using that k by (auto simp: totals_set)
  with mem best_total_eq [of hand] show ?thesis by blast
qed

section \<open>The deck lasts\<close>

text \<open>Every card of the deck counts at least one, so a hand is never worth less than its cards are many.\<close>

definition playable :: "card list \<Rightarrow> bool" where
  "playable hand \<longleftrightarrow> set hand \<subseteq> set full_deck"

lemma full_deck_ranks: "list_all (\<lambda>c. 1 \<le> hd (pips c)) full_deck"
  by code_simp

lemma full_deck_52: "length full_deck = 52" "distinct full_deck"
  by code_simp+

lemma hard_total_length: "playable hand \<Longrightarrow> int (length hand) \<le> hard_total hand"
proof (induction hand)
  case (Cons c hand)
  then have "1 \<le> hd (pips c)"
    using full_deck_ranks by (auto simp: playable_def list_all_iff)
  moreover have "playable hand" using Cons.prems by (simp add: playable_def)
  ultimately show ?case using Cons.IH by simp
qed simp

lemma handValue_length: "playable hand \<Longrightarrow> int (length hand) \<le> handValue hand"
  using soften_spec [of "aces hand" "hard_total hand"] hard_total_length [of hand]
  unfolding handValue_eq by fastforce

lemma mset_swap: "i < length xs \<Longrightarrow> j < length xs \<Longrightarrow> mset (swap i j xs) = mset xs"
  unfolding swap_def by (rule mset_swap)

lemma length_swap [simp]: "length (swap i j xs) = length xs"
  by (simp add: swap_def)

lemma shuffle_perm: "i < length xs \<Longrightarrow> mset (fst (shuffle_down i xs r)) = mset xs"
proof (induction i xs r rule: shuffle_down.induct)
  case (2 i xs r)
  obtain j r' where j: "int31n (Suc (Suc i)) r = (j, r')" "j < Suc (Suc i)"
    by (simp add: int31n_def)
  then show ?case
    using 2 mset_swap [of "Suc i" xs j] by simp
qed simp

lemma newDeck_perm: "mset (fst (newDeck r)) = mset full_deck"
  unfolding newDeck_def by (rule shuffle_perm) (simp add: full_deck_52)

lemma player_turn_result:
  assumes "playable (hand @ deck)" and "length hand \<le> 21" and "21 \<le> length hand + length deck"
  shows "\<exists>hand' deck' input'. player_turn hand deck input = Some (hand', deck', input')
    \<and> hand' @ deck' = hand @ deck \<and> length hand' \<le> 21 \<and> length input' \<le> length input \<and> length hand \<le> length hand'"
  using assms
proof (induction hand deck input rule: player_turn.induct)
  case (2 hand deck line input)
  show ?case
  proof (cases "21 \<le> handValue hand \<or> ToLower (TrimSpace line) \<noteq> ''h''")
    case False
    have "playable hand" using "2.prems"(1) by (simp add: playable_def)
    then have "length hand < 21" using handValue_length [of hand] False by simp
    moreover obtain c deck' where d: "deck = c # deck'"
      using "2.prems"(3) calculation by (cases deck) auto
    ultimately obtain hand' deck'' input' where
      "player_turn (hand @ [c]) deck' input = Some (hand', deck'', input')" "hand' @ deck'' = hand @ deck"
      "length hand' \<le> 21" "length input' \<le> length input" "length (hand @ [c]) \<le> length hand'"
      using "2.IH" [of "(c, deck')" c deck'] "2.prems" False by auto
    with d False show ?thesis by auto
  qed (use "2.prems" in auto)
qed auto

lemma house_turn_result:
  assumes "playable (hand @ deck)" and "length hand \<le> 17" and "17 \<le> length hand + length deck"
  shows "\<exists>hand' deck'. house_turn player hand deck = Some (hand', deck')
    \<and> hand' @ deck' = hand @ deck \<and> length hand \<le> length hand'
    \<and> (handValue player \<le> 21 \<longrightarrow> 17 \<le> handValue hand')
    \<and> (21 < handValue player \<longrightarrow> hand' = hand)
    \<and> (\<forall>n. length hand \<le> n \<longrightarrow> n < length hand' \<longrightarrow> handValue (take n hand') < 17)"
  using assms
proof (induction player hand deck rule: house_turn.induct)
  case (1 player hand)
  then have "17 \<le> handValue hand" using handValue_length [of hand] by (simp add: playable_def)
  then show ?case by auto
next
  case (2 player hand c deck)
  show ?case
  proof (cases "handValue player \<le> 21 \<and> handValue hand < 17")
    case True
    have "playable hand" using "2.prems"(1) by (simp add: playable_def)
    then have "length hand < 17" using handValue_length [of hand] True by simp
    then obtain hand' deck' where r: "house_turn player (hand @ [c]) deck = Some (hand', deck')"
      "hand' @ deck' = hand @ c # deck" "length (hand @ [c]) \<le> length hand'" "17 \<le> handValue hand'"
      "\<forall>n. length (hand @ [c]) \<le> n \<longrightarrow> n < length hand' \<longrightarrow> handValue (take n hand') < 17"
      using "2.IH" [OF True] "2.prems" True by auto
    have "take (length hand) hand' = hand"
      using r(2,3) by (metis append_eq_conv_conj append_take_drop_id le_add1 length_append take_append take_take min.absorb1)
    then have "handValue (take n hand') < 17" if "length hand \<le> n" "n < length hand'" for n
      using that True r(5) by (cases "n = length hand") auto
    with r True show ?thesis by auto
  qed auto
qed

lemma play_cards_result:
  assumes "mset deck = mset full_deck"
  shows "\<exists>playerHand houseHand rest input'. play_cards deck input = Some (playerHand, houseHand, rest, input')
    \<and> mset (playerHand @ houseHand @ rest) = mset full_deck
    \<and> 2 \<le> length playerHand \<and> 2 \<le> length houseHand \<and> length input' \<le> length input
    \<and> (handValue playerHand \<le> 21 \<longrightarrow> 17 \<le> handValue houseHand)
    \<and> (21 < handValue playerHand \<longrightarrow> length houseHand = 2)
    \<and> (\<forall>n. 2 \<le> n \<longrightarrow> n < length houseHand \<longrightarrow> handValue (take n houseHand) < 17)"
proof -
  have len: "length deck = 52" using assms full_deck_52(1) by (metis size_mset)
  then obtain p1 p2 h1 h2 d where deck: "deck = p1 # p2 # h1 # h2 # d" "length d = 48"
    by (auto simp: numeral_eq_Suc length_Suc_conv)
  have set: "set deck = set full_deck" using assms by (metis set_mset_mset)
  then have "playable ([p1, p2] @ d)" by (auto simp: playable_def deck)
  then obtain ph d' input' where p: "player_turn [p1, p2] d input = Some (ph, d', input')"
      "ph @ d' = [p1, p2] @ d" "length ph \<le> 21" "length input' \<le> length input" "2 \<le> length ph"
    using player_turn_result [of "[p1, p2]" d input] deck by auto
  have parts: "set d' \<subseteq> set deck" "length d' = 50 - length ph"
    using arg_cong [OF p(2), of set] arg_cong [OF p(2), of length] deck by auto
  then have pl: "playable ([h1, h2] @ d')" using set by (auto simp: playable_def deck)
  have sizes: "length [h1, h2] \<le> 17" "17 \<le> length [h1, h2] + length d'" using parts(2) p(3) by simp_all
  obtain hh rest where h: "house_turn ph [h1, h2] d' = Some (hh, rest)" "hh @ rest = [h1, h2] @ d'"
      "2 \<le> length hh" "handValue ph \<le> 21 \<longrightarrow> 17 \<le> handValue hh" "21 < handValue ph \<longrightarrow> hh = [h1, h2]"
      "\<forall>n. 2 \<le> n \<longrightarrow> n < length hh \<longrightarrow> handValue (take n hh) < 17"
    using house_turn_result [OF pl sizes, of ph] by (auto simp: numeral_2_eq_2)
  have "mset (ph @ hh @ rest) = mset (ph @ d') + {#h1, h2#}"
    unfolding append_assoc h(2) by simp
  also have "\<dots> = mset deck" unfolding p(2) by (simp add: deck)
  finally have "mset (ph @ hh @ rest) = mset full_deck" using assms by simp
  moreover have "play_cards deck input = Some (ph, hh, rest, input')"
    using p(1) h(1) by (simp add: play_cards_def deck)
  moreover have "21 < handValue ph \<longrightarrow> length hh = 2" using h(5) by auto
  ultimately show ?thesis using p(4,5) h(3,4,6) by blast
qed

section \<open>Properties\<close>

text \<open>
  C33. A hand can always be played to its end, whatever the generator and the player's input: the deck
  is the 52 cards in some order, it never runs out, no card is dealt twice or lost, the house does not
  draw against a bust player, and otherwise draws exactly until it has 17 or more.
\<close>

theorem every_hand_plays_out:
  "length full_deck = 52 \<and> distinct full_deck \<and> mset (fst (newDeck r)) = mset full_deck
   \<and> (\<exists>playerHand houseHand rest input'. play_cards (fst (newDeck r)) input = Some (playerHand, houseHand, rest, input')
      \<and> mset (playerHand @ houseHand @ rest) = mset full_deck
      \<and> (if handValue playerHand \<le> 21
         then 17 \<le> handValue houseHand \<and> (\<nexists>n. 2 \<le> n \<and> n < length houseHand \<and> 17 \<le> handValue (take n houseHand))
         else length houseHand = 2))"
proof -
  obtain ph hh rest input' where "play_cards (fst (newDeck r)) input = Some (ph, hh, rest, input')"
    and "mset (ph @ hh @ rest) = mset full_deck" "handValue ph \<le> 21 \<longrightarrow> 17 \<le> handValue hh"
    "21 < handValue ph \<longrightarrow> length hh = 2" "\<forall>n. 2 \<le> n \<longrightarrow> n < length hh \<longrightarrow> handValue (take n hh) < 17"
    using play_cards_result [OF newDeck_perm, of r input] by blast
  with newDeck_perm full_deck_52 show ?thesis by fastforce
qed

end
