(* ===== verification/Blackjack.thy ===== *)
theory Blackjack
  imports Blackjack_Cards Server
begin

text \<open>
  The demo client \<^verbatim>\<open>cmd/blackjack/main.go\<close>: the calls it makes, its waits and its settlements. The service
  as the client sees it, over the generated client and the network, is the parameter \<open>client\<close>: each call
  takes time, may fail, and may change the world. \<^verbatim>\<open>log.Fatalf\<close> ends the process: the left value of a
  program. What is printed on the terminal is not modelled.
\<close>

section \<open>Programs\<close>

record 'w client =
  cl_dial :: "string \<Rightarrow> ('w, unit result) timed"
  cl_Status :: "('w, StatusResponse result) timed"
  cl_ConnectPeer :: "ConnectPeerRequest \<Rightarrow> ('w, unit result) timed"
  cl_GetWallet :: "TenantWallet \<Rightarrow> ('w, WalletResponse result) timed"
  cl_CreateWallet :: "TenantWallet \<Rightarrow> ('w, CreateWalletResponse result) timed"
  cl_NewAddress :: "TenantWallet \<Rightarrow> ('w, AddressResponse result) timed"
  cl_Balance :: "TenantWallet \<Rightarrow> ('w, BalanceResponse result) timed"
  cl_P2PKHOutput :: "P2PKHOutputRequest \<Rightarrow> ('w, OutputSpec result) timed"
  cl_OpReturnOutput :: "OpReturnOutputRequest \<Rightarrow> ('w, OutputSpec result) timed"
  cl_SpendToOutputs :: "SpendToOutputsRequest \<Rightarrow> ('w, SpendDetailResponse result) timed"
  cl_ListUTXOs :: "TenantWallet \<Rightarrow> ('w, ListUTXOsResponse result) timed"
  cl_ClearUTXOs :: "TenantWallet \<Rightarrow> ('w, ClearUTXOsResponse result) timed"
  cl_ProcessRawTx :: "ProcessRawTxRequest \<Rightarrow> ('w, unit result) timed"

type_synonym ('w, 'a) program = "('w, string + 'a) timed"

definition bindP :: "('w, 'a) program \<Rightarrow> ('a \<Rightarrow> ('w, 'b) program) \<Rightarrow> ('w, 'b) program" where
  "bindP m f = bindT m (\<lambda>r. case r of Inl msg \<Rightarrow> returnT (Inl msg) | Inr x \<Rightarrow> f x)"

definition fatal :: "string \<Rightarrow> ('w, 'a) program" where
  "fatal msg = returnT (Inl msg)"

text \<open>A call whose error ends the process.\<close>

definition or_fatal :: "string \<Rightarrow> ('w, 'a result) timed \<Rightarrow> ('w, 'a) program" where
  "or_fatal label m = bindT m (\<lambda>r. returnT (case r of Inl e \<Rightarrow> Inl (label @ '': '' @ error_text e) | Inr x \<Rightarrow> Inr x))"

section \<open>Wallets and peers\<close>

definition tenantID :: string where
  "tenantID = ''blackjack''"

definition playerWallet :: string where
  "playerWallet = ''player''"

definition houseWallet :: string where
  "houseWallet = ''house''"

definition regtestPeer :: string where
  "regtestPeer = ''bsv-node:18444''"

record bj_wallet =
  w_id :: string
  w_address :: string

definition own_wallet :: "string \<Rightarrow> TenantWallet" where
  "own_wallet wid = \<lparr>tenant_id = tenantID, wallet_id = wid\<rparr>"

text \<open>\<^verbatim>\<open>status.Code(err)\<close>: an error that is no status is \<^verbatim>\<open>Unknown\<close>, which is no code of \<open>grpc_code\<close>.\<close>

fun is_NotFound :: "'a result \<Rightarrow> bool" where
  "is_NotFound (Inl (Status c m)) = (c = NotFound)"
| "is_NotFound _ = False"

definition ensureWallet :: "'w client \<Rightarrow> string \<Rightarrow> ('w, bj_wallet) program" where
  "ensureWallet C wid =
     bindT (cl_GetWallet C (own_wallet wid)) (\<lambda>first.
     bindP (if is_NotFound first
            then bindP (or_fatal (''create wallet '' @ wid) (cl_CreateWallet C (own_wallet wid))) (\<lambda>_.
                 or_fatal (''get wallet '' @ wid) (cl_GetWallet C (own_wallet wid)))
            else or_fatal (''get wallet '' @ wid) (returnT first)) (\<lambda>got.
     case (case WalletResp_wallet got of None \<Rightarrow> [] | Some v \<Rightarrow> Wallet_addresses v) of
       a # _ \<Rightarrow> returnT (Inr \<lparr>w_id = wid, w_address = a\<rparr>)
     | [] \<Rightarrow>
         bindP (or_fatal (''new address '' @ wid) (cl_NewAddress C (own_wallet wid))) (\<lambda>addr.
         returnT (Inr \<lparr>w_id = wid,
           w_address = (case AddressResp_address addr of None \<Rightarrow> [] | Some d \<Rightarrow> DerivedAddress_address d)\<rparr>))))"

definition requireFunded :: "'w client \<Rightarrow> bj_wallet \<Rightarrow> ('w, unit) program" where
  "requireFunded C w =
     bindP (or_fatal (''balance '' @ w_id w) (cl_Balance C (own_wallet (w_id w)))) (\<lambda>bal.
     if BalanceResp_spendable bal \<ge> defaultBet then returnT (Inr ())
     else fatal (w_id w @ '' wallet has '' @ show_int (BalanceResp_spendable bal)
       @ '' spendable sats; run `docker compose up -d` and wait for blackjack-fund to complete''))"

definition statusNetwork :: "'w client \<Rightarrow> ('w, string) program" where
  "statusNetwork C = bindP (or_fatal ''status'' (cl_Status C)) (\<lambda>st. returnT (Inr (StatusResp_network st)))"

definition regtest_pass :: "'w client \<Rightarrow> string \<Rightarrow> goerr option \<Rightarrow> ('w, unit + goerr option) timed" where
  "regtest_pass C peer lastErr =
     bindT (cl_Status C) (\<lambda>st.
     case st of
       Inr v \<Rightarrow>
         if ToLower (StatusResp_network v) \<noteq> ''regtest'' then returnT (Inl ())
         else if StatusResp_peer_count v > 0 then returnT (Inl ())
         else bindT (cl_ConnectPeer C \<lparr>ConnectPeerReq_address = peer\<rparr>) (\<lambda>r.
              returnT (Inr (case r of Inl e \<Rightarrow> Some e | Inr _ \<Rightarrow> lastErr)))
     | Inl _ \<Rightarrow>
         bindT (cl_ConnectPeer C \<lparr>ConnectPeerReq_address = peer\<rparr>) (\<lambda>r.
         returnT (Inr (case r of Inl e \<Rightarrow> Some e | Inr _ \<Rightarrow> lastErr))))"

definition ensureRegtestPeer :: "'w client \<Rightarrow> (string \<Rightarrow> string) \<Rightarrow> ('w, unit) program" where
  "ensureRegtestPeer C getenv =
     (let peer = env getenv ''BSVMS_REGTEST_PEER'' regtestPeer in
      bindT (retry (60 * a_second) (regtest_pass C peer) None) (\<lambda>r.
      case r of
        Inl _ \<Rightarrow> returnT (Inr ())
      | Inr (Some e) \<Rightarrow> fatal (''connect regtest peer '' @ peer @ '': '' @ error_text e)
      | Inr None \<Rightarrow> fatal (''connect regtest peer '' @ peer @ '': timed out'')))"

section \<open>Settlement\<close>

text \<open>\<^verbatim>\<open>handResult\<close> as the JSON object committed to the chain.\<close>

definition handResult :: "card list \<Rightarrow> card list \<Rightarrow> int \<Rightarrow> string \<Rightarrow> json" where
  "handResult playerHand houseHand sats winner = JObj
     [(''game'', JStr ''blackjack''),
      (''player'', JArr (map JStr (handStringParts playerHand))),
      (''house'', JArr (map JStr (handStringParts houseHand))),
      (''player_total'', JNum (show_int (handValue playerHand))),
      (''house_total'', JNum (show_int (handValue houseHand))),
      (''bet'', JNum (show_int sats)),
      (''winner'', JStr winner)]"

definition settle_request :: "string \<Rightarrow> OutputSpec list \<Rightarrow> SpendToOutputsRequest" where
  "settle_request from outputs =
     \<lparr>tenant_id = tenantID, wallet_id = from, SpendToOutputsReq_outputs = outputs,
      SpendToOutputsReq_ignore_fixed_outputs = False, SpendToOutputsReq_from_inputs = []\<rparr>"

definition detail_txid :: "SpendDetailResponse \<Rightarrow> string" where
  "detail_txid r = (case SpendDetailResp_detail r of None \<Rightarrow> [] | Some d \<Rightarrow> SpendDetail_txid d)"

text \<open>One pass of the settlement loop: a transaction identifier, or the error of the first attempt.\<close>

definition settle_pass :: "'w client \<Rightarrow> (string \<Rightarrow> string) \<Rightarrow> SpendToOutputsRequest \<Rightarrow> ('w, string + goerr) program" where
  "settle_pass C getenv req =
     bindT (cl_SpendToOutputs C req) (\<lambda>r.
     case r of
       Inr detail \<Rightarrow> returnT (Inr (Inl (detail_txid detail)))
     | Inl e \<Rightarrow>
         if Contains (error_text e) ''no connected peers'' then
           bindP (ensureRegtestPeer C getenv) (\<lambda>_.
           bindT (cl_SpendToOutputs C req) (\<lambda>r'.
           returnT (Inr (case r' of Inr detail \<Rightarrow> Inl (detail_txid detail) | Inl _ \<Rightarrow> Inr e))))
         else returnT (Inr (Inr e)))"

text \<open>
  The loop tests its deadline after each pass and sleeps before the next; \<open>left\<close> is the time until the
  deadline, negative once it has passed.
\<close>

function settle_loop :: "'w client \<Rightarrow> (string \<Rightarrow> string) \<Rightarrow> SpendToOutputsRequest \<Rightarrow> int \<Rightarrow> ('w, string) program" where
  "settle_loop C getenv req left w =
     (case settle_pass C getenv req w of
        (Inl msg, d, w') \<Rightarrow> (Inl msg, d, w')
      | (Inr (Inl txid), d, w') \<Rightarrow> (Inr txid, d, w')
      | (Inr (Inr e), d, w') \<Rightarrow>
         if left < int d then (Inl (''settle from '' @ wallet_id req @ '': '' @ error_text e), d, w')
         else (case settle_loop C getenv req (left - int d - int a_second) w' of
             (r, d', w'') \<Rightarrow> (r, d + a_second + d', w'')))"
  by pat_completeness auto
termination
  by (relation "measure (\<lambda>(C, getenv, req, left, w). nat (left + 1))") (auto simp: a_second_def)

declare settle_loop.simps [simp del]

definition settleHand :: "'w client \<Rightarrow> (string \<Rightarrow> string) \<Rightarrow> bj_wallet \<Rightarrow> string \<Rightarrow> int \<Rightarrow> card list \<Rightarrow> card list
    \<Rightarrow> string \<Rightarrow> ('w, string) program" where
  "settleHand C getenv from to sats playerHand houseHand winner =
     bindP (ensureRegtestPeer C getenv) (\<lambda>_.
     bindP (or_fatal ''p2pkh output'' (cl_P2PKHOutput C \<lparr>P2PKHOutputReq_address = to, P2PKHOutputReq_value = sats\<rparr>)) (\<lambda>p2pkh.
     bindP (or_fatal ''op_return output'' (cl_OpReturnOutput C
         \<lparr>OpReturnOutputReq_data = bytes_of_string (json_Marshal (handResult playerHand houseHand sats winner))\<rparr>)) (\<lambda>opReturn.
     settle_loop C getenv (settle_request (w_id from) [p2pkh, opReturn]) (60 * int a_second))))"

section \<open>Links\<close>

definition wocBaseURL :: "string \<Rightarrow> string \<Rightarrow> string" where
  "wocBaseURL net explorerURL =
     (let n = ToLower net in
      if n = ''regtest'' then explorerURL
      else if n = ''mainnet'' then ''https://whatsonchain.com''
      else if n = ''testnet'' then ''https://test.whatsonchain.com''
      else if n = ''stn'' then ''https://stn.whatsonchain.com''
      else [])"

definition wocAddressURL :: "string \<Rightarrow> string \<Rightarrow> string \<Rightarrow> string" where
  "wocAddressURL net explorerURL address =
     (let base = wocBaseURL net explorerURL in if base = [] then [] else base @ ''/address/'' @ address)"

definition wocTxURL :: "string \<Rightarrow> string \<Rightarrow> string \<Rightarrow> string" where
  "wocTxURL net explorerURL txid =
     (let base = wocBaseURL net explorerURL in if base = [] then [] else base @ ''/tx/'' @ txid)"

text \<open>The links \<^verbatim>\<open>printAddressLinks\<close> prints: both or none.\<close>

definition printAddressLinks :: "string \<Rightarrow> string \<Rightarrow> bj_wallet \<Rightarrow> bj_wallet \<Rightarrow> string list" where
  "printAddressLinks net explorerURL player house =
     (let playerURL = wocAddressURL net explorerURL (w_address player);
          houseURL = wocAddressURL net explorerURL (w_address house) in
      if playerURL = [] \<or> houseURL = [] then []
      else [''Player explorer: '' @ playerURL, ''House explorer:  '' @ houseURL])"

text \<open>\<^verbatim>\<open>printTxLink\<close> asks for the network before it prints, and stops the process when that fails.\<close>

definition printTxLink :: "'w client \<Rightarrow> string \<Rightarrow> string \<Rightarrow> ('w, string) program" where
  "printTxLink C explorerURL txid =
     bindP (statusNetwork C) (\<lambda>net. returnT (Inr (wocTxURL net explorerURL txid)))"

section \<open>Playing\<close>

fun show_balances :: "'w client \<Rightarrow> string list \<Rightarrow> ('w, unit) program" where
  "show_balances C [] = returnT (Inr ())"
| "show_balances C (wid # wids) =
     bindP (or_fatal (''balance '' @ wid) (cl_Balance C (own_wallet wid))) (\<lambda>_. show_balances C wids)"

definition showBalances :: "'w client \<Rightarrow> ('w, unit) program" where
  "showBalances C = show_balances C [playerWallet, houseWallet]"

text \<open>The bet is a Go \<^verbatim>\<open>int\<close>; its conversion to \<^verbatim>\<open>int64\<close> changes nothing.\<close>

definition playHand :: "'w client \<Rightarrow> (string \<Rightarrow> string) \<Rightarrow> string \<Rightarrow> bj_wallet \<Rightarrow> bj_wallet \<Rightarrow> string list \<Rightarrow> rng
    \<Rightarrow> ('w, string list \<times> rng) program" where
  "playHand C getenv explorerURL player house input r =
     (case askBet input of (bet, input1) \<Rightarrow>
      case newDeck r of (deck, r') \<Rightarrow>
      case play_cards deck input1 of
        None \<Rightarrow> fatal ''panic: runtime error: index out of range''
      | Some (playerHand, houseHand, rest, input2) \<Rightarrow>
          (let result = outcome (handValue playerHand) (handValue houseHand) in
           bindP (if result = ''player'' then
                    bindP (settleHand C getenv house (w_address player) bet playerHand houseHand ''player'') (\<lambda>txid.
                    bindP (printTxLink C explorerURL txid) (\<lambda>_. returnT (Inr ())))
                  else if result = ''house'' then
                    bindP (settleHand C getenv player (w_address house) bet playerHand houseHand ''house'') (\<lambda>txid.
                    bindP (printTxLink C explorerURL txid) (\<lambda>_. returnT (Inr ())))
                  else returnT (Inr ())) (\<lambda>_.
           bindP (showBalances C) (\<lambda>_.
           returnT (Inr (input2, r'))))))"

lemma play_cards_input: "play_cards deck input = Some (p, h, rest, input') \<Longrightarrow> length input' \<le> length input"
proof -
  have turn: "player_turn hand d input = Some (p', d', input') \<Longrightarrow> length input' \<le> length input" for hand d p' d'
    by (induction hand d input rule: player_turn.induct) (auto split: if_splits option.splits intro: le_SucI)
  assume "play_cards deck input = Some (p, h, rest, input')"
  then show ?thesis
    by (auto simp: play_cards_def split: list.splits option.splits dest: turn)
qed

lemma askBet_input: "askBet input = (bet, input') \<Longrightarrow> length input' \<le> length input"
  by (auto simp: askBet_def read_line_def Let_def split: list.splits)

lemma bindP_success:
  "bindP m f w = (Inr y, d, w') \<longleftrightarrow>
     (\<exists>x d1 w1 d2. m w = (Inr x, d1, w1) \<and> f x w1 = (Inr y, d2, w') \<and> d = d1 + d2)"
  by (auto simp: bindP_def bindT_apply returnT_apply split: prod.splits sum.splits)

lemma playHand_input:
  assumes "playHand C getenv url player house input r w = (Inr (input', r'), d, w')"
  shows "length input' \<le> length input"
proof -
  obtain bet input1 where bet: "askBet input = (bet, input1)" by (cases "askBet input")
  obtain p h rest where "play_cards (fst (newDeck r)) input1 = Some (p, h, rest, input')"
    using assms bet
    by (auto simp: playHand_def fatal_def returnT_apply bindP_success Let_def split: prod.splits option.splits)
  with bet play_cards_input askBet_input show ?thesis by (meson le_trans)
qed

text \<open>The loop of \<^verbatim>\<open>main\<close>: hands are played for as long as the player answers \<^verbatim>\<open>y\<close>.\<close>

function play_rounds :: "'w client \<Rightarrow> (string \<Rightarrow> string) \<Rightarrow> string \<Rightarrow> bj_wallet \<Rightarrow> bj_wallet \<Rightarrow> string list \<Rightarrow> rng
    \<Rightarrow> ('w, unit) program" where
  "play_rounds C getenv explorerURL player house input r w =
     (case playHand C getenv explorerURL player house input r w of
        (Inl msg, d, w') \<Rightarrow> (Inl msg, d, w')
      | (Inr (input1, r'), d, w') \<Rightarrow>
         (case input1 of
            [] \<Rightarrow> (Inr (), d, w')
          | line # input2 \<Rightarrow>
             if ToLower (TrimSpace line) \<noteq> ''y'' then (Inr (), d, w')
             else (case play_rounds C getenv explorerURL player house input2 r' w' of
                 (res, d', w'') \<Rightarrow> (res, d + d', w''))))"
  by pat_completeness auto
termination
  by (relation "measure (\<lambda>(C, getenv, explorerURL, player, house, input, r, w). length input)")
    (auto dest: playHand_input [OF sym] playHand_input)

declare play_rounds.simps [simp del]

text \<open>Dialling and a first call, until one answers or a minute has passed.\<close>

definition dial_pass :: "'w client \<Rightarrow> string \<Rightarrow> goerr option \<Rightarrow> ('w, unit + goerr option) timed" where
  "dial_pass C addr lastErr =
     bindT (cl_dial C addr) (\<lambda>r.
     case r of
       Inl e \<Rightarrow> returnT (Inr (Some e))
     | Inr _ \<Rightarrow> bindT (cl_Status C) (\<lambda>st. returnT (case st of Inr _ \<Rightarrow> Inl () | Inl e \<Rightarrow> Inr (Some e))))"

definition connect :: "'w client \<Rightarrow> string \<Rightarrow> ('w, unit result) timed" where
  "connect C addr =
     bindT (retry (60 * a_second) (dial_pass C addr) None) (\<lambda>r.
     returnT (case r of
         Inl _ \<Rightarrow> Inr ()
       | Inr lastErr \<Rightarrow> Inl (ErrWrap (''connect bsvms '' @ addr)
           (case lastErr of Some e \<Rightarrow> e | None \<Rightarrow> ErrText ''%!w(<nil>)''))))"

definition blackjack_main :: "'w client \<Rightarrow> (string \<Rightarrow> string) \<Rightarrow> string list \<Rightarrow> rng \<Rightarrow> ('w, unit) program" where
  "blackjack_main C getenv input r =
     (let addr = env getenv ''BSVMS_ADDR'' ''bsvms:50051'';
          explorerURL = TrimRight (env getenv ''WOC_EXPLORER_URL'' ''http://localhost:3002'') CHR ''/'' in
      bindT (connect C addr) (\<lambda>conn.
      case conn of
        Inl e \<Rightarrow> fatal (error_text e)
      | Inr _ \<Rightarrow>
          bindP (ensureWallet C playerWallet) (\<lambda>player.
          bindP (ensureWallet C houseWallet) (\<lambda>house.
          bindP (statusNetwork C) (\<lambda>net.
          bindP (if net = ''regtest'' then ensureRegtestPeer C getenv else returnT (Inr ())) (\<lambda>_.
          bindP (requireFunded C player) (\<lambda>_.
          bindP (requireFunded C house) (\<lambda>_.
          play_rounds C getenv explorerURL player house input r))))))))"

end
