(* ===== verification/Grpc_Client.thy ===== *)
theory Grpc_Client
  imports Blackjack Server_Props "HOL-Library.Stream"
begin

text \<open>
  The generated client of \<^verbatim>\<open>gen/bsvms/v1/bsvms_grpc.pb.go\<close> and the way of its calls to a running server. A
  connection takes a request and gives the reply of the server or an error; a stub names its request
  and unpacks its reply. gRPC itself is not part of the repository: what becomes of a call (it may be
  lost before or after the server has seen it), when it arrives, how long it takes, and which calls of
  other clients the server answers in between, is read off a stream of events that is left open.
\<close>

section \<open>Stubs\<close>

type_synonym 'w conn = "rpc_request \<Rightarrow> ('w, rpc_response result) timed"

text \<open>
  \<^verbatim>\<open>cc.Invoke\<close> with the method of the request, decoding into \<^verbatim>\<open>out\<close>. The server answers every method with
  its own message (\<open>invoke_served\<close>); any other would be a decoding error.
\<close>

definition Invoke :: "'w conn \<Rightarrow> rpc_request \<Rightarrow> (rpc_response \<Rightarrow> 'a option) \<Rightarrow> ('w, 'a result) timed" where
  "Invoke cc r out = bindT (cc r) (\<lambda>x. returnT (case x of
       Inl e \<Rightarrow> Inl e
     | Inr reply \<Rightarrow> (case out reply of None \<Rightarrow> Inl (ErrText ''cannot decode reply'') | Some v \<Rightarrow> Inr v)))"

definition client_Status :: "'w conn \<Rightarrow> ('w, StatusResponse result) timed" where
  "client_Status cc = Invoke cc Req_Status (\<lambda>y. case y of Resp_Status v \<Rightarrow> Some v | _ \<Rightarrow> None)"

definition client_ConnectPeer :: "'w conn \<Rightarrow> ConnectPeerRequest \<Rightarrow> ('w, unit result) timed" where
  "client_ConnectPeer cc q = Invoke cc (Req_ConnectPeer q) (\<lambda>y. case y of Resp_ConnectPeer \<Rightarrow> Some () | _ \<Rightarrow> None)"

definition client_CreateWallet :: "'w conn \<Rightarrow> TenantWallet \<Rightarrow> ('w, CreateWalletResponse result) timed" where
  "client_CreateWallet cc q = Invoke cc (Req_CreateWallet q) (\<lambda>y. case y of Resp_CreateWallet v \<Rightarrow> Some v | _ \<Rightarrow> None)"

definition client_GetWallet :: "'w conn \<Rightarrow> TenantWallet \<Rightarrow> ('w, WalletResponse result) timed" where
  "client_GetWallet cc q = Invoke cc (Req_GetWallet q) (\<lambda>y. case y of Resp_GetWallet v \<Rightarrow> Some v | _ \<Rightarrow> None)"

definition client_NewAddress :: "'w conn \<Rightarrow> TenantWallet \<Rightarrow> ('w, AddressResponse result) timed" where
  "client_NewAddress cc q = Invoke cc (Req_NewAddress q) (\<lambda>y. case y of Resp_NewAddress v \<Rightarrow> Some v | _ \<Rightarrow> None)"

definition client_Balance :: "'w conn \<Rightarrow> TenantWallet \<Rightarrow> ('w, BalanceResponse result) timed" where
  "client_Balance cc q = Invoke cc (Req_Balance q) (\<lambda>y. case y of Resp_Balance v \<Rightarrow> Some v | _ \<Rightarrow> None)"

definition client_ListUTXOs :: "'w conn \<Rightarrow> TenantWallet \<Rightarrow> ('w, ListUTXOsResponse result) timed" where
  "client_ListUTXOs cc q = Invoke cc (Req_ListUTXOs q) (\<lambda>y. case y of Resp_ListUTXOs v \<Rightarrow> Some v | _ \<Rightarrow> None)"

definition client_ProcessRawTx :: "'w conn \<Rightarrow> ProcessRawTxRequest \<Rightarrow> ('w, unit result) timed" where
  "client_ProcessRawTx cc q = Invoke cc (Req_ProcessRawTx q) (\<lambda>y. case y of Resp_ProcessRawTx \<Rightarrow> Some () | _ \<Rightarrow> None)"

definition client_ClearUTXOs :: "'w conn \<Rightarrow> TenantWallet \<Rightarrow> ('w, ClearUTXOsResponse result) timed" where
  "client_ClearUTXOs cc q = Invoke cc (Req_ClearUTXOs q) (\<lambda>y. case y of Resp_ClearUTXOs v \<Rightarrow> Some v | _ \<Rightarrow> None)"

definition client_SpendToOutputs :: "'w conn \<Rightarrow> SpendToOutputsRequest \<Rightarrow> ('w, SpendDetailResponse result) timed" where
  "client_SpendToOutputs cc q = Invoke cc (Req_SpendToOutputs q) (\<lambda>y. case y of Resp_SpendToOutputs v \<Rightarrow> Some v | _ \<Rightarrow> None)"

definition client_P2PKHOutput :: "'w conn \<Rightarrow> P2PKHOutputRequest \<Rightarrow> ('w, OutputSpec result) timed" where
  "client_P2PKHOutput cc q = Invoke cc (Req_P2PKHOutput q) (\<lambda>y. case y of Resp_P2PKHOutput v \<Rightarrow> Some v | _ \<Rightarrow> None)"

definition client_OpReturnOutput :: "'w conn \<Rightarrow> OpReturnOutputRequest \<Rightarrow> ('w, OutputSpec result) timed" where
  "client_OpReturnOutput cc q = Invoke cc (Req_OpReturnOutput q) (\<lambda>y. case y of Resp_OpReturnOutput v \<Rightarrow> Some v | _ \<Rightarrow> None)"

text \<open>\<^verbatim>\<open>NewBSVMSClient\<close>; \<open>dial\<close> is what \<^verbatim>\<open>grpc.NewClient\<close> says of an address.\<close>

definition NewBSVMSClient :: "(string \<Rightarrow> unit result) \<Rightarrow> 'w conn \<Rightarrow> 'w client" where
  "NewBSVMSClient dial cc =
     \<lparr>cl_dial = \<lambda>addr. returnT (dial addr), cl_Status = client_Status cc, cl_ConnectPeer = client_ConnectPeer cc,
      cl_GetWallet = client_GetWallet cc, cl_CreateWallet = client_CreateWallet cc, cl_NewAddress = client_NewAddress cc,
      cl_Balance = client_Balance cc, cl_P2PKHOutput = client_P2PKHOutput cc, cl_OpReturnOutput = client_OpReturnOutput cc,
      cl_SpendToOutputs = client_SpendToOutputs cc, cl_ListUTXOs = client_ListUTXOs cc,
      cl_ClearUTXOs = client_ClearUTXOs cc, cl_ProcessRawTx = client_ProcessRawTx cc\<rparr>"

lemmas stub_defs = client_Status_def client_ConnectPeer_def client_GetWallet_def client_CreateWallet_def client_NewAddress_def
  client_Balance_def client_P2PKHOutput_def client_OpReturnOutput_def client_SpendToOutputs_def client_ListUTXOs_def
  client_ClearUTXOs_def client_ProcessRawTx_def

section \<open>The way to the server\<close>

datatype fate = Delivered nat | Request_lost nat goerr | Reply_lost nat goerr

record net_event =
  ev_others :: "(host \<times> call_context \<times> rpc_request) list"
  ev_time :: int
  ev_fate :: fate

type_synonym 'n net = "'n service \<times> net_event stream"

text \<open>The server when a call arrives: the other calls were served, and it is later.\<close>

definition arrived :: "'n sdk \<Rightarrow> bool \<Rightarrow> net_event \<Rightarrow> 'n service \<Rightarrow> 'n service" where
  "arrived A intercept ev s = (serve_calls A intercept (ev_others ev) s)\<lparr>clock := ev_time ev\<rparr>"

definition net_call :: "'n sdk \<Rightarrow> bool \<Rightarrow> ('n, 'a) operation \<Rightarrow> ('n net, 'a result) timed" where
  "net_call A intercept m = (\<lambda>(s, evs).
     let s1 = arrived A intercept (shd evs) s in
     case ev_fate (shd evs) of
       Delivered d \<Rightarrow> (case m s1 of (r, s2) \<Rightarrow> (r, d, (s2, stl evs)))
     | Request_lost d e \<Rightarrow> (Inl e, d, (s1, stl evs))
     | Reply_lost d e \<Rightarrow> (Inl e, d, (snd (m s1), stl evs)))"

definition server_conn :: "'n sdk \<Rightarrow> bool \<Rightarrow> call_context \<Rightarrow> 'n net conn" where
  "server_conn A intercept ctx = (\<lambda>r. net_call A intercept (serve_unary A intercept ctx r))"

text \<open>The interceptor in front of a handler, when there is one.\<close>

definition guarded :: "bool \<Rightarrow> call_context \<Rightarrow> rpc_request \<Rightarrow> ('n, 'a) operation \<Rightarrow> ('n, 'a) operation" where
  "guarded intercept ctx r m =
     (if intercept then UnaryAuthInterceptor ctx (ApiMessage r) (full_method r) (\<lambda>_ _. m) else m)"

lemma guarded_run:
  "guarded intercept ctx r m s =
     (if intercept then case authorize ctx (full_method r) (ApiMessage r) s of Inl e \<Rightarrow> (Inl e, s) | Inr _ \<Rightarrow> m s else m s)"
  by (simp add: guarded_def UnaryAuthInterceptor_def bindE_apply authorizeE_def split: sum.split)

lemma guarded_mapE: "guarded intercept ctx r (mapE f m) = mapE f (guarded intercept ctx r m)"
  by (rule ext) (simp add: guarded_run mapE_def bindE_apply split: sum.split prod.split)

lemma invoke_net:
  assumes "\<And>x. out (f x) = Some (g x)"
  shows "bindT (net_call A i (mapE f m)) (\<lambda>x. returnT (case x of Inl e \<Rightarrow> Inl e
       | Inr reply \<Rightarrow> (case out reply of None \<Rightarrow> Inl (ErrText ''cannot decode reply'') | Some v \<Rightarrow> Inr v)))
    = net_call A i (mapE g m)"
  by (rule ext) (auto simp: net_call_def bindT_apply returnT_apply mapE_def bindE_apply returnE_def Let_def assms
      split: prod.split sum.split fate.split)

text \<open>A call over the connection is its handler behind the interceptor.\<close>

lemma invoke_served:
  assumes "unary_call A r = Some (mapE f m)" and "\<And>x. out (f x) = Some (g x)"
  shows "Invoke (server_conn A intercept ctx) r out = net_call A intercept (guarded intercept ctx r (mapE g m))"
proof -
  have "serve_unary A intercept ctx r = guarded intercept ctx r (mapE f m)"
    using assms(1) by (simp add: serve_unary_def guarded_def)
  with invoke_net [of out f g A intercept "guarded intercept ctx r m"] assms(2) show ?thesis
    by (simp add: Invoke_def server_conn_def guarded_mapE)
qed

lemma mapE_id: "mapE (\<lambda>x. x) m = m"
  by (rule ext) (simp add: mapE_def bindE_apply returnE_def split: prod.split sum.split)

definition net_client :: "'n sdk \<Rightarrow> bool \<Rightarrow> call_context \<Rightarrow> (string \<Rightarrow> unit result) \<Rightarrow> 'n net client" where
  "net_client A intercept ctx dial = NewBSVMSClient dial (server_conn A intercept ctx)"

lemma net_client_calls:
  "cl_dial (net_client A i ctx dial) addr = returnT (dial addr)"
  "cl_Status (net_client A i ctx dial) = net_call A i (guarded i ctx Req_Status (Status_rpc A))"
  "cl_ConnectPeer (net_client A i ctx dial) cq = net_call A i (guarded i ctx (Req_ConnectPeer cq) (mapE (\<lambda>_. ()) (ConnectPeer A cq)))"
  "cl_GetWallet (net_client A i ctx dial) q = net_call A i (guarded i ctx (Req_GetWallet q) (GetWallet A q))"
  "cl_CreateWallet (net_client A i ctx dial) q = net_call A i (guarded i ctx (Req_CreateWallet q) (CreateWallet A q))"
  "cl_NewAddress (net_client A i ctx dial) q = net_call A i (guarded i ctx (Req_NewAddress q) (NewAddress A q))"
  "cl_Balance (net_client A i ctx dial) q = net_call A i (guarded i ctx (Req_Balance q) (Balance A q))"
  "cl_P2PKHOutput (net_client A i ctx dial) pq = net_call A i (guarded i ctx (Req_P2PKHOutput pq) (P2PKHOutput A pq))"
  "cl_OpReturnOutput (net_client A i ctx dial) oq = net_call A i (guarded i ctx (Req_OpReturnOutput oq) (OpReturnOutput A oq))"
  "cl_SpendToOutputs (net_client A i ctx dial) sq = net_call A i (guarded i ctx (Req_SpendToOutputs sq) (SpendToOutputs A sq))"
  "cl_ListUTXOs (net_client A i ctx dial) q = net_call A i (guarded i ctx (Req_ListUTXOs q) (ListUTXOs A q))"
  "cl_ClearUTXOs (net_client A i ctx dial) q = net_call A i (guarded i ctx (Req_ClearUTXOs q) (ClearUTXOs A q))"
  "cl_ProcessRawTx (net_client A i ctx dial) rq = net_call A i (guarded i ctx (Req_ProcessRawTx rq) (mapE (\<lambda>_. ()) (ProcessRawTx A rq)))"
  by (simp_all add: net_client_def NewBSVMSClient_def stub_defs)
    (simp_all add: invoke_served [where g = "\<lambda>x. x"] invoke_served [where g = "\<lambda>_. ()"] mapE_id)

end
