(* ===== verification/Go_Float.thy ===== *)
theory Go_Float
  imports Go_Json "HOL-Library.Log_Nat"
begin

text \<open>
  Go's \<^verbatim>\<open>float64\<close> as the demo uses it: reading a JSON number, one multiplication or division, the conversion
  to \<^verbatim>\<open>int64\<close>, and printing. A finite \<^verbatim>\<open>float64\<close> is the rational it stands for; \<open>fl\<close> rounds a rational to
  the nearest one (IEEE 754 binary64, ties to even, subnormal numbers included). The lemmas bound the
  error of \<open>fl\<close> and show that an amount of up to fifteen digits is printed as exactly that amount.
\<close>

section \<open>Rounding\<close>

text \<open>The exponent of the leading digit of a positive rational, to a base.\<close>

definition leading :: "nat \<Rightarrow> rat \<Rightarrow> int" where
  "leading b x =
     (case quotient_of x of (p, q) \<Rightarrow>
      let k = int (floorlog b (nat p)) - int (floorlog b (nat q)) in
      if x < of_nat b powi k then k - 1 else k)"

text \<open>The nearest integer; of two equally near, the even one.\<close>

definition nearest_even :: "rat \<Rightarrow> int" where
  "nearest_even y =
     (let m = \<lfloor>y\<rfloor>; r = y - of_int m in
      if r < 1 / 2 then m else if 1 / 2 < r then m + 1 else if even m then m else m + 1)"

definition ulp_exp :: "rat \<Rightarrow> int" where
  "ulp_exp x = max (leading 2 x - 52) (- 1074)"

definition fl_pos :: "rat \<Rightarrow> rat" where
  "fl_pos x = of_int (nearest_even (x / 2 powi ulp_exp x)) * 2 powi ulp_exp x"

definition fl :: "rat \<Rightarrow> rat" where
  "fl x = (if x = 0 then 0 else if x < 0 then - fl_pos (- x) else fl_pos x)"

text \<open>
  \<^verbatim>\<open>int64(f)\<close> drops the fraction. Outside the range of \<^verbatim>\<open>int64\<close> the result is left to the implementation:
  the smallest \<^verbatim>\<open>int64\<close>, as on amd64.
\<close>

definition int64_of_float :: "rat \<Rightarrow> int" where
  "int64_of_float x =
     (let t = (if 0 \<le> x then \<lfloor>x\<rfloor> else \<lceil>x\<rceil>) in if in_int64 t then t else - (2 ^ 63))"

section \<open>Reading and printing\<close>

text \<open>The value of a JSON number.\<close>

definition exponent_value :: "string \<Rightarrow> int" where
  "exponent_value s =
     (case s of
        e # c # ds \<Rightarrow> if c = CHR ''-'' then - int (digits_val ds) else if c = CHR ''+'' then int (digits_val ds)
                      else int (digits_val (c # ds))
      | _ \<Rightarrow> 0)"

definition unsigned_value :: "string \<Rightarrow> rat" where
  "unsigned_value s =
     (let ip = takeWhile is_digit s; r = dropWhile is_digit s;
          (fp, e) = (case r of
             c # t \<Rightarrow> if c = CHR ''.'' then (takeWhile is_digit t, dropWhile is_digit t) else ([], r)
           | [] \<Rightarrow> ([], [])) in
      of_nat (digits_val (ip @ fp)) * 10 powi (exponent_value e - int (length fp)))"

definition decimal_value :: "string \<Rightarrow> rat" where
  "decimal_value s = (case s of c # t \<Rightarrow> if c = CHR ''-'' then - unsigned_value t else unsigned_value s | [] \<Rightarrow> 0)"

text \<open>\<^verbatim>\<open>strconv.ParseFloat\<close> on the literal of a JSON number.\<close>

definition ParseFloat :: "string \<Rightarrow> rat option" where
  "ParseFloat s = (let v = fl (decimal_value s) in if \<bar>v\<bar> < 2 ^ 1024 then Some v else None)"

text \<open>
  The shortest decimal that reads back as \<open>x\<close>: \<open>(m, k)\<close> stands for \<open>m\<close> times the \<open>k\<close>-th power of ten. Of two
  with the same number of digits the nearer one; seventeen digits are always enough.
\<close>

definition near_decimal :: "rat \<Rightarrow> nat \<Rightarrow> (int \<times> int) option" where
  "near_decimal x n =
     (let k = leading 10 x - int n + 1; m = \<lfloor>x / 10 powi k\<rfloor>;
          lo = of_int m * 10 powi k; hi = of_int (m + 1) * 10 powi k in
      if fl lo = x \<and> (fl hi = x \<longrightarrow> x - lo \<le> hi - x) then Some (m, k)
      else if fl hi = x then Some (m + 1, k) else None)"

function shortest_from :: "nat \<Rightarrow> rat \<Rightarrow> int \<times> int" where
  "shortest_from n x =
     (case near_decimal x n of
        Some r \<Rightarrow> r
      | None \<Rightarrow> if n < 17 then shortest_from (Suc n) x
                else (\<lfloor>x / 10 powi (leading 10 x - 16)\<rfloor>, leading 10 x - 16))"
  by pat_completeness auto
termination
  by (relation "measure (\<lambda>(n, _). 18 - n)") auto

declare shortest_from.simps [simp del]

function strip_zeros :: "nat \<Rightarrow> int \<Rightarrow> nat \<times> int" where
  "strip_zeros m k = (if 0 < m \<and> m mod 10 = 0 then strip_zeros (m div 10) (k + 1) else (m, k))"
  by pat_completeness auto
termination
  by (relation "measure (\<lambda>(m, _). m)") auto

declare strip_zeros.simps [simp del]

definition zeros :: "nat \<Rightarrow> string" where
  "zeros n = replicate n (digit_char 0)"

text \<open>\<^verbatim>\<open>strconv.AppendFloat\<close> with format \<^verbatim>\<open>f\<close> and with format \<^verbatim>\<open>e\<close>, given the digits.\<close>

definition fixed_text :: "string \<Rightarrow> int \<Rightarrow> string" where
  "fixed_text ds k =
     (if 0 \<le> k then ds @ zeros (nat k)
      else let n = nat (- k) in
        if n < length ds then take (length ds - n) ds @ ''.'' @ drop (length ds - n) ds
        else zeros 1 @ ''.'' @ zeros (n - length ds) @ ds)"

definition exp_text :: "string \<Rightarrow> int \<Rightarrow> string" where
  "exp_text ds k =
     (let e = int (length ds) + k - 1 in
      take 1 ds @ (if 1 < length ds then ''.'' @ drop 1 ds else [])
      @ (if e < 0 then ''e-'' else ''e+'') @ show_nat (nat \<bar>e\<bar>))"

text \<open>How \<^verbatim>\<open>encoding/json\<close> prints a \<^verbatim>\<open>float64\<close>: without an exponent from \<^verbatim>\<open>1e-6\<close> up to \<^verbatim>\<open>1e21\<close>.\<close>

definition float_text :: "rat \<Rightarrow> string" where
  "float_text x =
     (if x = 0 then zeros 1
      else let a = \<bar>x\<bar>; (m, k) = shortest_from 1 a; (m', k') = strip_zeros (nat m) k; ds = show_nat m' in
        (if x < 0 then ''-'' else [])
        @ (if a < fl (1 / 10 ^ 6) \<or> 10 ^ 21 \<le> a then exp_text ds k' else fixed_text ds k'))"

section \<open>The error of rounding\<close>

lemma leading_bounds:
  assumes "0 < x" and "1 < b"
  shows "of_nat b powi leading b x \<le> x \<and> x < of_nat b powi (leading b x + 1)"
proof -
  obtain p q where pq: "quotient_of x = (p, q)" by (cases "quotient_of x")
  have q: "0 < q" and x: "x = of_int p / of_int q"
    using quotient_of_denom_pos [OF pq] quotient_of_div [OF pq] by auto
  have p: "0 < p" using assms(1) x q by (simp add: zero_less_divide_iff)
  define i j where "i = floorlog b (nat p)" and "j = floorlog b (nat q)"
  have ij: "0 < i" "0 < j"
    using p q assms(2) by (auto simp: i_def j_def floorlog_def)
  let ?b = "of_nat b :: rat"
  have b: "0 < ?b" "?b \<noteq> 0" "1 < ?b" using assms(2) by auto
  have bounds: "?b ^ (floorlog b (nat r) - 1) \<le> of_int r \<and> of_int r < ?b ^ floorlog b (nat r)" if "0 < r" for r
  proof -
    have "b ^ (floorlog b (nat r) - 1) \<le> nat r" "nat r < b ^ floorlog b (nat r)"
      using floorlog_bounds [of "nat r" b] that assms(2) by auto
    then have "(of_nat (b ^ (floorlog b (nat r) - 1)) :: rat) \<le> of_nat (nat r)"
      "(of_nat (nat r) :: rat) < of_nat (b ^ floorlog b (nat r))"
      by (simp_all only: of_nat_le_iff of_nat_less_iff)
    with that show ?thesis by (simp add: of_nat_nat)
  qed
  have P: "?b ^ (i - 1) \<le> of_int p" "of_int p < ?b ^ i" and Q: "?b ^ (j - 1) \<le> of_int q" "of_int q < ?b ^ j"
    using bounds [OF p] bounds [OF q] by (auto simp: i_def j_def)
  have split: "?b powi (int i - int j - 1) = ?b ^ (i - 1) / ?b ^ j" "?b powi (int i - int j + 1) = ?b ^ i / ?b ^ (j - 1)"
    using ij b by (simp_all add: power_int_diff power_int_add of_nat_diff flip: power_int_of_nat)
  have lo: "?b powi (int i - int j - 1) \<le> x"
    unfolding split x using P Q q b p by (intro frac_le) auto
  have hi: "x < ?b powi (int i - int j + 1)"
    unfolding split x using P Q q b p by (intro frac_less) auto
  show ?thesis
    using lo hi by (auto simp: leading_def pq Let_def i_def [symmetric] j_def [symmetric] algebra_simps)
qed

lemma nearest_even_error: "\<bar>of_int (nearest_even y) - y\<bar> \<le> 1 / 2"
  using floor_correct [of y] by (auto simp: nearest_even_def Let_def abs_le_iff)

lemma fl_error:
  assumes "0 < x"
  shows "\<bar>fl x - x\<bar> \<le> 2 powi ulp_exp x / 2"
proof -
  let ?u = "2 powi ulp_exp x :: rat"
  have u: "0 < ?u" by simp
  have "fl x - x = (of_int (nearest_even (x / ?u)) - x / ?u) * ?u"
    using assms u by (simp add: fl_def fl_pos_def left_diff_distrib)
  then have "\<bar>fl x - x\<bar> = \<bar>of_int (nearest_even (x / ?u)) - x / ?u\<bar> * ?u"
    using u by (simp add: abs_mult)
  also have "\<dots> \<le> 1 / 2 * ?u"
    using nearest_even_error u by (intro mult_right_mono) auto
  finally show ?thesis by simp
qed

text \<open>A normal number is rounded with a relative error of at most \<open>2 ^ -53\<close>.\<close>

lemma fl_relative:
  assumes "2 powi (- 1022) \<le> x"
  shows "\<bar>fl x - x\<bar> \<le> x / 2 ^ 53"
proof -
  have x: "0 < x" using assms by (meson less_le_trans zero_less_numeral zero_less_power_int)
  note b = leading_bounds [OF x, of 2, simplified]
  have "2 powi (- 1022) < (2 :: rat) powi (leading 2 x + 1)" using assms b by linarith
  then have "- 1022 < leading 2 x + 1"
    by (metis linorder_not_less one_le_numeral power_int_increasing)
  then have "ulp_exp x = leading 2 x - 52" by (simp add: ulp_exp_def)
  then have "(2 :: rat) powi ulp_exp x = 2 powi leading 2 x / 2 ^ 52"
    by (simp add: power_int_diff)
  with fl_error [OF x] b show ?thesis by simp
qed

lemma amount_normal:
  assumes "1 / 10 ^ 17 \<le> (x :: rat)" and "e \<le> - 57"
  shows "2 powi e \<le> x"
proof -
  have "(2 :: rat) powi e \<le> 2 powi (- 57)" using assms(2) by (intro power_int_increasing) auto
  also have "\<dots> \<le> 1 / 10 ^ 17" by (simp add: power_int_minus)
  finally show ?thesis using assms(1) by simp
qed

text \<open>An amount in coins turned into satoshis is short by one at most, and never too large.\<close>

lemma satoshis_of_coins:
  assumes "0 \<le> s" and "s \<le> 2 ^ 51"
  shows "int64_of_float (fl (fl (of_int s / 10 ^ 8) * 10 ^ 8)) \<in> {s - 1, s}"
proof (cases "s = 0")
  case True
  then show ?thesis by (simp add: fl_def int64_of_float_def in_int64_def)
next
  case False
  define v where "v = (of_int s / 10 ^ 8 :: rat)"
  have s: "1 \<le> s" "(1 :: rat) \<le> of_int s" "of_int s \<le> (2 :: rat) ^ 51"
    using assms False of_int_le_iff [of s "2 ^ 51", where 'a = rat] by auto
  have v: "1 / 10 ^ 8 \<le> v" "v * 10 ^ 8 = of_int s" using s by (simp_all add: v_def)
  have e1: "\<bar>fl v - v\<bar> \<le> v / 2 ^ 53" using v by (intro fl_relative amount_normal) simp_all
  define y where "y = fl v * 10 ^ 8"
  have y: "\<bar>y - of_int s\<bar> \<le> of_int s / 2 ^ 53"
    using e1 unfolding y_def v(2) [symmetric] abs_le_iff by auto
  have "1 / 2 \<le> y" using y s(2) unfolding abs_le_iff by auto
  then have e2: "\<bar>fl y - y\<bar> \<le> y / 2 ^ 53" by (intro fl_relative amount_normal) simp_all
  have b: "of_int (s - 1) < fl y" "fl y < of_int (s + 1)"
    using y e2 s(2,3) unfolding abs_le_iff by auto
  then have "\<lfloor>fl y\<rfloor> = s - 1 \<or> \<lfloor>fl y\<rfloor> = s" by (cases "fl y < of_int s") (auto simp: floor_eq_iff)
  then obtain t where t: "\<lfloor>fl y\<rfloor> = t" "t \<in> {s - 1, s}" by blast
  have "0 \<le> fl y" using b(1) s(1) by (meson le_less_trans less_imp_le of_int_0_le_iff diff_ge_0_iff_ge)
  then have "int64_of_float (fl y) = t"
    using assms s(1) t by (auto simp: int64_of_float_def in_int64_def)
  with t(2) show ?thesis by (simp only: y_def v_def)
qed

section \<open>Amounts are printed exactly\<close>

lemma fl_pos_pos: "2 powi (- 1022) \<le> x \<Longrightarrow> 0 < fl x"
proof -
  assume x: "2 powi (- 1022) \<le> x"
  then have "0 < x" by (meson less_le_trans zero_less_numeral zero_less_power_int)
  with fl_relative [OF x] show "0 < fl x" unfolding abs_le_iff by (simp add: field_simps)
qed

lemma fl_normal:
  assumes "0 < w" and "2 powi (- 1020) \<le> fl w"
  shows "2 powi (- 1022) \<le> w"
proof (rule ccontr)
  define u where "u = (2 powi (- 1022) :: rat)"
  assume "\<not> 2 powi (- 1022) \<le> w"
  then have w: "w < u" by (simp add: u_def)
  have "2 powi leading 2 w \<le> w" using leading_bounds [OF assms(1), of 2] by simp
  with w have "2 powi leading 2 w < (2 :: rat) powi (- 1022)" unfolding u_def by linarith
  then have "leading 2 w < - 1022" by (metis linorder_not_less one_le_numeral power_int_increasing)
  then have "ulp_exp w = - 1074" by (simp add: ulp_exp_def)
  then have "2 powi ulp_exp w \<le> u" unfolding u_def by (intro power_int_increasing) simp_all
  then have "fl w < 4 * u" using fl_error [OF assms(1)] w assms(1) unfolding abs_le_iff by linarith
  moreover have "(2 :: rat) powi (- 1020) = 2 powi 2 * 2 powi (- 1022)" by (subst power_int_add [symmetric]) simp_all
  ultimately show False using assms(2) by (simp add: u_def)
qed

text \<open>Two decimals of at most fifteen digits that are rounded alike are equal.\<close>

lemma decimals_apart:
  fixes u :: rat
  assumes "fl (of_int i * u) = fl (of_int j * u)" and "0 < u" and "i \<le> 10 ^ 15"
    and "2 powi (- 1022) \<le> of_int i * u" and "2 powi (- 1022) \<le> of_int j * u"
  shows "i = j"
proof (rule ccontr)
  assume "i \<noteq> j"
  let ?i = "of_int i :: rat" and ?j = "of_int j :: rat"
  have ne: "?i + 1 \<le> ?j \<or> ?j + 1 \<le> ?i"
    using \<open>i \<noteq> j\<close> by (metis add1_zle_eq linorder_neqE of_int_1 of_int_add of_int_le_iff)
  have "\<bar>?i * u - ?j * u\<bar> \<le> ?i * u / 2 ^ 53 + ?j * u / 2 ^ 53"
    using fl_relative [OF assms(4)] fl_relative [OF assms(5)] assms(1) unfolding abs_le_iff by linarith
  then have "\<bar>?i - ?j\<bar> * u \<le> ((?i + ?j) / 2 ^ 53) * u"
    using assms(2) by (simp add: left_diff_distrib [symmetric] abs_mult add_divide_distrib distrib_right)
  then have "\<bar>?i - ?j\<bar> \<le> (?i + ?j) / 2 ^ 53" using assms(2) by simp
  moreover have "?i \<le> 10 ^ 15" using of_int_le_iff [of i "10 ^ 15", where 'a = rat] assms(3) by simp
  ultimately show False using ne by (auto simp: abs_le_iff)
qed

text \<open>What \<open>near_decimal\<close> finds.\<close>

lemma near_decimal_sound:
  assumes "near_decimal x n = Some (m, k)" and "0 < x"
  shows "fl (of_int m * 10 powi k) = x \<and> 0 \<le> m \<and> m \<le> 10 ^ n \<and> k = leading 10 x - int n + 1"
proof -
  let ?k = "leading 10 x - int n + 1"
  have u: "(0 :: rat) < 10 powi ?k" by simp
  have "x < 10 powi (leading 10 x + 1)" using leading_bounds [OF assms(2), of 10] by simp
  also have "\<dots> = 10 ^ n * 10 powi ?k" by (simp flip: power_int_of_nat power_int_add)
  finally have "x / 10 powi ?k < 10 ^ n" using u by (simp add: pos_divide_less_eq)
  then have "\<lfloor>x / 10 powi ?k\<rfloor> < 10 ^ n" by (simp add: floor_less_iff)
  moreover have "0 \<le> \<lfloor>x / 10 powi ?k\<rfloor>" using assms(2) by simp
  ultimately show ?thesis
    using assms(1) by (auto simp: near_decimal_def Let_def split: if_splits)
qed

lemma near_decimal_complete:
  assumes "fl v = x" and "0 < x" and "v = of_int j * 10 powi (leading 10 x - int n + 1)"
    and "\<bar>v - x\<bar> < 10 powi (leading 10 x - int n + 1)"
  shows "near_decimal x n \<noteq> None"
proof -
  let ?u = "10 powi (leading 10 x - int n + 1) :: rat"
  have u: "0 < ?u" by simp
  have "\<bar>of_int j - x / ?u\<bar> = \<bar>v - x\<bar> / ?u"
    using u unfolding assms(3) by (simp add: field_simps flip: abs_mult_pos)
  then have "\<bar>of_int j - x / ?u\<bar> < 1" using assms(4) u by simp
  then have "\<lfloor>x / ?u\<rfloor> = j \<or> \<lfloor>x / ?u\<rfloor> + 1 = j" by linarith
  then show ?thesis
    using assms(1) unfolding assms(3) near_decimal_def Let_def by (auto simp del: of_int_add)
qed

lemma shortest_from_sound:
  assumes "near_decimal x N \<noteq> None" and "n \<le> N" and "N \<le> 17"
  shows "\<exists>n' \<le> N. near_decimal x n' = Some (shortest_from n x)"
  using assms(2)
proof (induction "N - n" arbitrary: n)
  case 0
  with assms(1) show ?case by (subst shortest_from.simps) (auto split: option.split)
next
  case (Suc d)
  then show ?case
  proof (cases "near_decimal x n")
    case None
    with Suc have "n \<noteq> N" using assms(1) by auto
    with None Suc show ?thesis using assms(3) by (subst shortest_from.simps) auto
  next
    case (Some r)
    with Suc show ?thesis by (subst shortest_from.simps) auto
  qed
qed

text \<open>The digits printed for an amount are those of the amount.\<close>

text \<open>Fifteen digits are enough for an amount.\<close>

lemma amount_float:
  assumes "0 < s" and "s < 10 ^ 15"
  shows "2 powi (- 1022) \<le> (of_int s / 10 ^ 8 :: rat)" and "0 < fl (of_int s / 10 ^ 8)"
    and "fl (of_int s / 10 ^ 8) < 10 ^ 7" and "1 / 10 ^ 17 \<le> fl (of_int s / 10 ^ 8)"
    and "\<bar>fl (of_int s / 10 ^ 8) - of_int s / 10 ^ 8\<bar> \<le> of_int s / 10 ^ 8 / 2 ^ 53"
proof -
  define v where "v = (of_int s / 10 ^ 8 :: rat)"
  have s: "1 \<le> (of_int s :: rat)" "of_int s \<le> (10 :: rat) ^ 15 - 1"
    using assms of_int_le_iff [of s "10 ^ 15 - 1", where 'a = rat] by auto
  have vn: "2 powi (- 1022) \<le> v" using s by (intro amount_normal) (simp_all add: v_def)
  then show "2 powi (- 1022) \<le> (of_int s / 10 ^ 8 :: rat)" unfolding v_def .
  show "0 < fl (of_int s / 10 ^ 8)" using fl_pos_pos [OF vn] unfolding v_def .
  have err: "\<bar>fl v - v\<bar> \<le> v / 2 ^ 53" by (rule fl_relative [OF vn])
  then show "\<bar>fl (of_int s / 10 ^ 8) - of_int s / 10 ^ 8\<bar> \<le> of_int s / 10 ^ 8 / 2 ^ 53" unfolding v_def .
  show "fl (of_int s / 10 ^ 8) < 10 ^ 7" "1 / 10 ^ 17 \<le> fl (of_int s / 10 ^ 8)"
    using err s unfolding v_def abs_le_iff by auto
qed

lemma near_amount:
  assumes "0 < s" and "s < 10 ^ 15"
  shows "near_decimal (fl (of_int s / 10 ^ 8)) 15 \<noteq> None"
proof -
  define v where "v = (of_int s / 10 ^ 8 :: rat)"
  define x where "x = fl v"
  note amount = amount_float [OF assms, folded v_def, folded x_def]
  have "10 powi leading 10 x < (10 :: rat) powi 7" using leading_bounds [OF amount(2), of 10] amount(3) by simp
  then have lead: "leading 10 x < 7" by (metis linorder_not_less one_le_numeral power_int_increasing)
  let ?k = "leading 10 x - 14"
  have grid: "v = of_int (s * 10 ^ nat (- 8 - ?k)) * 10 powi ?k"
  proof -
    have "(10 :: rat) ^ nat (- 8 - ?k) * 10 powi ?k = 10 powi (- 8)"
      using lead by (simp flip: power_int_of_nat power_int_add)
    also have "\<dots> = 1 / 10 ^ 8" by (simp add: power_int_minus)
    finally have "of_int s * (10 ^ nat (- 8 - ?k) * 10 powi ?k) = v" by (simp add: v_def)
    then show ?thesis by (simp only: of_int_mult of_int_power of_int_numeral mult.assoc)
  qed
  have close: "\<bar>v - x\<bar> < 10 powi ?k"
  proof -
    have "x < 10 powi (leading 10 x + 1)" using leading_bounds [OF amount(2), of 10] by simp
    also have "\<dots> = 10 powi 15 * 10 powi ?k" by (subst power_int_add [symmetric]) (simp_all add: add.commute)
    finally have "x < 10 powi 15 * 10 powi ?k" .
    moreover define u where "u = (10 powi ?k :: rat)"
    ultimately show ?thesis using amount(5) unfolding u_def [symmetric] abs_le_iff abs_less_iff by auto
  qed
  have k15: "leading 10 x - int 15 + 1 = ?k" by simp
  from near_decimal_complete [of v x _ 15, unfolded k15, OF x_def [symmetric] amount(2) grid close] show ?thesis
    unfolding x_def v_def .
qed

text \<open>No other decimal with as few digits is rounded to the same float.\<close>

lemma amount_unique:
  assumes "0 < s" and "s < 10 ^ 15" and "0 < m" and "m \<le> 10 ^ 15"
    and "fl (of_int m * 10 powi k) = fl (of_int s / 10 ^ 8)"
  shows "of_int m * 10 powi k = (of_int s / 10 ^ 8 :: rat)"
proof -
  define v where "v = (of_int s / 10 ^ 8 :: rat)"
  note amount = amount_float [OF assms(1,2), folded v_def]
  define k' where "k' = min k (- 8)"
  define u where "u = (10 powi k' :: rat)"
  define i j where "i = s * 10 ^ nat (- 8 - k')" and "j = m * 10 ^ nat (k - k')"
  have scale: "of_int r * 10 powi l = of_int (r * 10 ^ nat (l - k')) * u" if "k' \<le> l" for r l
  proof -
    have "(10 :: rat) powi l = 10 ^ nat (l - k') * u"
      unfolding u_def using that by (simp flip: power_int_of_nat power_int_add)
    then show ?thesis by (simp only: of_int_mult of_int_power of_int_numeral mult.assoc)
  qed
  have v: "v = of_int s * 10 powi (- 8)" by (simp add: v_def power_int_minus)
  have vi: "v = of_int i * u" unfolding v i_def by (rule scale) (simp add: k'_def)
  have mj: "of_int m * 10 powi k = of_int j * u" unfolding j_def by (rule scale) (simp add: k'_def)
  have fls: "fl (of_int i * u) = fl v" "fl (of_int j * u) = fl v" using assms(5) vi mj by (simp_all add: v_def)
  have x': "2 powi (- 1020) \<le> fl v" using amount(4) by (rule amount_normal) simp
  have j: "0 < of_int j * u" using assms(3) by (simp add: j_def u_def)
  have jn: "2 powi (- 1022) \<le> of_int j * u" using fl_normal [OF j] fls(2) x' by simp
  have "i = j"
  proof (cases "k < - 8")
    case True
    then have "j \<le> 10 ^ 15" using assms(4) by (simp add: j_def k'_def)
    then show ?thesis
      using decimals_apart [of j u i] fls jn amount(1) unfolding vi by (simp add: u_def)
  next
    case False
    then have "i \<le> 10 ^ 15" using assms(2) by (simp add: i_def k'_def)
    then show ?thesis
      using decimals_apart [of i u j] fls jn amount(1) unfolding vi by (simp add: u_def)
  qed
  with vi mj show ?thesis by (simp add: v_def)
qed

lemma shortest_amount:
  assumes "0 < s" and "s < 10 ^ 15" and "shortest_from 1 (fl (of_int s / 10 ^ 8)) = (m, k)"
  shows "0 < m \<and> of_int m * 10 powi k = (of_int s / 10 ^ 8 :: rat)"
proof -
  let ?x = "fl (of_int s / 10 ^ 8)"
  have x: "0 < ?x" using amount_float(2) [OF assms(1,2)] .
  from shortest_from_sound [OF near_amount [OF assms(1,2)], of 1] obtain n where n: "n \<le> 15" "near_decimal ?x n = Some (m, k)"
    using assms(3) by auto
  note found = near_decimal_sound [OF n(2) x]
  have "m \<le> 10 ^ 15" using found power_increasing [OF n(1), of "10 :: int"] by linarith
  moreover have "0 < m" using found x by (cases "m = 0") (auto simp: fl_def)
  ultimately show ?thesis using amount_unique [OF assms(1,2)] found by blast
qed

section \<open>The printed text\<close>

lemma strip_zeros_value:
  "strip_zeros m k = (m', k') \<Longrightarrow> of_nat m' * 10 powi k' = (of_nat m * 10 powi k :: rat)"
proof (induction m k rule: strip_zeros.induct)
  case (1 m k)
  show ?case
  proof (cases "0 < m \<and> m mod 10 = 0")
    case True
    then have "of_nat m' * 10 powi k' = (of_nat (m div 10) * 10 powi (k + 1) :: rat)"
      using 1 by (simp add: strip_zeros.simps [of m])
    also have "\<dots> = of_nat (m div 10 * 10) * 10 powi k" by (simp add: power_int_add)
    also have "m div 10 * 10 = m" using True by (simp add: mod_0_imp_dvd)
    finally show ?thesis .
  next
    case False
    with "1.prems" show ?thesis by (auto simp: strip_zeros.simps [of m])
  qed
qed

lemma digits_val_zeros: "digits_val (zeros n @ ds) = digits_val ds" "digits_val (ds @ zeros n) = digits_val ds * 10 ^ n"
proof -
  show "digits_val (zeros n @ ds) = digits_val ds"
    by (induction n) (simp_all add: zeros_def digits_val_def)
  have "zeros (Suc n) = zeros n @ [digit_char 0]" for n by (simp add: zeros_def replicate_append_same)
  then show "digits_val (ds @ zeros n) = digits_val ds * 10 ^ n"
  proof (induction n)
    case (Suc n)
    then show ?case using digits_val_snoc [of "ds @ zeros n" "digit_char 0"] by simp
  qed (simp add: zeros_def)
qed

lemma zeros_digits [simp]: "list_all is_digit (zeros n)" and length_zeros [simp]: "length (zeros n) = n"
  by (auto simp: zeros_def list_all_iff)

lemma cut_digits:
  assumes "list_all is_digit ds" and "t = [] \<or> \<not> is_digit (hd t)"
  shows "takeWhile is_digit (ds @ t) = ds" "dropWhile is_digit (ds @ t) = t"
  using assms by (cases t; simp add: list_all_iff takeWhile_append dropWhile_append; metis)+

lemma not_digits [simp]: "\<not> is_digit CHR ''.''" "\<not> is_digit CHR ''e''"
  by (simp_all add: is_digit_def)

lemma value_whole:
  assumes "list_all is_digit ds"
  shows "unsigned_value ds = of_nat (digits_val ds)"
proof -
  have tw: "takeWhile is_digit ds = ds" "dropWhile is_digit ds = []"
    using cut_digits [OF assms, of "[]"] by simp_all
  show ?thesis unfolding unsigned_value_def Let_def tw by (simp add: exponent_value_def)
qed

lemma value_point:
  assumes "list_all is_digit ip" and "list_all is_digit fp" and "t = [] \<or> hd t = CHR ''e''"
  shows "unsigned_value (ip @ ''.'' @ fp @ t) = of_nat (digits_val (ip @ fp)) * 10 powi (exponent_value t - int (length fp))"
proof -
  have t: "t = [] \<or> \<not> is_digit (hd t)" using assms(3) by auto
  show ?thesis
    using cut_digits [OF assms(1), of "CHR ''.'' # fp @ t"] cut_digits [OF assms(2) t] by (simp add: unsigned_value_def)
qed

lemma value_plain_exp:
  assumes "list_all is_digit ip" and "t \<noteq> []" and "hd t = CHR ''e''"
  shows "unsigned_value (ip @ t) = of_nat (digits_val ip) * 10 powi exponent_value t"
  using cut_digits [OF assms(1), of t] assms by (cases t) (auto simp: unsigned_value_def)

lemma fixed_text_value:
  assumes "list_all is_digit ds"
  shows "unsigned_value (fixed_text ds k) = of_nat (digits_val ds) * 10 powi k"
proof (cases "0 \<le> k")
  case True
  with assms show ?thesis
    by (simp add: fixed_text_def value_whole digits_val_zeros flip: power_int_of_nat)
next
  case False
  define n where "n = nat (- k)"
  have k: "k = - int n" using False by (simp add: n_def)
  show ?thesis
  proof (cases "n < length ds")
    case True
    have "list_all is_digit (take i ds)" "list_all is_digit (drop i ds)" for i
      using assms by (auto simp: list_all_iff dest: in_set_takeD in_set_dropD)
    with True False show ?thesis
      using value_point [of "take (length ds - n) ds" "drop (length ds - n) ds" "[]"]
      by (simp add: fixed_text_def n_def [symmetric] k exponent_value_def)
  next
    case short: False
    with assms False show ?thesis
      using value_point [of "zeros 1" "zeros (n - length ds) @ ds" "[]"] digits_val_zeros(1) [of 1 "zeros (n - length ds) @ ds"]
      by (simp add: fixed_text_def n_def [symmetric] k exponent_value_def digits_val_zeros)
  qed
qed

lemma exp_text_value:
  assumes "list_all is_digit ds" and "ds \<noteq> []"
  shows "unsigned_value (exp_text ds k) = of_nat (digits_val ds) * 10 powi k"
proof -
  obtain c cs where ds: "ds = c # cs" using assms(2) by (cases ds) auto
  define e where "e = int (length cs) + k"
  define t where "t = (if e < 0 then ''e-'' else ''e+'') @ show_nat (nat \<bar>e\<bar>)"
  have t: "t \<noteq> []" "hd t = CHR ''e''" "exponent_value t = e"
    by (auto simp: t_def exponent_value_def digits_val_show_nat)
  show ?thesis
  proof (cases "cs = []")
    case True
    then have "exp_text ds k = [c] @ t" by (simp add: exp_text_def ds t_def e_def Let_def)
    then show ?thesis
      using value_plain_exp [OF _ t(1,2), of "[c]"] assms(1) by (simp add: ds True t(3) e_def)
  next
    case False
    then have "exp_text ds k = [c] @ ''.'' @ cs @ t" by (simp add: exp_text_def ds t_def e_def Let_def)
    then show ?thesis
      using value_point [of "[c]" cs t] assms(1) t by (simp add: ds e_def)
  qed
qed

lemma texts_start_with_digit:
  assumes "list_all is_digit ds" and "ds \<noteq> []"
  shows "\<exists>c t. fixed_text ds k = c # t \<and> is_digit c" "\<exists>c t. exp_text ds k = c # t \<and> is_digit c"
proof -
  obtain c cs where ds: "ds = c # cs" "is_digit c" using assms by (cases ds) auto
  then show "\<exists>c t. exp_text ds k = c # t \<and> is_digit c" by (simp add: exp_text_def Let_def)
  have "take (length ds - n) ds = c # take (length ds - n - 1) cs" if "n < length ds" for n
    using that by (simp add: ds take_Cons')
  with ds show "\<exists>c t. fixed_text ds k = c # t \<and> is_digit c"
    by (auto simp: fixed_text_def Let_def zeros_def)
qed

text \<open>The text of an amount stands for the amount, to the last satoshi.\<close>

lemma float_text_amount:
  assumes "0 \<le> s" and "s < 10 ^ 15"
  shows "decimal_value (float_text (fl (of_int s / 10 ^ 8))) = of_int s / 10 ^ 8"
proof (cases "s = 0")
  case True
  have "digit_char 0 \<noteq> CHR ''-''" by (simp add: digit_char_def char_of_def)
  then show ?thesis using True value_whole [OF zeros_digits, of 1]
    by (simp add: float_text_def fl_def decimal_value_def zeros_def digits_val_def)
next
  case False
  let ?x = "fl (of_int s / 10 ^ 8)"
  obtain m k where mk: "shortest_from 1 ?x = (m, k)" by (cases "shortest_from 1 ?x")
  obtain m' k' where strip: "strip_zeros (nat m) k = (m', k')" by (cases "strip_zeros (nat m) k")
  have m: "0 < m" "of_int m * 10 powi k = (of_int s / 10 ^ 8 :: rat)"
    using shortest_amount [OF _ _ mk] assms False by auto
  have "1 \<le> (of_int s :: rat)" using assms False by auto
  then have x: "0 < ?x" by (intro fl_pos_pos amount_normal) simp_all
  define out where "out = (if ?x < fl (1 / 10 ^ 6) \<or> 10 ^ 21 \<le> ?x then exp_text (show_nat m') k' else fixed_text (show_nat m') k')"
  have "unsigned_value out = of_nat m' * 10 powi k'"
    using exp_text_value [OF show_nat_digits] fixed_text_value [OF show_nat_digits] by (simp add: out_def digits_val_show_nat)
  also have "\<dots> = of_int s / 10 ^ 8" using strip_zeros_value [OF strip] m by (simp add: of_nat_nat)
  finally have v: "unsigned_value out = of_int s / 10 ^ 8" .
  have "float_text ?x = out" using x mk strip by (simp add: float_text_def out_def Let_def)
  moreover obtain c t where "out = c # t" "is_digit c"
    using texts_start_with_digit [OF show_nat_digits show_nat_not_Nil] unfolding out_def by metis
  ultimately show ?thesis using v digit_not_sign [of c] by (simp add: decimal_value_def)
qed

end
