(* ===== verification/Blackjack_Fund.thy ===== *)
theory Blackjack_Fund
  imports Blackjack Go_Float
begin

text \<open>
  The funding tool of \<^verbatim>\<open>cmd/blackjack/main.go\<close>: the JSON-RPC client \<^verbatim>\<open>nodeRPC\<close> of a Bitcoin node, its waits,
  and \<^verbatim>\<open>fundMain\<close>, which tops the two wallets of the demo up to a fixed amount. The node, as it is reached
  over HTTP, is the parameter \<open>Do\<close>: it takes a request, takes time, and gives an error (of building the
  request, sending it or reading the answer) or a status and a body.
\<close>

section \<open>The JSON-RPC client\<close>

record http_request =
  hr_method :: string
  hr_url :: string
  hr_headers :: "(string \<times> string) list"
  hr_body :: string
  hr_timeout :: nat

type_synonym 'w http = "http_request \<Rightarrow> ('w, (int \<times> string) result) timed"

record nodeRPC =
  rpc_url :: string
  rpc_username :: string
  rpc_password :: string
  rpc_timeout :: nat

text \<open>The keys of a marshalled map are sorted; a nil slice is \<^verbatim>\<open>null\<close>.\<close>

definition rpc_body :: "string \<Rightarrow> json list option \<Rightarrow> string" where
  "rpc_body meth params = json_Marshal (JObj
     [(''id'', JStr ''blackjack''), (''jsonrpc'', JStr ''1.0''), (''method'', JStr meth),
      (''params'', case params of None \<Rightarrow> JNull | Some ps \<Rightarrow> JArr ps)])"

definition node_request :: "nodeRPC \<Rightarrow> string \<Rightarrow> json list option \<Rightarrow> http_request" where
  "node_request N meth params =
     \<lparr>hr_method = ''POST'', hr_url = rpc_url N,
      hr_headers = [(''Authorization'', ''Basic '' @ Std_EncodeToString (bytes_of_string (rpc_username N @ '':'' @ rpc_password N))),
        (''Content-Type'', ''application/json'')],
      hr_body = rpc_body meth params, hr_timeout = rpc_timeout N\<rparr>"

text \<open>
  The envelope of an answer. \<^verbatim>\<open>json.RawMessage\<close> keeps a value unread, \<^verbatim>\<open>null\<close> included; a member that is
  missing leaves it empty.
\<close>

record rpc_envelope =
  env_Result :: "json option"
  env_Error :: "(int \<times> string) option"

fun get_raw :: "string \<Rightarrow> json option \<Rightarrow> (string \<times> json) list \<Rightarrow> json option" where
  "get_raw name acc [] = acc"
| "get_raw name acc ((k, v) # ms) = get_raw name (if key_matches name k then Some v else acc) ms"

fun get_rpc_error :: "(int \<times> string) option \<Rightarrow> (string \<times> json) list \<Rightarrow> (int \<times> string) option result" where
  "get_rpc_error acc [] = Inr acc"
| "get_rpc_error acc ((k, v) # ms) =
     (if key_matches ''error'' k then
        (case v of
           JNull \<Rightarrow> get_rpc_error None ms
         | JObj es \<Rightarrow>
             (let (code, msg) = (case acc of None \<Rightarrow> (0, []) | Some x \<Rightarrow> x) in
              bindR (get_int64 ''code'' code es) (\<lambda>code'.
              bindR (get_string ''message'' msg es) (\<lambda>msg'.
              get_rpc_error (Some (code', msg')) ms)))
         | _ \<Rightarrow> Inl UnmarshalTypeError)
      else get_rpc_error acc ms)"

definition unmarshal_envelope :: "string \<Rightarrow> rpc_envelope result" where
  "unmarshal_envelope body =
     (case json_parse body of
        None \<Rightarrow> Inl JsonSyntaxError
      | Some (JObj ms) \<Rightarrow>
          bindR (get_rpc_error None ms) (\<lambda>e. Inr \<lparr>env_Result = get_raw ''result'' None ms, env_Error = e\<rparr>)
      | Some JNull \<Rightarrow> Inr \<lparr>env_Result = None, env_Error = None\<rparr>
      | Some _ \<Rightarrow> Inl UnmarshalTypeError)"

text \<open>
  What the caller does with the result: nothing (a nil pointer), or \<^verbatim>\<open>json.Unmarshal\<close> into a variable, in
  which \<^verbatim>\<open>null\<close> leaves the zero value it has.
\<close>

definition no_result :: "json option \<Rightarrow> unit result" where
  "no_result r = Inr ()"

definition into :: "(json \<Rightarrow> 'a result) \<Rightarrow> json option \<Rightarrow> 'a result" where
  "into dec r = (case r of None \<Rightarrow> Inl (ErrText ''unexpected end of JSON input'') | Some j \<Rightarrow> dec j)"

fun a_float :: "json \<Rightarrow> rat result" where
  "a_float (JNum l) = (case ParseFloat l of Some v \<Rightarrow> Inr v | None \<Rightarrow> Inl UnmarshalTypeError)"
| "a_float JNull = Inr 0"
| "a_float _ = Inl UnmarshalTypeError"

fun an_int :: "json \<Rightarrow> int result" where
  "an_int (JNum l) = (case ParseInt l of Some i \<Rightarrow> Inr i | None \<Rightarrow> Inl UnmarshalTypeError)"
| "an_int JNull = Inr 0"
| "an_int _ = Inl UnmarshalTypeError"

fun a_string :: "json \<Rightarrow> string result" where
  "a_string (JStr s) = Inr s"
| "a_string JNull = Inr []"
| "a_string _ = Inl UnmarshalTypeError"

fun strings_of :: "json list \<Rightarrow> string list result" where
  "strings_of [] = Inr []"
| "strings_of (j # js) = bindR (a_string j) (\<lambda>s. bindR (strings_of js) (\<lambda>ss. Inr (s # ss)))"

fun a_string_list :: "json \<Rightarrow> string list result" where
  "a_string_list (JArr js) = strings_of js"
| "a_string_list JNull = Inr []"
| "a_string_list _ = Inl UnmarshalTypeError"

definition rpc_answer :: "string \<Rightarrow> (json option \<Rightarrow> 'a result) \<Rightarrow> int \<times> string \<Rightarrow> 'a result" where
  "rpc_answer meth result resp =
     (case resp of (status, body) \<Rightarrow>
      if status < 200 \<or> 300 \<le> status
      then Inl (ErrText (meth @ '' HTTP '' @ show_int status @ '': '' @ TrimSpace body))
      else bindR (unmarshal_envelope body) (\<lambda>envelope.
        case env_Error envelope of
          Some (code, msg) \<Rightarrow> Inl (ErrText (meth @ '' RPC '' @ show_int code @ '': '' @ msg))
        | None \<Rightarrow> result (env_Result envelope)))"

definition call :: "'w http \<Rightarrow> nodeRPC \<Rightarrow> string \<Rightarrow> json list option \<Rightarrow> (json option \<Rightarrow> 'a result) \<Rightarrow> ('w, 'a result) timed" where
  "call Do N meth params result =
     bindT (Do (node_request N meth params)) (\<lambda>r. returnT (bindR r (rpc_answer meth result)))"

text \<open>Calls in sequence, leaving at the first error.\<close>

definition bindC :: "('w, 'a result) timed \<Rightarrow> ('a \<Rightarrow> ('w, 'b result) timed) \<Rightarrow> ('w, 'b result) timed" where
  "bindC m f = bindT m (\<lambda>r. case r of Inl e \<Rightarrow> returnT (Inl e) | Inr x \<Rightarrow> f x)"

section \<open>The calls of the node\<close>

text \<open>
  \<^verbatim>\<open>blockCount\<close> and \<^verbatim>\<open>sendToAddress\<close> name their variable and the call that sets it in one return statement; the
  call is made before the variable is read, as Go's compiler does it.
\<close>

definition balanceSats :: "'w http \<Rightarrow> nodeRPC \<Rightarrow> ('w, int result) timed" where
  "balanceSats Do N =
     bindC (call Do N ''getbalance'' None (into a_float)) (\<lambda>bsv.
     returnT (Inr (int64_of_float (fl (bsv * 10 ^ 8)))))"

definition blockCount :: "'w http \<Rightarrow> nodeRPC \<Rightarrow> ('w, int result) timed" where
  "blockCount Do N = call Do N ''getblockcount'' None (into an_int)"

definition sendToAddress :: "'w http \<Rightarrow> nodeRPC \<Rightarrow> string \<Rightarrow> int \<Rightarrow> ('w, string result) timed" where
  "sendToAddress Do N address sats =
     call Do N ''sendtoaddress'' (Some [JStr address, JNum (float_text (fl (fl (of_int sats) / 10 ^ 8)))]) (into a_string)"

definition generate :: "'w http \<Rightarrow> nodeRPC \<Rightarrow> int \<Rightarrow> ('w, unit result) timed" where
  "generate Do N blocks =
     bindC (call Do N ''generate'' (Some [JNum (show_int blocks)]) (into a_string_list)) (\<lambda>_. returnT (Inr ()))"

definition rawTransaction :: "'w http \<Rightarrow> nodeRPC \<Rightarrow> string \<Rightarrow> ('w, bytes result) timed" where
  "rawTransaction Do N txid =
     bindC (call Do N ''getrawtransaction'' (Some [JStr txid]) (into a_string)) (\<lambda>rawHex.
     returnT (Hex_DecodeString rawHex))"

definition txOutExists :: "'w http \<Rightarrow> nodeRPC \<Rightarrow> string \<Rightarrow> uint32 \<Rightarrow> ('w, bool result) timed" where
  "txOutExists Do N txid vout =
     bindC (call Do N ''gettxout'' (Some [JStr txid, JNum (show_int (uint vout)), JBool True]) (into Inr)) (\<lambda>raw.
     returnT (Inr (raw \<noteq> JNull)))"

definition ready_pass :: "'w http \<Rightarrow> nodeRPC \<Rightarrow> goerr option \<Rightarrow> ('w, unit + goerr option) timed" where
  "ready_pass Do N lastErr =
     bindT (blockCount Do N) (\<lambda>r. returnT (case r of Inr _ \<Rightarrow> Inl () | Inl e \<Rightarrow> Inr (Some e)))"

definition waitReady :: "'w http \<Rightarrow> nodeRPC \<Rightarrow> ('w, unit result) timed" where
  "waitReady Do N =
     bindT (retry (60 * a_second) (ready_pass Do N) None) (\<lambda>r.
     returnT (case r of
         Inl _ \<Rightarrow> Inr ()
       | Inr lastErr \<Rightarrow> Inl (ErrWrap ''connect bsv-node RPC''
           (case lastErr of Some e \<Rightarrow> e | None \<Rightarrow> ErrText ''%!w(<nil>)''))))"

definition spendable_pass :: "'w http \<Rightarrow> nodeRPC \<Rightarrow> int \<Rightarrow> goerr option \<Rightarrow> ('w, unit + goerr option) timed" where
  "spendable_pass Do N sats lastErr =
     bindT (balanceSats Do N) (\<lambda>r. returnT
       (case r of
          Inr balance \<Rightarrow>
            if sats \<le> balance then Inl ()
            else Inr (Some (ErrText (''spendable balance '' @ show_int balance @ '' sats, need '' @ show_int sats)))
        | Inl e \<Rightarrow> Inr (Some e)))"

definition waitSpendable :: "'w http \<Rightarrow> nodeRPC \<Rightarrow> int \<Rightarrow> ('w, unit result) timed" where
  "waitSpendable Do N sats =
     bindT (retry (60 * a_second) (spendable_pass Do N sats) None) (\<lambda>r.
     returnT (case r of Inl _ \<Rightarrow> Inr () | Inr (Some e) \<Rightarrow> Inl e | Inr None \<Rightarrow> Inr ()))"

section \<open>Funding\<close>

definition seedSatoshis :: int where
  "seedSatoshis = 250000"

fun check_utxos :: "'w client \<Rightarrow> 'w http \<Rightarrow> nodeRPC \<Rightarrow> bj_wallet \<Rightarrow> UTXO list \<Rightarrow> ('w, unit result) timed" where
  "check_utxos C Do N w [] = returnT (Inr ())"
| "check_utxos C Do N w (u # us) =
     bindC (txOutExists Do N (UTXO_txid u) (UTXO_vout u)) (\<lambda>ok.
     if \<not> ok then bindC (cl_ClearUTXOs C (own_wallet (w_id w))) (\<lambda>_. returnT (Inr ()))
     else check_utxos C Do N w us)"

definition clearMissingUTXOs :: "'w client \<Rightarrow> 'w http \<Rightarrow> nodeRPC \<Rightarrow> bj_wallet \<Rightarrow> ('w, unit result) timed" where
  "clearMissingUTXOs C Do N w =
     bindC (cl_ListUTXOs C (own_wallet (w_id w))) (\<lambda>resp. check_utxos C Do N w (ListUTXOsResp_utxos resp))"

text \<open>The loops of \<^verbatim>\<open>fundMain\<close> over the wallets. \<open>funded\<close> maps a wallet to the transaction that funds it.\<close>

definition fatal_on :: "('w, 'a result) timed \<Rightarrow> ('w, 'a) program" where
  "fatal_on m = bindT m (\<lambda>r. returnT (case r of Inl e \<Rightarrow> Inl (error_text e) | Inr x \<Rightarrow> Inr x))"

fun clear_wallets :: "'w client \<Rightarrow> 'w http \<Rightarrow> nodeRPC \<Rightarrow> bj_wallet list \<Rightarrow> ('w, unit) program" where
  "clear_wallets C Do N [] = returnT (Inr ())"
| "clear_wallets C Do N (w # ws) =
     bindP (or_fatal (''check '' @ w_id w @ '' utxos'') (clearMissingUTXOs C Do N w)) (\<lambda>_. clear_wallets C Do N ws)"

fun sum_needed :: "'w client \<Rightarrow> int \<Rightarrow> bj_wallet list \<Rightarrow> ('w, int) program" where
  "sum_needed C needed [] = returnT (Inr needed)"
| "sum_needed C needed (w # ws) =
     bindP (or_fatal (''balance '' @ w_id w) (cl_Balance C (own_wallet (w_id w)))) (\<lambda>bal.
     sum_needed C (if BalanceResp_spendable bal < seedSatoshis
                   then to_int64 (needed + to_int64 (seedSatoshis - BalanceResp_spendable bal)) else needed) ws)"

fun send_funds :: "'w client \<Rightarrow> 'w http \<Rightarrow> nodeRPC \<Rightarrow> (string \<times> string) list \<Rightarrow> bj_wallet list
    \<Rightarrow> ('w, (string \<times> string) list) program" where
  "send_funds C Do N funded [] = returnT (Inr funded)"
| "send_funds C Do N funded (w # ws) =
     bindP (or_fatal (''balance '' @ w_id w) (cl_Balance C (own_wallet (w_id w)))) (\<lambda>bal.
     if seedSatoshis \<le> BalanceResp_spendable bal then send_funds C Do N funded ws
     else bindP (or_fatal (''fund '' @ w_id w)
            (sendToAddress Do N (w_address w) (to_int64 (seedSatoshis - BalanceResp_spendable bal)))) (\<lambda>txid.
          send_funds C Do N (AList.update (w_id w) txid funded) ws))"

fun process_funds :: "'w client \<Rightarrow> 'w http \<Rightarrow> nodeRPC \<Rightarrow> int \<Rightarrow> (string \<times> string) list \<Rightarrow> bj_wallet list
    \<Rightarrow> ('w, unit) program" where
  "process_funds C Do N height funded [] = returnT (Inr ())"
| "process_funds C Do N height funded (w # ws) =
     (case map_of funded (w_id w) of
        None \<Rightarrow> process_funds C Do N height funded ws
      | Some txid \<Rightarrow>
          bindP (or_fatal (''funding tx '' @ txid) (rawTransaction Do N txid)) (\<lambda>raw.
          bindP (or_fatal (''process funding tx for '' @ w_id w) (cl_ProcessRawTx C
            \<lparr>tenant_id = tenantID, wallet_id = w_id w, ProcessRawTxReq_raw_tx = raw,
             ProcessRawTxReq_height = to_int32 height\<rparr>)) (\<lambda>_.
          process_funds C Do N height funded ws)))"

definition fund_node :: "(string \<Rightarrow> string) \<Rightarrow> nodeRPC" where
  "fund_node getenv =
     \<lparr>rpc_url = env getenv ''BSV_NODE_RPC_URL'' ''http://bsv-node:18443'',
      rpc_username = env getenv ''BSV_NODE_RPC_USER'' ''bsv'',
      rpc_password = env getenv ''BSV_NODE_RPC_PASSWORD'' ''bsv'', rpc_timeout = 30 * a_second\<rparr>"

definition fund_wallets :: "'w client \<Rightarrow> 'w http \<Rightarrow> nodeRPC \<Rightarrow> bj_wallet list \<Rightarrow> ('w, unit) program" where
  "fund_wallets C Do N wallets =
     bindP (sum_needed C 0 wallets) (\<lambda>needed.
     bindP (if 0 < needed then or_fatal ''node funding balance'' (waitSpendable Do N needed) else returnT (Inr ())) (\<lambda>_.
     bindP (send_funds C Do N [] wallets) (\<lambda>funded.
     if funded = [] then returnT (Inr ())
     else bindP (or_fatal ''mine funding block'' (generate Do N 1)) (\<lambda>_.
          bindP (or_fatal ''funding block height'' (blockCount Do N)) (\<lambda>height.
          process_funds C Do N height funded wallets)))))"

definition fundMain :: "'w client \<Rightarrow> 'w http \<Rightarrow> (string \<Rightarrow> string) \<Rightarrow> ('w, unit) program" where
  "fundMain C Do getenv =
     (let N = fund_node getenv in
      bindP (fatal_on (connect C (env getenv ''BSVMS_ADDR'' ''bsvms:50051''))) (\<lambda>_.
      bindP (ensureRegtestPeer C getenv) (\<lambda>_.
      bindP (fatal_on (waitReady Do N)) (\<lambda>_.
      bindP (ensureWallet C playerWallet) (\<lambda>player.
      bindP (ensureWallet C houseWallet) (\<lambda>house.
      bindP (clear_wallets C Do N [player, house]) (\<lambda>_.
      fund_wallets C Do N [player, house])))))))"

text \<open>The flags of the program.\<close>

definition blackjack_program :: "'w client \<Rightarrow> 'w http \<Rightarrow> (string \<Rightarrow> string) \<Rightarrow> string list \<Rightarrow> string list \<Rightarrow> rng
    \<Rightarrow> ('w, unit) program" where
  "blackjack_program C Do getenv args input r =
     (if length args = 2 \<and> args ! 1 = ''-version'' then returnT (Inr ())
      else if length args = 2 \<and> args ! 1 = ''-fund'' then fundMain C Do getenv
      else blackjack_main C getenv input r)"

end
