(* ===== verification/Blackjack_Frame.thy ===== *)
theory Blackjack_Frame
  imports Blackjack
begin

text \<open>
  Frames of the demo's programs: when each call of a client keeps a relation between the world before and
  after, so does every program made of such calls, however it ends. \<open>setup_client\<close> asks this of the calls
  about the node and about the wallets named by \<open>own\<close>, \<open>playing_client\<close> of all calls the game makes.
\<close>

context frame_relation
begin

lemma keepsT_bindP: "keepsT R m \<Longrightarrow> (\<And>x. keepsT R (f x)) \<Longrightarrow> keepsT R (bindP m f)"
  unfolding bindP_def by (intro keepsT_bindT) (auto intro: keepsT_return split: sum.split)

lemma keepsT_or_fatal: "keepsT R m \<Longrightarrow> keepsT R (or_fatal label m)"
  unfolding or_fatal_def by (intro keepsT_bindT keepsT_return)

lemma keepsT_fatal: "keepsT R (fatal msg)"
  unfolding fatal_def by (rule keepsT_return)

lemmas frame_rules = keepsT_return keepsT_bindT keepsT_bindP keepsT_or_fatal keepsT_fatal keepsT_retry

end

locale setup_client = frame_relation R for R :: "'w \<Rightarrow> 'w \<Rightarrow> bool" +
  fixes C :: "'w client" and own :: "string \<Rightarrow> bool"
  assumes keeps_dial: "keepsT R (cl_dial C a)"
    and keeps_status: "keepsT R (cl_Status C)"
    and keeps_peer: "keepsT R (cl_ConnectPeer C cq)"
    and keeps_get: "own wid \<Longrightarrow> keepsT R (cl_GetWallet C (own_wallet wid))"
    and keeps_create: "own wid \<Longrightarrow> keepsT R (cl_CreateWallet C (own_wallet wid))"
    and keeps_address: "own wid \<Longrightarrow> keepsT R (cl_NewAddress C (own_wallet wid))"
begin

lemmas setup_calls = keeps_dial keeps_status keeps_peer keeps_get keeps_create keeps_address

lemma frame_peer: "keepsT R (ensureRegtestPeer C getenv)"
proof -
  have "keepsT R (regtest_pass C peer e)" for peer e
    unfolding regtest_pass_def by (auto intro!: frame_rules setup_calls split: sum.split)
  then show ?thesis
    unfolding ensureRegtestPeer_def Let_def by (auto intro!: frame_rules split: sum.split option.split)
qed

lemma frame_connect: "keepsT R (connect C addr)"
proof -
  have "keepsT R (dial_pass C addr e)" for e
    unfolding dial_pass_def by (auto intro!: frame_rules setup_calls split: sum.split)
  then show ?thesis unfolding connect_def by (intro frame_rules)
qed

lemma frame_wallet: "own wid \<Longrightarrow> keepsT R (ensureWallet C wid)"
  unfolding ensureWallet_def by (auto intro!: frame_rules setup_calls split: list.split)

lemma frame_network: "keepsT R (statusNetwork C)"
  unfolding statusNetwork_def by (intro frame_rules setup_calls)

end

locale playing_client = setup_client +
  assumes own_wallets: "own playerWallet" "own houseWallet"
    and keeps_balance: "keepsT R (cl_Balance C q)"
    and keeps_p2pkh: "keepsT R (cl_P2PKHOutput C pq)"
    and keeps_opreturn: "keepsT R (cl_OpReturnOutput C oq)"
    and keeps_spend: "keepsT R (cl_SpendToOutputs C sq)"
begin

lemma frame_settle_pass: "keepsT R (settle_pass C getenv req)"
  unfolding settle_pass_def by (auto intro!: frame_rules keeps_spend frame_peer split: sum.split)

lemma frame_settle_loop: "keepsT R (settle_loop C getenv req left)"
proof -
  have "R w (snd (snd (settle_loop C getenv req left w)))" for w
  proof (induction "nat (left + 1)" arbitrary: left w rule: less_induct)
    case less
    obtain p d w' where p: "settle_pass C getenv req w = (p, d, w')" by (cases "settle_pass C getenv req w")
    have R: "R w w'" by (rule keepsT_run [OF frame_settle_pass p])
    show ?case
    proof (cases "\<exists>e. p = Inr (Inr e) \<and> \<not> left < int d")
      case True
      then obtain e where e: "p = Inr (Inr e)" "\<not> left < int d" by blast
      have "R w' (snd (snd (settle_loop C getenv req (left - int d - int a_second) w')))"
        using e(2) by (intro less.hyps) (simp add: a_second_def)
      with R p e show ?thesis
        by (subst settle_loop.simps) (simp add: split_beta, metis frame_trans)
    next
      case False
      with R p show ?thesis by (subst settle_loop.simps) (auto split: sum.split)
    qed
  qed
  then show ?thesis by (simp add: keepsT_def)
qed

lemma frame_settle: "keepsT R (settleHand C getenv from to sats ph hh winner)"
  unfolding settleHand_def by (intro frame_rules frame_peer keeps_p2pkh keeps_opreturn frame_settle_loop)

lemma frame_show: "keepsT R (showBalances C)"
  unfolding showBalances_def show_balances.simps by (intro frame_rules keeps_balance)

lemma frame_funded: "keepsT R (requireFunded C w)"
  unfolding requireFunded_def by (auto intro!: frame_rules keeps_balance)

lemma frame_hand: "keepsT R (playHand C getenv url player house input r)"
  unfolding playHand_def printTxLink_def Let_def
  by (auto intro!: frame_rules frame_settle frame_show frame_network split: prod.split option.split)

lemma frame_rounds: "keepsT R (play_rounds C getenv url player house input r)"
proof -
  have "R w (snd (snd (play_rounds C getenv url player house input r w)))" for w
  proof (induction "length input" arbitrary: input r w rule: less_induct)
    case less
    obtain p d w' where p: "playHand C getenv url player house input r w = (p, d, w')"
      by (cases "playHand C getenv url player house input r w")
    have R: "R w w'" by (rule keepsT_run [OF frame_hand p])
    show ?case
    proof (cases "\<exists>line input2 r'. p = Inr (line # input2, r') \<and> ToLower (TrimSpace line) = ''y''")
      case True
      then obtain line input2 r' where e: "p = Inr (line # input2, r')" "ToLower (TrimSpace line) = ''y''" by blast
      have "length input2 < length input" using playHand_input [of C getenv url player house input r w] p e by auto
      then have "R w' (snd (snd (play_rounds C getenv url player house input2 r' w')))" by (rule less.hyps)
      with R p e show ?thesis
        by (subst play_rounds.simps) (simp add: split_beta, metis frame_trans)
    next
      case False
      with R p show ?thesis by (subst play_rounds.simps) (auto split: sum.split prod.split list.split)
    qed
  qed
  then show ?thesis by (simp add: keepsT_def)
qed

lemma frame_main: "keepsT R (blackjack_main C getenv input r)"
  unfolding blackjack_main_def Let_def
  by (auto intro!: frame_rules frame_connect frame_wallet own_wallets frame_network frame_peer frame_funded frame_rounds split: sum.split)

end

end
