(* ===== verification/Blackjack_Fund_Frame.thy ===== *)
theory Blackjack_Fund_Frame
  imports Blackjack_Fund Blackjack_Frame
begin

text \<open>
  Frames of the funding tool. \<open>node_transport\<close> asks that the requests for the methods named by \<open>free\<close> keep a
  relation; \<open>checking_client\<close> adds the calls about coins, and \<open>funding_client\<close> everything the program does, with
  whatever flag it is started.
\<close>

context frame_relation
begin

lemma keepsT_bindC: "keepsT R m \<Longrightarrow> (\<And>x. keepsT R (f x)) \<Longrightarrow> keepsT R (bindC m f)"
  unfolding bindC_def by (intro keepsT_bindT) (auto intro: keepsT_return split: sum.split)

lemma keepsT_fatal_on: "keepsT R m \<Longrightarrow> keepsT R (fatal_on m)"
  unfolding fatal_on_def by (intro keepsT_bindT keepsT_return)

lemmas fund_rules = frame_rules keepsT_bindC keepsT_fatal_on

end

locale node_transport = frame_relation R for R :: "'w \<Rightarrow> 'w \<Rightarrow> bool" +
  fixes Do :: "'w http" and free :: "string \<Rightarrow> bool"
  assumes keeps_Do: "free meth \<Longrightarrow> keepsT R (Do (node_request N meth params))"
begin

lemma frame_call: "free meth \<Longrightarrow> keepsT R (call Do N meth params result)"
  unfolding call_def by (intro fund_rules keeps_Do)

lemma frame_node:
  "free ''getblockcount'' \<Longrightarrow> keepsT R (blockCount Do N)"
  "free ''generate'' \<Longrightarrow> keepsT R (generate Do N k)"
  "free ''getbalance'' \<Longrightarrow> keepsT R (balanceSats Do N)"
  "free ''gettxout'' \<Longrightarrow> keepsT R (txOutExists Do N txid vout)"
  "free ''sendtoaddress'' \<Longrightarrow> keepsT R (sendToAddress Do N address sats)"
  "free ''getrawtransaction'' \<Longrightarrow> keepsT R (rawTransaction Do N txid)"
  unfolding blockCount_def generate_def balanceSats_def txOutExists_def sendToAddress_def rawTransaction_def
  by (intro fund_rules frame_call; assumption)+

lemma frame_waits:
  "free ''getblockcount'' \<Longrightarrow> keepsT R (waitReady Do N)"
  "free ''getbalance'' \<Longrightarrow> keepsT R (waitSpendable Do N sats)"
  unfolding waitReady_def waitSpendable_def ready_pass_def spendable_pass_def
  by (intro fund_rules frame_node; assumption)+

end

locale checking_client = setup_client R C own + node_transport R Do free
  for R :: "'w \<Rightarrow> 'w \<Rightarrow> bool" and C own Do free +
  assumes keeps_list: "keepsT R (cl_ListUTXOs C lq)"
    and keeps_clear: "keepsT R (cl_ClearUTXOs C lq)"
begin

lemma frame_start:
  "keepsT R (fatal_on (connect C addr))"
  "free ''getblockcount'' \<Longrightarrow> keepsT R (fatal_on (waitReady Do N))"
  by (intro keepsT_fatal_on frame_connect frame_waits; assumption)+

lemma frame_clear:
  assumes "free ''gettxout''"
  shows "keepsT R (clear_wallets C Do N ws)"
proof -
  have "keepsT R (check_utxos C Do N w us)" for w us
    by (induction us) (auto intro!: fund_rules frame_node(4) assms keeps_clear)
  then show ?thesis
    by (induction ws) (auto intro!: fund_rules keeps_list simp: clearMissingUTXOs_def)
qed

end

locale funding_client = playing_client R C own + checking_client R C own Do free
  for R :: "'w \<Rightarrow> 'w \<Rightarrow> bool" and C own Do free +
  assumes keeps_process: "keepsT R (cl_ProcessRawTx C rq)"
    and all_free: "free meth"
begin

lemma frame_sum: "keepsT R (sum_needed C needed ws)"
  by (induction ws arbitrary: needed) (auto intro!: fund_rules keeps_balance)

lemma frame_send: "keepsT R (send_funds C Do N funded ws)"
  by (induction ws arbitrary: funded) (auto intro!: fund_rules keeps_balance frame_node all_free)

lemma frame_process: "keepsT R (process_funds C Do N height funded ws)"
  by (induction ws) (auto intro!: fund_rules keeps_process frame_node all_free split: option.split)

lemma frame_fund_wallets: "keepsT R (fund_wallets C Do N ws)"
  unfolding fund_wallets_def
  by (auto intro!: fund_rules frame_sum frame_send frame_process frame_node frame_waits all_free)

lemma frame_fund: "keepsT R (fundMain C Do getenv)"
  unfolding fundMain_def Let_def
  by (intro frame_start fund_rules frame_peer frame_wallet own_wallets frame_clear frame_fund_wallets all_free)

lemma frame_program: "keepsT R (blackjack_program C Do getenv args input r)"
  unfolding blackjack_program_def by (auto intro!: fund_rules frame_fund frame_main)

end

end
