(* ===== verification/Blackjack_Props.thy ===== *)
theory Blackjack_Props
  imports Blackjack_Frame
begin

text \<open>
  What a hand of blackjack settles. \<open>logged\<close> puts a ledger beside the world of a client: every output it asked
  the service to build and every spend it sent, each with what came back, failures included.
\<close>

section \<open>A ledger\<close>

datatype entry =
    Asked P2PKHOutputRequest "OutputSpec result"
  | Committed OpReturnOutputRequest "OutputSpec result"
  | Spent SpendToOutputsRequest "SpendDetailResponse result"

type_synonym ('w, 'e) ledger = "'w \<times> 'e list"

definition lift_call :: "('w, 'a) timed \<Rightarrow> (('w, 'e) ledger, 'a) timed" where
  "lift_call m = (\<lambda>(w, l). case m w of (r, d, w') \<Rightarrow> (r, d, (w', l)))"

definition note_call :: "('a \<Rightarrow> 'e list) \<Rightarrow> ('w, 'a) timed \<Rightarrow> (('w, 'e) ledger, 'a) timed" where
  "note_call f m = (\<lambda>(w, l). case m w of (r, d, w') \<Rightarrow> (r, d, (w', l @ f r)))"

definition logged :: "'w client \<Rightarrow> ('w, entry) ledger client" where
  "logged C = \<lparr>cl_dial = \<lambda>a. lift_call (cl_dial C a), cl_Status = lift_call (cl_Status C),
     cl_ConnectPeer = \<lambda>q. lift_call (cl_ConnectPeer C q), cl_GetWallet = \<lambda>q. lift_call (cl_GetWallet C q),
     cl_CreateWallet = \<lambda>q. lift_call (cl_CreateWallet C q), cl_NewAddress = \<lambda>q. lift_call (cl_NewAddress C q),
     cl_Balance = \<lambda>q. lift_call (cl_Balance C q),
     cl_P2PKHOutput = \<lambda>q. note_call (\<lambda>r. [Asked q r]) (cl_P2PKHOutput C q),
     cl_OpReturnOutput = \<lambda>q. note_call (\<lambda>r. [Committed q r]) (cl_OpReturnOutput C q),
     cl_SpendToOutputs = \<lambda>q. note_call (\<lambda>r. [Spent q r]) (cl_SpendToOutputs C q),
     cl_ListUTXOs = \<lambda>q. lift_call (cl_ListUTXOs C q), cl_ClearUTXOs = \<lambda>q. lift_call (cl_ClearUTXOs C q),
     cl_ProcessRawTx = \<lambda>q. lift_call (cl_ProcessRawTx C q)\<rparr>"

text \<open>Programs that enter nothing in the ledger.\<close>

definition same_ledger :: "('w, 'e) ledger \<Rightarrow> ('w, 'e) ledger \<Rightarrow> bool" where
  "same_ledger x y \<longleftrightarrow> snd y = snd x"

abbreviation unlogged :: "(('w, 'e) ledger, 'a) timed \<Rightarrow> bool" where
  "unlogged m \<equiv> keepsT same_ledger m"

interpretation ledger: frame_relation same_ledger
  by unfold_locales (simp_all add: same_ledger_def)

lemma unlogged_iff: "unlogged m \<longleftrightarrow> (\<forall>x. snd (snd (snd (m x))) = snd x)"
  by (simp add: keepsT_def same_ledger_def)

lemma unlogged_run: "unlogged m \<Longrightarrow> m (w, l) = (r, d, w', l') \<Longrightarrow> l' = l"
  by (metis snd_conv unlogged_iff)

lemma unlogged_lift [simp]: "unlogged (lift_call m)"
  by (simp add: unlogged_iff lift_call_def split_beta)

lemma logged_simps [simp]:
  "cl_dial (logged C) a = lift_call (cl_dial C a)" "cl_Status (logged C) = lift_call (cl_Status C)"
  "cl_ConnectPeer (logged C) cq = lift_call (cl_ConnectPeer C cq)" "cl_Balance (logged C) q = lift_call (cl_Balance C q)"
  "cl_P2PKHOutput (logged C) pq = note_call (\<lambda>r. [Asked pq r]) (cl_P2PKHOutput C pq)"
  "cl_OpReturnOutput (logged C) oq = note_call (\<lambda>r. [Committed oq r]) (cl_OpReturnOutput C oq)"
  "cl_SpendToOutputs (logged C) sq = note_call (\<lambda>r. [Spent sq r]) (cl_SpendToOutputs C sq)"
  by (simp_all add: logged_def)

text \<open>The calls about the node and the wallets themselves leave no entry.\<close>

interpretation lg: setup_client same_ledger "logged C" "\<lambda>_. True"
  by unfold_locales (simp_all add: logged_def)

lemma unlogged_views:
  "unlogged (printTxLink (logged C) url txid)" "unlogged (showBalances (logged C))"
  unfolding printTxLink_def statusNetwork_def showBalances_def show_balances.simps
  by (auto intro!: ledger.frame_rules)

section \<open>Settling\<close>

lemma note_call_run:
  "note_call f m (w, l) = (r, d, w', l') \<longleftrightarrow> m w = (r, d, w') \<and> l' = l @ f r"
  by (auto simp: note_call_def split: prod.splits)

text \<open>Spends that came back with an error, and a payment: such spends, if any, and one that was acknowledged.\<close>

definition failed_spends :: "SpendToOutputsRequest \<Rightarrow> entry list \<Rightarrow> bool" where
  "failed_spends req es \<longleftrightarrow> (\<forall>x \<in> set es. \<exists>e. x = Spent req (Inl e))"

definition acknowledged :: "SpendToOutputsRequest \<Rightarrow> string \<Rightarrow> entry list \<Rightarrow> bool" where
  "acknowledged req txid es \<longleftrightarrow> (\<exists>before detail. es = before @ [Spent req (Inr detail)] \<and> failed_spends req before
     \<and> txid = detail_txid detail)"

lemma failed_spends_simps [simp]:
  "failed_spends req []" "failed_spends req (x # es) \<longleftrightarrow> (\<exists>e. x = Spent req (Inl e)) \<and> failed_spends req es"
  "failed_spends req (es @ es') \<longleftrightarrow> failed_spends req es \<and> failed_spends req es'"
  by (auto simp: failed_spends_def)

lemma acknowledged_at_once [simp]: "acknowledged req (detail_txid detail) [Spent req (Inr detail)]"
  unfolding acknowledged_def by (intro exI [of _ "[]"] exI [of _ detail]) simp

lemma acknowledged_later: "failed_spends req es \<Longrightarrow> acknowledged req txid es' \<Longrightarrow> acknowledged req txid (es @ es')"
  unfolding acknowledged_def by (metis append.assoc failed_spends_simps(3))

lemma settle_pass_log:
  assumes "settle_pass (logged C) getenv req (w, l) = (Inr x, d, w', l')"
  shows "\<exists>es. l' = l @ es \<and> (case x of Inl txid \<Rightarrow> acknowledged req txid es | Inr e \<Rightarrow> failed_spends req es)"
proof -
  obtain r1 d1 w1 where s: "cl_SpendToOutputs C req w = (r1, d1, w1)" by (cases "cl_SpendToOutputs C req w")
  then have n: "note_call (\<lambda>r. [Spent req r]) (cl_SpendToOutputs C req) (w, l) = (r1, d1, w1, l @ [Spent req r1])"
    by (simp add: note_call_run)
  show ?thesis
  proof (cases "\<exists>e. r1 = Inl e \<and> Contains (error_text e) ''no connected peers''")
    case False
    with n assms show ?thesis by (auto simp: settle_pass_def bindT_apply returnT_apply split: sum.splits if_splits)
  next
    case True
    then obtain e where e: "r1 = Inl e" "Contains (error_text e) ''no connected peers''" by blast
    obtain p d2 w2 l2 where p: "ensureRegtestPeer (logged C) getenv (w1, l @ [Spent req r1]) = (p, d2, w2, l2)"
      by (cases "ensureRegtestPeer (logged C) getenv (w1, l @ [Spent req r1])") auto
    have l2: "l2 = l @ [Spent req r1]" by (rule unlogged_run [OF lg.frame_peer p])
    obtain r3 d3 w3 where "cl_SpendToOutputs C req w2 = (r3, d3, w3)" by (cases "cl_SpendToOutputs C req w2")
    then have "note_call (\<lambda>r. [Spent req r]) (cl_SpendToOutputs C req) (w2, l2) = (r3, d3, w3, l2 @ [Spent req r3])"
      by (simp add: note_call_run)
    with n e p l2 assms acknowledged_later [of req "[Spent req r1]"] show ?thesis
      by (cases p; cases r3) (auto simp: settle_pass_def bindP_def bindT_apply returnT_apply)
  qed
qed

lemma settle_loop_log:
  assumes "settle_loop (logged C) getenv req left (w, l) = (Inr txid, d, w', l')"
  shows "\<exists>es. l' = l @ es \<and> acknowledged req txid es"
  using assms
proof (induction "logged C" getenv req left "(w, l)" arbitrary: w l d w' l' rule: settle_loop.induct)
  case (1 getenv req left w l)
  obtain p d1 w1 l1 where p: "settle_pass (logged C) getenv req (w, l) = (p, d1, w1, l1)"
    by (cases "settle_pass (logged C) getenv req (w, l)") auto
  show ?case
  proof (cases "\<exists>e. p = Inr (Inr e) \<and> \<not> left < int d1")
    case False
    with "1.prems" p settle_pass_log [of C getenv req w l] show ?thesis
      by (subst (asm) settle_loop.simps) (auto split: sum.splits if_splits)
  next
    case True
    then obtain e where e: "p = Inr (Inr e)" "\<not> left < int d1" by blast
    obtain es where es: "l1 = l @ es" "failed_spends req es"
      using settle_pass_log [OF p [unfolded e(1)]] by auto
    obtain d2 where "settle_loop (logged C) getenv req (left - int d1 - int a_second) (w1, l1) = (Inr txid, d2, w', l')"
      using "1.prems" p e by (subst (asm) settle_loop.simps) (auto split: prod.splits)
    then obtain es' where "l' = l1 @ es'" "acknowledged req txid es'"
      using "1.hyps" [OF p [symmetric] e(1) refl refl e(2)] by blast
    with es acknowledged_later show ?thesis by fastforce
  qed
qed

text \<open>Running a program to success, on the ledger.\<close>

lemma unlogged_success:
  assumes "unlogged m" and "m (w, l) = (Inr x, d, y)"
  shows "snd y = l"
  using assms unfolding unlogged_iff by (metis snd_conv)

lemma or_fatal_success: "or_fatal label m w = (Inr x, d, w') \<longleftrightarrow> m w = (Inr x, d, w')"
  by (auto simp: or_fatal_def bindT_apply returnT_apply split: prod.splits sum.splits)

text \<open>
  The ledger of a settlement: the two outputs are built, and every spend sent is one and the same request,
  with just these outputs; the last spend is the only one that was acknowledged.
\<close>

definition settlement :: "bj_wallet \<Rightarrow> string \<Rightarrow> int \<Rightarrow> card list \<Rightarrow> card list \<Rightarrow> string \<Rightarrow> entry list \<Rightarrow> bool" where
  "settlement from to sats playerHand houseHand winner l \<longleftrightarrow> (\<exists>p2pkh opReturn txid spends. l =
     Asked \<lparr>P2PKHOutputReq_address = to, P2PKHOutputReq_value = sats\<rparr> (Inr p2pkh) #
     Committed \<lparr>OpReturnOutputReq_data = bytes_of_string (json_Marshal (handResult playerHand houseHand sats winner))\<rparr>
       (Inr opReturn) # spends
   \<and> acknowledged (settle_request (w_id from) [p2pkh, opReturn]) txid spends)"

lemma settleHand_log:
  assumes "settleHand (logged C) getenv from to sats ph hh winner (w, l) = (Inr txid, d, w', l')"
  shows "\<exists>entries. l' = l @ entries \<and> settlement from to sats ph hh winner entries"
proof -
  let ?ask = "\<lparr>P2PKHOutputReq_address = to, P2PKHOutputReq_value = sats\<rparr>"
  let ?commit = "\<lparr>OpReturnOutputReq_data = bytes_of_string (json_Marshal (handResult ph hh sats winner))\<rparr>"
  obtain u d1 y where peer: "ensureRegtestPeer (logged C) getenv (w, l) = (Inr u, d1, y)"
    and rest: "bindP (or_fatal ''p2pkh output'' (cl_P2PKHOutput (logged C) ?ask)) (\<lambda>p2pkh.
       bindP (or_fatal ''op_return output'' (cl_OpReturnOutput (logged C) ?commit)) (\<lambda>opReturn.
       settle_loop (logged C) getenv (settle_request (w_id from) [p2pkh, opReturn]) (60 * int a_second))) y = (Inr txid, d - d1, w', l')"
    using assms unfolding settleHand_def bindP_success by (metis diff_add_inverse)
  obtain w1 where y: "y = (w1, l)" using unlogged_success [OF lg.frame_peer peer] by (cases y) auto
  obtain p2pkh opReturn w3 d2 l3 where l3: "l3 = l @ [Asked ?ask (Inr p2pkh), Committed ?commit (Inr opReturn)]"
    and loop: "settle_loop (logged C) getenv (settle_request (w_id from) [p2pkh, opReturn]) (60 * int a_second) (w3, l3) = (Inr txid, d2, w', l')"
    using rest by (fastforce simp: bindP_success or_fatal_success y note_call_run)
  from settle_loop_log [OF loop] l3 show ?thesis
    by (auto simp: settlement_def)
qed

section \<open>Properties\<close>

text \<open>
  C31. What a hand settles: when \<open>playHand\<close> comes back, the service was asked for an output that pays the bet
  the player made (the default for anything that is not a positive number) to the winner's address and for
  one with a commitment to the hands as they were played, and every spend that was sent pays just these two
  outputs out of the loser's wallet; of those spends the last, and no other, was acknowledged. (An error
  does not mean that nothing was paid: see \<open>Lost_Replies\<close>.) After a push nothing was sent. Who wins
  is decided by the best totals: a bust player loses even to a bust house.
\<close>

theorem hand_settles_once:
  assumes "playHand (logged C) getenv url player house input r (w, []) = (Inr (input', r'), d, w', l)"
  shows "\<exists>bet input1 ph hh rest. askBet input = (bet, input1) \<and> 0 < bet
    \<and> play_cards (fst (newDeck r)) input1 = Some (ph, hh, rest, input')
    \<and> (if best_total ph \<le> 21 \<and> (21 < best_total hh \<or> best_total hh < best_total ph)
       then settlement house (w_address player) bet ph hh ''player'' l
       else if 21 < best_total ph \<or> best_total ph < best_total hh
       then settlement player (w_address house) bet ph hh ''house'' l
       else l = [])"
proof -
  obtain bet input1 where bet: "askBet input = (bet, input1)" by (cases "askBet input")
  have pos: "0 < bet" using bet by (auto simp: askBet_def Let_def defaultBet_def split: prod.splits if_splits option.splits)
  obtain deck where deck: "newDeck r = (deck, r')"
    using assms bet by (auto simp: playHand_def fatal_def returnT_apply bindP_success Let_def split: prod.splits option.splits)
  obtain ph hh rest where cards: "play_cards deck input1 = Some (ph, hh, rest, input')"
    using assms bet deck by (auto simp: playHand_def fatal_def returnT_apply bindP_success Let_def split: option.splits)
  define pay where "pay = (\<lambda>from to winner. bindP (settleHand (logged C) getenv from to bet ph hh winner) (\<lambda>txid.
     bindP (printTxLink (logged C) url txid) (\<lambda>_. returnT (Inr ()))))"
  have paid: "settlement src dst bet ph hh winner (snd v)"
    if run: "pay src dst winner (w, []) = (Inr u, d1, v)" for src dst winner u d1 v
  proof -
    obtain txid d2 y d3 x where s: "settleHand (logged C) getenv src dst bet ph hh winner (w, []) = (Inr txid, d2, y)"
      and p: "printTxLink (logged C) url txid y = (Inr x, d3, v)"
      using run unfolding pay_def bindP_success by (auto simp: returnT_apply)
    have "snd v = snd y" using unlogged_success [OF unlogged_views(1)] p by (metis prod.collapse)
    with settleHand_log [of C getenv src dst bet ph hh winner w "[]"] s show ?thesis by (metis append_Nil prod.collapse)
  qed
  let ?result = "outcome (handValue ph) (handValue hh)"
  define settle where "settle = (if ?result = ''player'' then pay house (w_address player) ''player''
       else if ?result = ''house'' then pay player (w_address house) ''house'' else returnT (Inr ()))"
  have "bindP settle (\<lambda>_. bindP (showBalances (logged C)) (\<lambda>_. returnT (Inr (input', r')))) (w, []) = (Inr (input', r'), d, w', l)"
    using assms unfolding settle_def pay_def by (simp add: playHand_def bet deck cards Let_def split del: if_split)
  then obtain u d1 v d2 y where first: "settle (w, []) = (Inr u, d1, v)"
    and balances: "showBalances (logged C) v = (Inr y, d2, w', l)"
    by (auto simp: bindP_success returnT_apply)
  have l: "l = snd v" using unlogged_success [OF unlogged_views(2)] balances by (metis prod.collapse snd_conv)
  have "handValue hand = best_total hand" for hand by (rule best_total_eq)
  with first l paid show ?thesis
    using bet pos deck cards by (auto simp: settle_def outcome_def returnT_apply split: if_splits)
qed

text \<open>
  A client on which every call succeeds at once; its world counts the payments made. With \<open>lost\<close> set, the
  first payment is made but its reply is lost.
\<close>

definition counting_client :: "bool \<Rightarrow> nat client" where
  "counting_client lost =
     \<lparr>cl_dial = \<lambda>_. returnT (Inr ()),
      cl_Status = returnT (Inr \<lparr>StatusResp_network = ''mainnet'', StatusResp_chain_height = 0,
        StatusResp_best_peer_height = 0, StatusResp_peer_count = 1, StatusResp_data_dir = [],
        StatusResp_peer_heights = [], StatusResp_coinbase_maturity = 0\<rparr>),
      cl_ConnectPeer = \<lambda>_. returnT (Inr ()),
      cl_GetWallet = \<lambda>_. returnT (Inr \<lparr>WalletResp_wallet = None, WalletResp_tokens = None\<rparr>),
      cl_CreateWallet = \<lambda>_. returnT (Inl (Status AlreadyExists ''wallet exists'')),
      cl_NewAddress = \<lambda>_. returnT (Inr \<lparr>AddressResp_address = None\<rparr>),
      cl_Balance = \<lambda>_. returnT (Inr \<lparr>BalanceResp_satoshis = 5000, BalanceResp_bsv = 0, BalanceResp_spendable = 5000,
        BalanceResp_immature = 0\<rparr>),
      cl_P2PKHOutput = \<lambda>q. returnT (Inr \<lparr>OutputSpec_script = [], OutputSpec_value = P2PKHOutputReq_value q\<rparr>),
      cl_OpReturnOutput = \<lambda>_. returnT (Inr \<lparr>OutputSpec_script = [], OutputSpec_value = 0\<rparr>),
      cl_SpendToOutputs = \<lambda>_ n. (if lost \<and> n = 0 then Inl (ErrText ''transport is closing'')
        else Inr \<lparr>SpendDetailResp_detail = None\<rparr>, 0, Suc n),
      cl_ListUTXOs = \<lambda>_. returnT (Inr \<lparr>ListUTXOsResp_utxos = []\<rparr>),
      cl_ClearUTXOs = \<lambda>_. returnT (Inr \<lparr>ClearUTXOsResp_cleared = 0\<rparr>),
      cl_ProcessRawTx = \<lambda>_. returnT (Inr ())\<rparr>"

lemma counting_simps:
  "cl_Status (counting_client b) = returnT (Inr \<lparr>StatusResp_network = ''mainnet'', StatusResp_chain_height = 0,
        StatusResp_best_peer_height = 0, StatusResp_peer_count = 1, StatusResp_data_dir = [],
        StatusResp_peer_heights = [], StatusResp_coinbase_maturity = 0\<rparr>)"
  "cl_Balance (counting_client b) wq = returnT (Inr \<lparr>BalanceResp_satoshis = 5000, BalanceResp_bsv = 0,
        BalanceResp_spendable = 5000, BalanceResp_immature = 0\<rparr>)"
  "cl_P2PKHOutput (counting_client b) q = returnT (Inr \<lparr>OutputSpec_script = [], OutputSpec_value = P2PKHOutputReq_value q\<rparr>)"
  "cl_OpReturnOutput (counting_client b) oq = returnT (Inr \<lparr>OutputSpec_script = [], OutputSpec_value = 0\<rparr>)"
  "cl_SpendToOutputs (counting_client b) sq n = (if b \<and> n = 0 then Inl (ErrText ''transport is closing'')
        else Inr \<lparr>SpendDetailResp_detail = None\<rparr>, 0, Suc n)"
  by (simp_all add: counting_client_def)

lemma counting_peer: "ensureRegtestPeer (logged (counting_client b)) getenv x = (Inr (), 0, x)"
  by (cases x) (simp add: ensureRegtestPeer_def Let_def bindT_apply retry.simps regtest_pass_def lift_call_def returnT_apply
      counting_simps a_second_def ToLower_def lower_char_def)

lemma counting_settles:
  "\<exists>txid y. settleHand (logged (counting_client False)) getenv from to sats ph hh winner x = (Inr txid, 0, y)"
  by (cases x) (simp add: settleHand_def bindP_def bindT_apply counting_peer or_fatal_def note_call_def returnT_apply
      settle_loop.simps settle_pass_def counting_simps)

lemma counting_views:
  "\<exists>t. printTxLink (logged (counting_client False)) url txid x = (Inr t, 0, x)"
  "showBalances (logged (counting_client False)) x = (Inr (), 0, x)"
  by (cases x; simp add: printTxLink_def statusNetwork_def showBalances_def bindP_def bindT_apply or_fatal_def lift_call_def
      returnT_apply counting_simps)+

lemma counting_plays:
  "\<exists>input' y. playHand (logged (counting_client False)) getenv url player house input r (0, []) = (Inr (input', snd (newDeck r)), 0, y)"
proof -
  obtain bet input1 where bet: "askBet input = (bet, input1)" by (cases "askBet input")
  obtain deck r' where deck: "newDeck r = (deck, r')" by (cases "newDeck r")
  obtain ph hh rest input' where cards: "play_cards deck input1 = Some (ph, hh, rest, input')"
    using play_cards_result [OF newDeck_perm, of r input1] deck by auto
  have pay: "\<exists>y. bindP (settleHand (logged (counting_client False)) getenv a b bet ph hh winner) (\<lambda>txid.
     bindP (printTxLink (logged (counting_client False)) url txid) (\<lambda>_. returnT (Inr ()))) x = (Inr (), 0, y)" for a b winner x
  proof -
    obtain txid y where s: "settleHand (logged (counting_client False)) getenv a b bet ph hh winner x = (Inr txid, 0, y)"
      using counting_settles by blast
    obtain t where "printTxLink (logged (counting_client False)) url txid y = (Inr t, 0, y)"
      using counting_views(1) by blast
    with s show ?thesis by (simp add: bindP_def bindT_apply returnT_apply)
  qed
  have last: "\<exists>y. bindP m (\<lambda>_. bindP (showBalances (logged (counting_client False))) (\<lambda>_. returnT (Inr v))) x = (Inr v, 0, y)"
    if m: "\<exists>y. m x = (Inr (), 0, y)" for m :: "((nat, entry) ledger, unit) program" and v :: "string list \<times> rng" and x
    using m counting_views(2) by (auto simp: bindP_def bindT_apply returnT_apply)
  let ?settle = "if outcome (handValue ph) (handValue hh) = ''player'' then
        bindP (settleHand (logged (counting_client False)) getenv house (w_address player) bet ph hh ''player'') (\<lambda>txid.
        bindP (printTxLink (logged (counting_client False)) url txid) (\<lambda>_. returnT (Inr ())))
      else if outcome (handValue ph) (handValue hh) = ''house'' then
        bindP (settleHand (logged (counting_client False)) getenv player (w_address house) bet ph hh ''house'') (\<lambda>txid.
        bindP (printTxLink (logged (counting_client False)) url txid) (\<lambda>_. returnT (Inr ())))
      else returnT (Inr ())"
  have "\<exists>y. ?settle (0, []) = (Inr (), 0, y)"
    using pay by (simp add: returnT_apply)
  from last [of ?settle "(0, [])" "(input', r')", OF this] show ?thesis
    unfolding playHand_def by (intro exI [of _ input']) (simp add: bet deck cards Let_def split del: if_split)
qed

theorem hand_settles_once_witness:
  "\<exists>input' y. playHand (logged (counting_client False)) (\<lambda>_. []) [] \<lparr>w_id = playerWallet, w_address = ''pp''\<rparr>
      \<lparr>w_id = houseWallet, w_address = ''hh''\<rparr> [''250''] (sconst 0) (0, []) = (Inr (input', snd (newDeck (sconst 0))), 0, y)
    \<and> (\<exists>bet input1. askBet [''250''] = (bet, input1) \<and> 0 < bet)"
proof -
  obtain input' y where run: "playHand (logged (counting_client False)) (\<lambda>_. []) [] \<lparr>w_id = playerWallet, w_address = ''pp''\<rparr>
      \<lparr>w_id = houseWallet, w_address = ''hh''\<rparr> [''250''] (sconst 0) (0, []) = (Inr (input', snd (newDeck (sconst 0))), 0, y)"
    using counting_plays by blast
  obtain w' l where "y = (w', l)" by (cases y)
  with hand_settles_once [of "counting_client False"] run show ?thesis by metis
qed

end
