(* ===== verification/Blackjack_Fund_Props.thy ===== *)
theory Blackjack_Fund_Props
  imports Blackjack_Fund_Frame Blackjack_Props
begin

text \<open>
  What the funding tool does. \<open>traced\<close> and \<open>traced_http\<close> put a ledger beside the world: the lookups of wallets, the
  balances, the deliveries and the spends asked of the service, and the requests sent to the node, each with
  what came back, failures included. \<open>traces\<close> is the logic in which its programs are followed.
\<close>

section \<open>Amounts\<close>

lemma nearest_even_int: "nearest_even (of_int n) = n"
  by (simp add: nearest_even_def)

lemma fl_of_int:
  assumes "0 \<le> n" and "n < 2 ^ 53"
  shows "fl (of_int n) = of_int n"
proof (cases "n = 0")
  case False
  then have n: "0 < (of_int n :: rat)" "0 < n" using assms by auto
  have "of_int n < (2 :: rat) ^ 53" using of_int_less_iff [of n "2 ^ 53", where 'a = rat] assms(2) by simp
  then have "2 powi leading 2 (of_int n) < (2 :: rat) powi 53" using leading_bounds [OF n(1), of 2] by simp
  then have "leading 2 (of_int n) < 53" by (metis linorder_not_less one_le_numeral power_int_increasing)
  then have e: "ulp_exp (of_int n) \<le> 0" by (simp add: ulp_exp_def)
  define u where "u = (2 powi ulp_exp (of_int n) :: rat)"
  have u: "of_int n / u = of_int (n * 2 ^ nat (- ulp_exp (of_int n)))" "u \<noteq> 0"
    using e by (simp_all add: u_def power_int_def field_simps)
  have "fl (of_int n) = of_int (nearest_even (of_int n / u)) * u"
    using n by (simp add: fl_def fl_pos_def u_def)
  also have "\<dots> = (of_int n / u) * u" unfolding u(1) nearest_even_int by (rule refl)
  finally show ?thesis using u(2) by simp
qed (simp add: fl_def)

definition amount_text :: "int \<Rightarrow> string" where
  "amount_text sats = float_text (fl (fl (of_int sats) / 10 ^ 8))"

lemma amount_text_value:
  assumes "0 \<le> sats" and "sats < 10 ^ 15"
  shows "decimal_value (amount_text sats) = of_int sats / 10 ^ 8"
  using float_text_amount [OF assms] assms by (simp add: amount_text_def fl_of_int)

section \<open>Following programs\<close>

definition traces :: "(('w, 'e) ledger, 'b + 'a) timed \<Rightarrow> ('a \<Rightarrow> 'e list \<Rightarrow> bool) \<Rightarrow> bool" where
  "traces m Q \<longleftrightarrow> (\<forall>w l x d w' l'. m (w, l) = (Inr x, d, w', l') \<longrightarrow> (\<exists>es. l' = l @ es \<and> Q x es))"

lemma tracesD: "traces m Q \<Longrightarrow> m (w, l) = (Inr x, d, w', l') \<Longrightarrow> \<exists>es. l' = l @ es \<and> Q x es"
  unfolding traces_def by blast

lemma traces_weaken: "traces m Q \<Longrightarrow> (\<And>x es. Q x es \<Longrightarrow> R x es) \<Longrightarrow> traces m R"
  unfolding traces_def by meson

lemma traces_quiet: "unlogged m \<Longrightarrow> traces m (\<lambda>x es. es = [])"
  unfolding traces_def by (auto dest: unlogged_run)

lemma traces_return: "traces (returnT (Inr v)) (\<lambda>x es. x = v \<and> es = [])"
  by (simp add: traces_def returnT_apply)

lemma traces_lift: "traces (lift_call m) (\<lambda>x es. es = [])"
  by (rule traces_quiet) simp

text \<open>The three ways of sequencing.\<close>

definition followed_by :: "('a \<Rightarrow> 'e list \<Rightarrow> bool) \<Rightarrow> ('a \<Rightarrow> 'b \<Rightarrow> 'e list \<Rightarrow> bool) \<Rightarrow> 'b \<Rightarrow> 'e list \<Rightarrow> bool" where
  "followed_by Q R y es \<longleftrightarrow> (\<exists>x es1 es2. es = es1 @ es2 \<and> Q x es1 \<and> R x y es2)"

lemma traces_sequence:
  assumes "\<And>s y d s'. seq s = (Inr y, d, s') \<Longrightarrow> \<exists>x d1 s1 d2. m s = (Inr x, d1, s1) \<and> f x s1 = (Inr y, d2, s')"
    and "traces m Q" and "\<And>x. traces (f x) (R x)"
  shows "traces seq (followed_by Q R)"
  unfolding traces_def
proof (intro allI impI)
  fix w l y d w' l'
  assume "seq (w, l) = (Inr y, d, w', l')"
  then obtain x d1 w1 l1 d2 where "m (w, l) = (Inr x, d1, w1, l1)" "f x (w1, l1) = (Inr y, d2, w', l')"
    using assms(1) by (metis prod.collapse)
  from tracesD [OF assms(2) this(1)] tracesD [OF assms(3) this(2)]
  show "\<exists>es. l' = l @ es \<and> followed_by Q R y es" by (force simp: followed_by_def)
qed

lemma bindC_success:
  "bindC m f s = (Inr y, d, s') \<longleftrightarrow> (\<exists>x d1 s1 d2. m s = (Inr x, d1, s1) \<and> f x s1 = (Inr y, d2, s') \<and> d = d1 + d2)"
  by (auto simp: bindC_def bindT_apply returnT_apply split: prod.splits sum.splits)

lemma traces_bindP: "traces m Q \<Longrightarrow> (\<And>x. traces (f x) (R x)) \<Longrightarrow> traces (bindP m f) (followed_by Q R)"
  by (rule traces_sequence [of "bindP m f" m f]) (auto simp: bindP_success)

lemma traces_bindC: "traces m Q \<Longrightarrow> (\<And>x. traces (f x) (R x)) \<Longrightarrow> traces (bindC m f) (followed_by Q R)"
  by (rule traces_sequence [of "bindC m f" m f]) (auto simp: bindC_success)

lemma traces_or_fatal: "traces m Q \<Longrightarrow> traces (or_fatal label m) Q"
  unfolding traces_def or_fatal_success .

lemma fatal_on_success: "fatal_on m w = (Inr x, d, w') \<longleftrightarrow> m w = (Inr x, d, w')"
  by (auto simp: fatal_on_def bindT_apply returnT_apply split: prod.splits sum.splits)

lemma traces_fatal_on: "traces m Q \<Longrightarrow> traces (fatal_on m) Q"
  unfolding traces_def fatal_on_success .

lemma traces_quiet_first: "unlogged m \<Longrightarrow> (\<And>x. traces (f x) Q) \<Longrightarrow> traces (bindP m f) Q"
  by (rule traces_weaken [OF traces_bindP [OF traces_quiet]]) (auto simp: followed_by_def)

section \<open>The ledger of the funding tool\<close>

datatype fund_event =
    Looked TenantWallet "WalletResponse result"
  | Made TenantWallet "CreateWalletResponse result"
  | Derived TenantWallet "AddressResponse result"
  | Saw TenantWallet "BalanceResponse result"
  | Posted http_request "(int \<times> string) result"
  | Fed ProcessRawTxRequest "unit result"
  | Drew SpendToOutputsRequest "SpendDetailResponse result"

definition traced :: "'w client \<Rightarrow> ('w, fund_event) ledger client" where
  "traced C = \<lparr>cl_dial = \<lambda>a. lift_call (cl_dial C a), cl_Status = lift_call (cl_Status C),
     cl_ConnectPeer = \<lambda>q. lift_call (cl_ConnectPeer C q),
     cl_GetWallet = \<lambda>q. note_call (\<lambda>r. [Looked q r]) (cl_GetWallet C q),
     cl_CreateWallet = \<lambda>q. note_call (\<lambda>r. [Made q r]) (cl_CreateWallet C q),
     cl_NewAddress = \<lambda>q. note_call (\<lambda>r. [Derived q r]) (cl_NewAddress C q),
     cl_Balance = \<lambda>q. note_call (\<lambda>r. [Saw q r]) (cl_Balance C q),
     cl_P2PKHOutput = \<lambda>q. lift_call (cl_P2PKHOutput C q), cl_OpReturnOutput = \<lambda>q. lift_call (cl_OpReturnOutput C q),
     cl_SpendToOutputs = \<lambda>q. note_call (\<lambda>r. [Drew q r]) (cl_SpendToOutputs C q),
     cl_ListUTXOs = \<lambda>q. lift_call (cl_ListUTXOs C q), cl_ClearUTXOs = \<lambda>q. lift_call (cl_ClearUTXOs C q),
     cl_ProcessRawTx = \<lambda>q. note_call (\<lambda>r. [Fed q r]) (cl_ProcessRawTx C q)\<rparr>"

text \<open>
  Of the requests to the node, all are entered but the questions for its balance and for single outputs.
\<close>

definition rpc_prefix :: string where
  "rpc_prefix = CHR ''{'' # json_string ''id'' @ '':'' @ json_string ''blackjack'' @ '','' @ json_string ''jsonrpc'' @ '':''
     @ json_string ''1.0'' @ '','' @ json_string ''method'' @ '':''"

definition about :: "string \<Rightarrow> string \<Rightarrow> bool" where
  "about meth body = HasPrefix body (rpc_prefix @ json_string meth)"

definition tracked :: "string \<Rightarrow> bool" where
  "tracked body \<longleftrightarrow> \<not> about ''getbalance'' body \<and> \<not> about ''gettxout'' body"

definition traced_http :: "'w http \<Rightarrow> ('w, fund_event) ledger http" where
  "traced_http Do = (\<lambda>req. note_call (\<lambda>r. if tracked (hr_body req) then [Posted req r] else []) (Do req))"

lemma traces_noted: "traces (note_call f m) (\<lambda>x es. es = f (Inr x))"
  by (auto simp: traces_def note_call_run)

lemma unlogged_noted: "(\<And>x. f x = []) \<Longrightarrow> unlogged (note_call f m)"
  by (simp add: unlogged_iff note_call_def split_beta)

lemma traced_simps [simp]:
  "cl_GetWallet (traced C) q = note_call (\<lambda>r. [Looked q r]) (cl_GetWallet C q)"
  "cl_CreateWallet (traced C) q = note_call (\<lambda>r. [Made q r]) (cl_CreateWallet C q)"
  "cl_NewAddress (traced C) q = note_call (\<lambda>r. [Derived q r]) (cl_NewAddress C q)"
  "cl_Balance (traced C) q = note_call (\<lambda>r. [Saw q r]) (cl_Balance C q)"
  "cl_ListUTXOs (traced C) q = lift_call (cl_ListUTXOs C q)" "cl_ClearUTXOs (traced C) q = lift_call (cl_ClearUTXOs C q)"
  "cl_ProcessRawTx (traced C) pq = note_call (\<lambda>r. [Fed pq r]) (cl_ProcessRawTx C pq)"
  by (simp_all add: traced_def)

text \<open>The method of a request can be read off its body.\<close>

definition rpc_suffix :: "json list option \<Rightarrow> string" where
  "rpc_suffix params = '','' @ json_string ''params'' @ '':''
     @ jprint (\<lambda>_. []) '':'' 1 (case params of None \<Rightarrow> JNull | Some ps \<Rightarrow> JArr ps) @ ''}''"

lemma rpc_body_split: "rpc_body meth params = rpc_prefix @ json_string meth @ rpc_suffix params"
  by (simp add: rpc_body_def json_Marshal_def rpc_prefix_def rpc_suffix_def)

lemma about_rpc: "about meth (rpc_body m params) = HasPrefix (json_string m @ rpc_suffix params) (json_string meth)"
proof -
  have "HasPrefix (p @ s) (p @ t) = HasPrefix s t" for p s t
    by (induction p) (simp_all add: HasPrefix_def)
  then show ?thesis by (simp add: about_def rpc_body_split)
qed

lemma untracked [simp]:
  "\<not> tracked (rpc_body ''getbalance'' ps)" "\<not> tracked (rpc_body ''gettxout'' ps)"
  by (simp_all add: tracked_def about_rpc HasPrefix_def)

lemma tracked_requests [simp]:
  "tracked (rpc_body ''sendtoaddress'' ps)" "tracked (rpc_body ''getrawtransaction'' ps)"
  "tracked (rpc_body ''generate'' ps)" "tracked (rpc_body ''getblockcount'' ps)"
  by (simp_all add: tracked_def about_rpc json_string_def HasPrefix_def esc_char_def byte_val_def)

section \<open>What each part enters\<close>

lemma call_success:
  "call Do N meth params result w = (Inr x, d, w') \<longleftrightarrow>
     (\<exists>resp. Do (node_request N meth params) w = (Inr resp, d, w') \<and> rpc_answer meth result resp = Inr x)"
  by (auto simp: call_def bindT_apply returnT_apply bindR_def split: prod.splits sum.splits)

lemma traces_call:
  "traces (call (traced_http Do) N meth params result) (\<lambda>x es. \<exists>resp. rpc_answer meth result resp = Inr x
     \<and> es = (if tracked (rpc_body meth params) then [Posted (node_request N meth params) (Inr resp)] else []))"
  unfolding traces_def call_success traced_http_def
  by (auto simp: node_request_def note_call_run simp del: split_paired_Ex)

text \<open>Connecting and clearing leave no entry, and nor do the waits for coins.\<close>

interpretation tr: checking_client same_ledger "traced C" "\<lambda>_. False" "traced_http Do" "\<lambda>meth. \<forall>ps. \<not> tracked (rpc_body meth ps)"
  by unfold_locales (simp_all add: traced_def traced_http_def unlogged_noted node_request_def)

lemma unlogged_waits: "unlogged (waitSpendable (traced_http Do) N sats)"
  by (rule tr.frame_waits) simp

lemma unlogged_clear: "unlogged (clear_wallets (traced C) (traced_http Do) N ws)"
  by (rule tr.frame_clear) simp

text \<open>The wait for the node enters nothing but questions for the number of blocks.\<close>

definition polls :: "nodeRPC \<Rightarrow> fund_event list \<Rightarrow> bool" where
  "polls N es \<longleftrightarrow> (\<forall>x \<in> set es. \<exists>r. x = Posted (node_request N ''getblockcount'' None) r)"

definition polled :: "nodeRPC \<Rightarrow> ('w, fund_event) ledger \<Rightarrow> ('w, fund_event) ledger \<Rightarrow> bool" where
  "polled N x y \<longleftrightarrow> (\<exists>es. snd y = snd x @ es \<and> polls N es)"

interpretation polled: frame_relation "polled N"
proof unfold_locales
  show "polled N x x" for x :: "('w, fund_event) ledger"
    unfolding polled_def by (rule exI [of _ "[]"]) (simp add: polls_def)
  show "polled N x z" if "polled N x y" "polled N y z" for x y z :: "('w, fund_event) ledger"
    using that unfolding polled_def polls_def by (metis Un_iff append.assoc set_append)
qed

lemma traces_ready: "traces (fatal_on (waitReady (traced_http Do) N)) (\<lambda>_. polls N)"
proof -
  have "keepsT (polled N) (traced_http Do (node_request N ''getblockcount'' None))"
    by (auto simp: keepsT_def polled_def polls_def traced_http_def note_call_def split: prod.split)
  then have "keepsT (polled N) (fatal_on (waitReady (traced_http Do) N))"
    unfolding waitReady_def ready_pass_def blockCount_def call_def by (intro polled.fund_rules)
  then show ?thesis unfolding traces_def keepsT_def polled_def by (metis snd_conv)
qed

text \<open>
  A payment to a wallet: the node was asked for it once, and answered with the transaction. A delivery:
  that transaction was fetched from the node and handed to the service for the same wallet, with the
  number of blocks that the node named after it had mined one.
\<close>

definition payment :: "nodeRPC \<Rightarrow> bj_wallet \<Rightarrow> int \<Rightarrow> string \<Rightarrow> fund_event list \<Rightarrow> bool" where
  "payment N w sats txid es \<longleftrightarrow> (\<exists>amount resp.
     es = [Posted (node_request N ''sendtoaddress'' (Some [JStr (w_address w), JNum amount])) (Inr resp)]
     \<and> rpc_answer ''sendtoaddress'' (into a_string) resp = Inr txid
     \<and> (sats < 10 ^ 15 \<longrightarrow> decimal_value amount = of_int sats / 10 ^ 8))"

definition mined :: "nodeRPC \<Rightarrow> int \<Rightarrow> fund_event list \<Rightarrow> bool" where
  "mined N height es \<longleftrightarrow> (\<exists>block count hashes.
     es = [Posted (node_request N ''generate'' (Some [JNum ''1''])) (Inr block), Posted (node_request N ''getblockcount'' None) (Inr count)]
     \<and> rpc_answer ''generate'' (into a_string_list) block = Inr hashes
     \<and> rpc_answer ''getblockcount'' (into an_int) count = Inr height)"

definition delivery :: "nodeRPC \<Rightarrow> int \<Rightarrow> bj_wallet \<Rightarrow> string \<Rightarrow> fund_event list \<Rightarrow> bool" where
  "delivery N height w txid es \<longleftrightarrow> (\<exists>resp rawHex raw.
     es = [Posted (node_request N ''getrawtransaction'' (Some [JStr txid])) (Inr resp),
       Fed \<lparr>tenant_id = tenantID, wallet_id = w_id w, ProcessRawTxReq_raw_tx = raw, ProcessRawTxReq_height = to_int32 height\<rparr> (Inr ())]
     \<and> rpc_answer ''getrawtransaction'' (into a_string) resp = Inr rawHex \<and> Hex_DecodeString rawHex = Inr raw)"

definition topped_up :: "nodeRPC \<Rightarrow> int \<Rightarrow> bj_wallet \<Rightarrow> int \<Rightarrow> fund_event list \<Rightarrow> fund_event list \<Rightarrow> bool" where
  "topped_up N height w spendable paid fed \<longleftrightarrow>
     (if spendable < seedSatoshis
      then \<exists>txid. payment N w (seedSatoshis - spendable) txid paid \<and> delivery N height w txid fed
      else paid = [] \<and> fed = [])"

lemma traces_balance: "traces (or_fatal label (cl_Balance (traced C) q)) (\<lambda>bal es. es = [Saw q (Inr bal)])"
  unfolding traced_simps by (intro traces_or_fatal traces_noted)

lemma traces_send:
  assumes "spendable < seedSatoshis"
  shows "traces (sendToAddress (traced_http Do) N (w_address w) (to_int64 (seedSatoshis - spendable)))
     (payment N w (seedSatoshis - spendable))"
proof (rule traces_weaken)
  let ?sats = "to_int64 (seedSatoshis - spendable)"
  let ?params = "Some [JStr (w_address w), JNum (amount_text ?sats)]"
  show "traces (sendToAddress (traced_http Do) N (w_address w) ?sats)
    (\<lambda>x es. \<exists>resp. rpc_answer ''sendtoaddress'' (into a_string) resp = Inr x
     \<and> es = (if tracked (rpc_body ''sendtoaddress'' ?params) then [Posted (node_request N ''sendtoaddress'' ?params) (Inr resp)] else []))"
    unfolding sendToAddress_def amount_text_def [symmetric] by (rule traces_call)
  have "decimal_value (amount_text ?sats) = of_int (seedSatoshis - spendable) / 10 ^ 8" if "seedSatoshis - spendable < 10 ^ 15"
  proof -
    have "?sats = seedSatoshis - spendable" using that assms by (intro to_int64_id) (simp add: in_int64_def)
    with that assms show ?thesis by (simp add: amount_text_value)
  qed
  then show "payment N w (seedSatoshis - spendable) x es"
    if "\<exists>resp. rpc_answer ''sendtoaddress'' (into a_string) resp = Inr x
     \<and> es = (if tracked (rpc_body ''sendtoaddress'' ?params) then [Posted (node_request N ''sendtoaddress'' ?params) (Inr resp)] else [])" for x es
    using that unfolding payment_def by auto
qed

lemma traces_mine:
  assumes "\<And>height. traces (f height) (Q height)"
  shows "traces (bindP (or_fatal l1 (generate (traced_http Do) N 1)) (\<lambda>_. bindP (or_fatal l2 (blockCount (traced_http Do) N)) f))
     (\<lambda>x es. \<exists>height es1 es2. es = es1 @ es2 \<and> mined N height es1 \<and> Q height x es2)"
proof -
  have one: "show_int 1 = ''1''" by code_simp
  let ?block = "\<lambda>resp. Posted (node_request N ''generate'' (Some [JNum ''1''])) (Inr resp)"
    and ?count = "\<lambda>resp. Posted (node_request N ''getblockcount'' None) (Inr resp)"
  let ?G = "\<lambda>_ es. \<exists>resp hashes. es = [?block resp] \<and> rpc_answer ''generate'' (into a_string_list) resp = Inr hashes"
    and ?B = "\<lambda>height es. \<exists>resp. es = [?count resp] \<and> rpc_answer ''getblockcount'' (into an_int) resp = Inr height"
  have "traces (generate (traced_http Do) N 1) ?G"
    unfolding generate_def one by (rule traces_weaken [OF traces_bindC [OF traces_call traces_return]]) (auto simp: followed_by_def)
  moreover have "traces (blockCount (traced_http Do) N) ?B"
    unfolding blockCount_def by (rule traces_weaken [OF traces_call]) (auto simp del: split_paired_Ex)
  moreover have "\<exists>height es1 es2. es = es1 @ es2 \<and> mined N height es1 \<and> Q height x es2"
    if "followed_by ?G (\<lambda>_. followed_by ?B Q) x es" for x es
  proof -
    from that obtain block count hashes height es2 where es: "es = [?block block] @ [?count count] @ es2"
      and "rpc_answer ''generate'' (into a_string_list) block = Inr hashes" "rpc_answer ''getblockcount'' (into an_int) count = Inr height"
      and Q: "Q height x es2"
      unfolding followed_by_def by blast
    then have "mined N height [?block block, ?count count]" unfolding mined_def by blast
    with Q show ?thesis unfolding es by (intro exI [of _ height] exI [of _ "[?block block, ?count count]"] exI [of _ es2]) simp
  qed
  ultimately show ?thesis
    by (intro traces_weaken [OF traces_bindP [OF traces_or_fatal traces_bindP [OF traces_or_fatal assms]]]) assumption+
qed

text \<open>What the loops over the wallets enter, by recursion over the wallets.\<close>

fun seen :: "bj_wallet list \<Rightarrow> fund_event list \<Rightarrow> bool" where
  "seen [] es \<longleftrightarrow> es = []"
| "seen (w # ws) es \<longleftrightarrow> (\<exists>b es'. es = Saw (own_wallet (w_id w)) (Inr b) # es' \<and> seen ws es')"

fun sent :: "nodeRPC \<Rightarrow> (string \<times> string) list \<Rightarrow> bj_wallet list \<Rightarrow> (string \<times> string) list \<Rightarrow> fund_event list \<Rightarrow> bool" where
  "sent N funded [] funded' es \<longleftrightarrow> funded' = funded \<and> es = []"
| "sent N funded (w # ws) funded' es \<longleftrightarrow> (\<exists>bal es'. es = Saw (own_wallet (w_id w)) (Inr bal) # es'
     \<and> (if seedSatoshis \<le> BalanceResp_spendable bal then sent N funded ws funded' es'
        else followed_by (payment N w (seedSatoshis - BalanceResp_spendable bal))
          (\<lambda>txid. sent N (AList.update (w_id w) txid funded) ws) funded' es'))"

fun fed :: "nodeRPC \<Rightarrow> int \<Rightarrow> (string \<times> string) list \<Rightarrow> bj_wallet list \<Rightarrow> fund_event list \<Rightarrow> bool" where
  "fed N height funded [] es \<longleftrightarrow> es = []"
| "fed N height funded (w # ws) es \<longleftrightarrow> (\<exists>es1 es2. es = es1 @ es2 \<and> fed N height funded ws es2
     \<and> (case map_of funded (w_id w) of None \<Rightarrow> es1 = [] | Some txid \<Rightarrow> delivery N height w txid es1))"

lemma traces_sum: "traces (sum_needed (traced C) needed ws) (\<lambda>_. seen ws)"
proof (induction ws arbitrary: needed)
  case Nil
  show ?case by (simp add: traces_weaken [OF traces_return])
next
  case (Cons w ws)
  show ?case
    unfolding sum_needed.simps
    by (rule traces_weaken [OF traces_bindP [OF traces_balance Cons.IH]]) (auto simp: followed_by_def)
qed

lemma traces_send_funds: "traces (send_funds (traced C) (traced_http Do) N funded ws) (sent N funded ws)"
proof (induction ws arbitrary: funded)
  case Nil
  show ?case by (simp add: traces_weaken [OF traces_return])
next
  case (Cons w ws)
  let ?rest = "\<lambda>bal. if seedSatoshis \<le> BalanceResp_spendable bal then send_funds (traced C) (traced_http Do) N funded ws
     else bindP (or_fatal (''fund '' @ w_id w)
            (sendToAddress (traced_http Do) N (w_address w) (to_int64 (seedSatoshis - BalanceResp_spendable bal)))) (\<lambda>txid.
          send_funds (traced C) (traced_http Do) N (AList.update (w_id w) txid funded) ws)"
  have rest: "traces (?rest bal) (\<lambda>funded' es. if seedSatoshis \<le> BalanceResp_spendable bal then sent N funded ws funded' es
      else followed_by (payment N w (seedSatoshis - BalanceResp_spendable bal))
        (\<lambda>txid. sent N (AList.update (w_id w) txid funded) ws) funded' es)" for bal
    using Cons.IH by (auto intro!: traces_bindP traces_or_fatal traces_send)
  show ?case
    unfolding send_funds.simps
    by (rule traces_weaken [OF traces_bindP [OF traces_balance rest]])
      (simp only: followed_by_def [of "\<lambda>bal es. es = _ bal"] sent.simps, auto split del: if_split)
qed

lemma traces_raw:
  "traces (rawTransaction (traced_http Do) N txid) (\<lambda>raw es. \<exists>resp rawHex.
     es = [Posted (node_request N ''getrawtransaction'' (Some [JStr txid])) (Inr resp)]
     \<and> rpc_answer ''getrawtransaction'' (into a_string) resp = Inr rawHex \<and> Hex_DecodeString rawHex = Inr raw)"
proof -
  have "traces (returnT (Hex_DecodeString h)) (\<lambda>raw es. Hex_DecodeString h = Inr raw \<and> es = [])" for h
    by (simp add: traces_def returnT_apply)
  from traces_bindC [OF traces_call this] show ?thesis
    unfolding rawTransaction_def by (rule traces_weaken) (auto simp: followed_by_def)
qed

lemma traces_process_funds: "traces (process_funds (traced C) (traced_http Do) N height funded ws) (\<lambda>_. fed N height funded ws)"
proof (induction ws)
  case Nil
  show ?case by (simp add: traces_weaken [OF traces_return])
next
  case (Cons w ws)
  show ?case
  proof (cases "map_of funded (w_id w)")
    case None
    with Cons show ?thesis by simp
  next
    case (Some txid)
    let ?feed = "\<lambda>raw. \<lparr>tenant_id = tenantID, wallet_id = w_id w, ProcessRawTxReq_raw_tx = raw,
             ProcessRawTxReq_height = to_int32 height\<rparr>"
    have feed: "traces (or_fatal label (cl_ProcessRawTx (traced C) (?feed raw))) (\<lambda>_ es. es = [Fed (?feed raw) (Inr ())])" for label raw
      unfolding traced_simps by (rule traces_weaken [OF traces_or_fatal [OF traces_noted]]) simp
    have deliver: "\<exists>es1 es2. Posted (node_request N ''getrawtransaction'' (Some [JStr txid])) (Inr resp) # Fed (?feed raw) (Inr ()) # es = es1 @ es2
        \<and> fed N height funded ws es2 \<and> delivery N height w txid es1"
      if "rpc_answer ''getrawtransaction'' (into a_string) resp = Inr rawHex" "Hex_DecodeString rawHex = Inr raw" "fed N height funded ws es"
      for resp rawHex raw es
      unfolding delivery_def
      by (rule exI [of _ "[Posted (node_request N ''getrawtransaction'' (Some [JStr txid])) (Inr resp), Fed (?feed raw) (Inr ())]"],
          rule exI [of _ es]) (use that in auto)
    show ?thesis
      unfolding process_funds.simps Some option.simps
      by (rule traces_weaken [OF traces_bindP [OF traces_or_fatal [OF traces_raw] traces_bindP [OF feed Cons.IH]]])
        (use deliver in \<open>auto simp: followed_by_def Some\<close>)
  qed
qed

lemma traces_fund_wallets:
  "traces (fund_wallets (traced C) (traced_http Do) N ws) (\<lambda>_ es. \<exists>funded height es1 es2 es3 es4. es = es1 @ es2 @ es3 @ es4
     \<and> seen ws es1 \<and> sent N [] ws funded es2
     \<and> (if funded = [] then es3 = [] \<and> es4 = [] else mined N height es3 \<and> fed N height funded ws es4))"
proof -
  have last: "traces (if funded = [] then returnT (Inr ())
     else bindP (or_fatal ''mine funding block'' (generate (traced_http Do) N 1)) (\<lambda>_.
          bindP (or_fatal ''funding block height'' (blockCount (traced_http Do) N)) (\<lambda>height.
          process_funds (traced C) (traced_http Do) N height funded ws)))
     (\<lambda>_ es. \<exists>height es3 es4. es = es3 @ es4
        \<and> (if funded = [] then es3 = [] \<and> es4 = [] else mined N height es3 \<and> fed N height funded ws es4))" for funded
  proof (cases "funded = []")
    case True
    then show ?thesis by (simp add: traces_weaken [OF traces_return])
  next
    case False
    then show ?thesis
      using traces_mine [OF traces_process_funds] by simp
  qed
  have wait: "unlogged (if 0 < needed then or_fatal ''node funding balance'' (waitSpendable (traced_http Do) N needed)
     else returnT (Inr ()))" for needed
    by (simp add: ledger.frame_rules unlogged_waits)
  show ?thesis
    unfolding fund_wallets_def
    by (rule traces_weaken [OF traces_bindP [OF traces_sum traces_quiet_first [OF wait traces_bindP [OF traces_send_funds last]]]])
      (unfold followed_by_def, blast)
qed

text \<open>
  Where a wallet comes from: it was looked up, after it had been created if there was none, and its address
  is the first that the service listed; when it listed none, the service was asked for a new one.
\<close>

definition found :: "bj_wallet \<Rightarrow> fund_event list \<Rightarrow> bool" where
  "found w es \<longleftrightarrow> (\<exists>missed got fresh. es = missed @ [Looked (own_wallet (w_id w)) (Inr got)] @ fresh
     \<and> (missed = [] \<or> (\<exists>e made. is_NotFound (Inl e :: WalletResponse result)
          \<and> missed = [Looked (own_wallet (w_id w)) (Inl e), Made (own_wallet (w_id w)) (Inr made)]))
     \<and> (case (case WalletResp_wallet got of None \<Rightarrow> [] | Some v \<Rightarrow> Wallet_addresses v) of
          a # _ \<Rightarrow> fresh = [] \<and> w_address w = a
        | [] \<Rightarrow> \<exists>addr. fresh = [Derived (own_wallet (w_id w)) (Inr addr)]
            \<and> w_address w = (case AddressResp_address addr of None \<Rightarrow> [] | Some d \<Rightarrow> DerivedAddress_address d)))"

lemma traces_ensureWallet: "traces (ensureWallet (traced C) wid) (\<lambda>w es. w_id w = wid \<and> found w es)"
proof -
  let ?q = "own_wallet wid"
  define rest :: "WalletResponse \<Rightarrow> (('a, fund_event) ledger, bj_wallet) program" where
    "rest = (\<lambda>got. case (case WalletResp_wallet got of None \<Rightarrow> [] | Some v \<Rightarrow> Wallet_addresses v) of
       a # _ \<Rightarrow> returnT (Inr \<lparr>w_id = wid, w_address = a\<rparr>)
     | [] \<Rightarrow>
         bindP (or_fatal (''new address '' @ wid) (cl_NewAddress (traced C) ?q)) (\<lambda>addr.
         returnT (Inr \<lparr>w_id = wid,
           w_address = (case AddressResp_address addr of None \<Rightarrow> [] | Some d \<Rightarrow> DerivedAddress_address d)\<rparr>)))"
  let ?fresh = "\<lambda>got w es. w_id w = wid
     \<and> (case (case WalletResp_wallet got of None \<Rightarrow> [] | Some v \<Rightarrow> Wallet_addresses v) of
          a # _ \<Rightarrow> es = [] \<and> w_address w = a
        | [] \<Rightarrow> \<exists>addr. es = [Derived ?q (Inr addr)]
            \<and> w_address w = (case AddressResp_address addr of None \<Rightarrow> [] | Some d \<Rightarrow> DerivedAddress_address d))"
  have rest: "traces (rest got) (?fresh got)" for got
  proof (cases "case WalletResp_wallet got of None \<Rightarrow> [] | Some v \<Rightarrow> Wallet_addresses v")
    case Nil
    then show ?thesis
      unfolding rest_def traced_simps Nil list.simps
      by (intro traces_weaken [OF traces_bindP [OF traces_or_fatal [OF traces_noted] traces_return]]) (auto simp: followed_by_def)
  next
    case (Cons a as)
    then show ?thesis unfolding rest_def Cons list.simps by (intro traces_weaken [OF traces_return]) auto
  qed
  show ?thesis
    unfolding traces_def
  proof (intro allI impI)
    fix s l w d s' l'
    assume run: "ensureWallet (traced C) wid (s, l) = (Inr w, d, s', l')"
    obtain first d1 s1 where g: "cl_GetWallet C ?q s = (first, d1, s1)" by (cases "cl_GetWallet C ?q s")
    show "\<exists>es. l' = l @ es \<and> w_id w = wid \<and> found w es"
    proof (cases "is_NotFound first")
      case False
      with run g obtain got d2 where "first = Inr got" "rest got (s1, l @ [Looked ?q (Inr got)]) = (Inr w, d2, s', l')"
        unfolding ensureWallet_def rest_def [symmetric]
        by (auto simp: bindT_apply bindP_success or_fatal_success returnT_apply note_call_def split: prod.splits)
      with tracesD [OF rest this(2)] show ?thesis
        unfolding found_def by (elim exE conjE) (rule exI, rule conjI, simp, rule conjI, simp, rule exI [of _ "[]"], force)
    next
      case True
      then obtain e where e: "first = Inl e" by (cases first) auto
      with True run g obtain made got s3 d2
        where "rest got (s3, l @ [Looked ?q (Inl e), Made ?q (Inr made), Looked ?q (Inr got)]) = (Inr w, d2, s', l')"
        unfolding ensureWallet_def rest_def [symmetric]
        by (auto simp: bindT_apply bindP_success or_fatal_success returnT_apply note_call_def split: prod.splits)
      with tracesD [OF rest this] True e show ?thesis
        unfolding found_def
        by (elim exE conjE) (rule exI, rule conjI, simp, rule conjI, simp,
          rule exI [of _ "[Looked ?q (Inl e), Made ?q (Inr made)]"], force)
    qed
  qed
qed

text \<open>The two wallets of the demo, spelled out.\<close>

lemma sent_step:
  assumes "sent N funded (w # ws) funded' es"
  shows "\<exists>bal paid es' next. es = Saw (own_wallet (w_id w)) (Inr bal) # paid @ es' \<and> sent N next ws funded' es'
    \<and> (seedSatoshis \<le> BalanceResp_spendable bal \<and> paid = [] \<and> next = funded
       \<or> BalanceResp_spendable bal < seedSatoshis
         \<and> (\<exists>txid. payment N w (seedSatoshis - BalanceResp_spendable bal) txid paid \<and> next = AList.update (w_id w) txid funded))"
proof -
  obtain bal es' where es: "es = Saw (own_wallet (w_id w)) (Inr bal) # es'"
    and rest: "if seedSatoshis \<le> BalanceResp_spendable bal then sent N funded ws funded' es'
      else followed_by (payment N w (seedSatoshis - BalanceResp_spendable bal))
        (\<lambda>txid. sent N (AList.update (w_id w) txid funded) ws) funded' es'"
    using assms by auto
  show ?thesis
  proof (cases "seedSatoshis \<le> BalanceResp_spendable bal")
    case True
    with es rest show ?thesis by (metis append_Nil)
  next
    case False
    with rest obtain txid paid r where "es' = paid @ r" "payment N w (seedSatoshis - BalanceResp_spendable bal) txid paid"
        "sent N (AList.update (w_id w) txid funded) ws funded' r"
      by (auto simp: followed_by_def)
    with es False show ?thesis
      by (intro exI [of _ bal] exI [of _ paid] exI [of _ r] exI [of _ "AList.update (w_id w) txid funded"]) auto
  qed
qed

lemma update_not_Nil [simp]: "AList.update k v al \<noteq> []"
  by (cases al) auto

lemma two_wallets:
  fixes p1 :: BalanceResponse
  assumes "w_id player \<noteq> w_id house" and "seen [player, house] es1" and "sent N [] [player, house] funded es2"
    and "if funded = [] then es3 = [] \<and> es4 = [] else mined N height es3 \<and> fed N height funded [player, house] es4"
  shows "\<exists>p1 h1 p2 h2 paid_p paid_h fed_p fed_h.
    es1 @ es2 @ es3 @ es4 = [Saw (own_wallet (w_id player)) (Inr p1), Saw (own_wallet (w_id house)) (Inr h1),
        Saw (own_wallet (w_id player)) (Inr p2)] @ paid_p @ [Saw (own_wallet (w_id house)) (Inr h2)] @ paid_h @ es3 @ fed_p @ fed_h
    \<and> topped_up N height player (BalanceResp_spendable p2) paid_p fed_p
    \<and> topped_up N height house (BalanceResp_spendable h2) paid_h fed_h
    \<and> (if paid_p = [] \<and> paid_h = [] then es3 = [] else mined N height es3)"
proof -
  obtain p1 h1 where es1: "es1 = [Saw (own_wallet (w_id player)) (Inr p1), Saw (own_wallet (w_id house)) (Inr h1)]"
    using assms(2) by auto
  obtain p2 paid_p r mid where p: "es2 = Saw (own_wallet (w_id player)) (Inr p2) # paid_p @ r" "sent N mid [house] funded r"
      "seedSatoshis \<le> BalanceResp_spendable p2 \<and> paid_p = [] \<and> mid = []
       \<or> BalanceResp_spendable p2 < seedSatoshis
         \<and> (\<exists>txid. payment N player (seedSatoshis - BalanceResp_spendable p2) txid paid_p \<and> mid = AList.update (w_id player) txid [])"
    using sent_step [OF assms(3)] by blast
  obtain h2 paid_h where h: "r = Saw (own_wallet (w_id house)) (Inr h2) # paid_h"
      "seedSatoshis \<le> BalanceResp_spendable h2 \<and> paid_h = [] \<and> funded = mid
       \<or> BalanceResp_spendable h2 < seedSatoshis
         \<and> (\<exists>txid. payment N house (seedSatoshis - BalanceResp_spendable h2) txid paid_h \<and> funded = AList.update (w_id house) txid mid)"
    using sent_step [OF p(2)] by (metis append_Nil2 sent.simps(1))
  obtain fed_p fed_h where f: "es4 = fed_p @ fed_h"
      "case map_of funded (w_id player) of None \<Rightarrow> fed_p = [] | Some txid \<Rightarrow> delivery N height player txid fed_p"
      "case map_of funded (w_id house) of None \<Rightarrow> fed_h = [] | Some txid \<Rightarrow> delivery N height house txid fed_h"
  proof (cases "funded = []")
    case True
    with assms(4) show thesis by (intro that [of "[]" "[]"]) auto
  next
    case False
    with assms(4) that show thesis by auto
  qed
  have "topped_up N height player (BalanceResp_spendable p2) paid_p fed_p"
    using p(3) h(2) f(2) assms(1) unfolding topped_up_def by (elim disjE conjE exE; auto)
  moreover have "topped_up N height house (BalanceResp_spendable h2) paid_h fed_h"
    using p(3) h(2) f(3) assms(1) unfolding topped_up_def by (elim disjE conjE exE; auto)
  moreover have "if paid_p = [] \<and> paid_h = [] then es3 = [] else mined N height es3"
    using p(3) h(2) assms(4) by (elim disjE conjE exE; auto simp: payment_def)
  ultimately show ?thesis unfolding es1 p(1) h(1) f(1) by (auto simp only: append_Cons append_Nil append_assoc) blast
qed

section \<open>Properties\<close>

text \<open>
  C30. What the funding tool does: when \<open>fundMain\<close> comes back, it has found out the address of each of the two
  wallets from the service (the first one listed, or a new one; a missing wallet was created first), has
  looked at both balances twice, and for each wallet that was short of the seed of 250000 satoshis at the
  second look, and for no other, the node was asked exactly once to pay what was missing (an amount of up
  to fifteen digits is written exactly, to the satoshi) to that wallet's address. If anything was paid a
  block was mined, and then each transaction the node named was fetched and handed to the service for the
  same wallet, with the number of blocks. Nothing else was sent to the node, failed requests included, but
  the first polls of \<open>waitReady\<close> and questions for balances and outputs. (\<^verbatim>\<open>docs/blackjack-demo.md\<close>
  speaks of 250000 satoshis for each wallet: that is so only for a wallet with no spendable coins.)
\<close>

theorem funding_tops_up:
  assumes "fundMain (traced C) (traced_http Do) getenv (w, []) = (Inr (), d, w', l)"
  shows "\<exists>ready player found_p house found_h p1 h1 p2 h2 paid_p paid_h mining height fed_p fed_h.
    l = ready @ found_p @ found_h
      @ [Saw (own_wallet playerWallet) (Inr p1), Saw (own_wallet houseWallet) (Inr h1), Saw (own_wallet playerWallet) (Inr p2)]
      @ paid_p @ [Saw (own_wallet houseWallet) (Inr h2)] @ paid_h @ mining @ fed_p @ fed_h
    \<and> polls (fund_node getenv) ready
    \<and> w_id player = playerWallet \<and> found player found_p \<and> w_id house = houseWallet \<and> found house found_h
    \<and> topped_up (fund_node getenv) height player (BalanceResp_spendable p2) paid_p fed_p
    \<and> topped_up (fund_node getenv) height house (BalanceResp_spendable h2) paid_h fed_h
    \<and> (if paid_p = [] \<and> paid_h = [] then mining = [] else mined (fund_node getenv) height mining)"
proof -
  let ?N = "fund_node getenv"
  have "traces (fundMain (traced C) (traced_http Do) getenv)
     (followed_by (\<lambda>_ :: unit. polls ?N) (\<lambda>_. followed_by (\<lambda>p es. w_id p = playerWallet \<and> found p es)
       (\<lambda>p. followed_by (\<lambda>h es. w_id h = houseWallet \<and> found h es)
       (\<lambda>h _ es. \<exists>funded height es1 es2 es3 es4. es = es1 @ es2 @ es3 @ es4 \<and> seen [p, h] es1 \<and> sent ?N [] [p, h] funded es2
          \<and> (if funded = [] then es3 = [] \<and> es4 = [] else mined ?N height es3 \<and> fed ?N height funded [p, h] es4)))))"
    unfolding fundMain_def Let_def
    by (rule traces_quiet_first [OF tr.frame_start(1) traces_quiet_first [OF tr.frame_peer
         traces_bindP [OF traces_ready traces_bindP [OF traces_ensureWallet traces_bindP [OF traces_ensureWallet
         traces_quiet_first [OF unlogged_clear traces_fund_wallets]]]]]])
  from tracesD [OF this assms] obtain ready found_p found_h player house funded height es1 es2 es3 es4 where
      first: "polls ?N ready" "w_id player = playerWallet \<and> found player found_p" "w_id house = houseWallet \<and> found house found_h"
    and rest: "seen [player, house] es1" "sent ?N [] [player, house] funded es2"
      "if funded = [] then es3 = [] \<and> es4 = [] else mined ?N height es3 \<and> fed ?N height funded [player, house] es4"
    and l: "l = ready @ found_p @ found_h @ es1 @ es2 @ es3 @ es4"
    unfolding followed_by_def by (elim exE conjE) (rule that, (assumption | rule conjI)+, simp)
  have "w_id player \<noteq> w_id house" using first by (simp add: playerWallet_def houseWallet_def)
  from two_wallets [OF this rest] obtain p1 h1 p2 h2 paid_p paid_h fed_p fed_h where
      rest: "es1 @ es2 @ es3 @ es4 = [Saw (own_wallet playerWallet) (Inr p1), Saw (own_wallet houseWallet) (Inr h1),
        Saw (own_wallet playerWallet) (Inr p2)] @ paid_p @ [Saw (own_wallet houseWallet) (Inr h2)] @ paid_h @ es3 @ fed_p @ fed_h"
    and tops: "topped_up ?N height player (BalanceResp_spendable p2) paid_p fed_p"
      "topped_up ?N height house (BalanceResp_spendable h2) paid_h fed_h"
      "if paid_p = [] \<and> paid_h = [] then es3 = [] else mined ?N height es3"
    using first by (elim exE conjE) (simp only:)
  have whole: "l = ready @ found_p @ found_h
      @ [Saw (own_wallet playerWallet) (Inr p1), Saw (own_wallet houseWallet) (Inr h1), Saw (own_wallet playerWallet) (Inr p2)]
      @ paid_p @ [Saw (own_wallet houseWallet) (Inr h2)] @ paid_h @ es3 @ fed_p @ fed_h"
    unfolding l rest by (rule refl)
  show ?thesis
    by (intro exI conjI) (rule whole first(1) conjunct1 [OF first(2)] conjunct2 [OF first(2)] conjunct1 [OF first(3)]
        conjunct2 [OF first(3)] tops)+
qed

text \<open>A node that has one coin and answers everything else with \<^verbatim>\<open>null\<close>.\<close>

definition one_coin_node :: "'w http" where
  "one_coin_node req = returnT (Inr (200,
     if about ''getbalance'' (hr_body req) then CHR ''{'' # json_string ''result'' @ '':1}''
     else CHR ''{'' # json_string ''result'' @ '':null}''))"

definition succeeds :: "('w, 'b + 'a) timed \<Rightarrow> ('a \<Rightarrow> bool) \<Rightarrow> bool" where
  "succeeds m P \<longleftrightarrow> (\<forall>s. \<exists>x d s'. m s = (Inr x, d, s') \<and> P x)"

lemma succeeds_return: "P v \<Longrightarrow> succeeds (returnT (Inr v)) P"
  by (simp add: succeeds_def returnT_apply)

lemma succeeds_bindP: "succeeds m P \<Longrightarrow> (\<And>x. P x \<Longrightarrow> succeeds (f x) Q) \<Longrightarrow> succeeds (bindP m f) Q"
  unfolding succeeds_def bindP_success by (intro allI) blast

lemma succeeds_bindC: "succeeds m P \<Longrightarrow> (\<And>x. P x \<Longrightarrow> succeeds (f x) Q) \<Longrightarrow> succeeds (bindC m f) Q"
  unfolding succeeds_def bindC_success by (intro allI) blast

lemma succeeds_or_fatal: "succeeds m P \<Longrightarrow> succeeds (or_fatal label m) P"
  unfolding succeeds_def or_fatal_success .

lemma succeeds_fatal_on: "succeeds m P \<Longrightarrow> succeeds (fatal_on m) P"
  unfolding succeeds_def fatal_on_success .

lemma succeeds_lift: "succeeds m P \<Longrightarrow> succeeds (lift_call m) P"
  unfolding succeeds_def lift_call_def by (metis (no_types, lifting) old.prod.case surj_pair)

lemma succeeds_note: "succeeds m P \<Longrightarrow> succeeds (note_call f m) P"
  unfolding succeeds_def by (metis note_call_run surj_pair)

lemma one_coin_answers:
  "rpc_answer meth result (200, CHR ''{'' # json_string ''result'' @ '':1}'') = result (Some (JNum ''1''))"
  "rpc_answer meth result (200, CHR ''{'' # json_string ''result'' @ '':null}'') = result (Some JNull)"
proof -
  have "unmarshal_envelope (CHR ''{'' # json_string ''result'' @ '':1}'') = Inr \<lparr>env_Result = Some (JNum ''1''), env_Error = None\<rparr>"
    "unmarshal_envelope (CHR ''{'' # json_string ''result'' @ '':null}'') = Inr \<lparr>env_Result = Some JNull, env_Error = None\<rparr>"
    by code_simp+
  then show "rpc_answer meth result (200, CHR ''{'' # json_string ''result'' @ '':1}'') = result (Some (JNum ''1''))"
    "rpc_answer meth result (200, CHR ''{'' # json_string ''result'' @ '':null}'') = result (Some JNull)"
    by (simp_all add: rpc_answer_def)
qed

lemma about_balance:
  "about ''getbalance'' (rpc_body ''getbalance'' ps)"
  "\<not> about ''getbalance'' (rpc_body ''getblockcount'' ps)" "\<not> about ''getbalance'' (rpc_body ''generate'' ps)"
  "\<not> about ''getbalance'' (rpc_body ''sendtoaddress'' ps)" "\<not> about ''getbalance'' (rpc_body ''getrawtransaction'' ps)"
  by (simp_all add: about_rpc json_string_def HasPrefix_def esc_char_def byte_val_def)

lemma one_coin_call:
  assumes "result (Some (if about ''getbalance'' (rpc_body meth params) then JNum ''1'' else JNull)) = Inr x" and "P x"
  shows "succeeds (call (traced_http one_coin_node) N meth params result) P"
  unfolding succeeds_def call_success traced_http_def
  using assms by (auto simp: one_coin_node_def node_request_def note_call_run returnT_apply one_coin_answers simp del: split_paired_All split: if_splits)

text \<open>A wait that is over at its first pass.\<close>

lemma retry_first: "body acc s = (Inl r, d, s') \<Longrightarrow> 0 < budget \<Longrightarrow> retry budget body acc s = (Inl r, d, s')"
  by (simp add: retry.simps)

lemma succeeds_wait:
  assumes "succeeds m P" and "\<And>x. P x \<Longrightarrow> g (Inr x) = Inl ()"
  shows "succeeds (bindT (retry (60 * a_second) (\<lambda>_. bindT m (\<lambda>r. returnT (g r))) acc) (\<lambda>r. returnT (case r of Inl _ \<Rightarrow> Inr () | Inr z \<Rightarrow> h z)))
    (\<lambda>_. True)"
  unfolding succeeds_def
proof (intro allI)
  fix s
  obtain x d s' where "m s = (Inr x, d, s')" "P x" using assms(1) unfolding succeeds_def by blast
  then have "retry (60 * a_second) (\<lambda>_. bindT m (\<lambda>r. returnT (g r))) acc s = (Inl (), d, s')"
    using assms(2) by (intro retry_first) (simp_all add: bindT_apply returnT_apply a_second_def)
  then show "\<exists>x d s'. bindT (retry (60 * a_second) (\<lambda>_. bindT m (\<lambda>r. returnT (g r))) acc)
      (\<lambda>r. returnT (case r of Inl _ \<Rightarrow> Inr () | Inr z \<Rightarrow> h z)) s = (Inr x, d, s') \<and> True"
    by (simp add: bindT_apply returnT_apply)
qed

lemma one_coin_value: "ParseFloat ''1'' = Some 1" "int64_of_float (fl 0) = 0" "int64_of_float (fl (10 ^ 8)) = 10 ^ 8"
proof -
  have "decimal_value ''1'' = 1" by code_simp
  then show "ParseFloat ''1'' = Some 1" using fl_of_int [of 1] by (simp add: ParseFloat_def)
  show "int64_of_float (fl (10 ^ 8)) = 10 ^ 8"
    using fl_of_int [of "10 ^ 8"] by (simp add: int64_of_float_def in_int64_def)
qed (simp add: fl_def int64_of_float_def in_int64_def)

lemma one_coin_waits:
  "succeeds (waitReady (traced_http one_coin_node) N) (\<lambda>_. True)"
  "sats \<le> 10 ^ 8 \<Longrightarrow> succeeds (waitSpendable (traced_http one_coin_node) N sats) (\<lambda>_. True)"
proof -
  have "succeeds (blockCount (traced_http one_coin_node) N) (\<lambda>_. True)"
    unfolding blockCount_def by (rule one_coin_call) (simp_all add: about_balance into_def)
  then show "succeeds (waitReady (traced_http one_coin_node) N) (\<lambda>_. True)"
    unfolding waitReady_def ready_pass_def by (rule succeeds_wait) simp
  have balance: "succeeds (balanceSats (traced_http one_coin_node) N) (\<lambda>x. x = 10 ^ 8)"
    unfolding balanceSats_def
    by (intro succeeds_bindC [of _ "\<lambda>x. x = 1"] one_coin_call) (auto simp: about_balance into_def one_coin_value simp del: power_numeral intro!: succeeds_return)
  show "succeeds (waitSpendable (traced_http one_coin_node) N sats) (\<lambda>_. True)" if "sats \<le> 10 ^ 8"
    unfolding waitSpendable_def spendable_pass_def by (rule succeeds_wait [OF balance]) (use that in simp)
qed

lemma one_coin_peer: "succeeds (ensureRegtestPeer (traced (counting_client False)) getenv) (\<lambda>_. True)"
  unfolding succeeds_def split_paired_All
  by (simp add: ensureRegtestPeer_def Let_def bindT_apply retry.simps regtest_pass_def lift_call_def returnT_apply traced_def
      counting_simps a_second_def ToLower_def lower_char_def)

lemma one_coin_connect: "succeeds (connect (traced (counting_client False)) addr) (\<lambda>_. True)"
  unfolding succeeds_def split_paired_All
  by (simp add: connect_def bindT_apply retry.simps dial_pass_def lift_call_def returnT_apply traced_def
      counting_client_def a_second_def)

lemma one_coin_wallet: "succeeds (ensureWallet (traced (counting_client False)) wid) (\<lambda>_. True)"
  unfolding succeeds_def split_paired_All
  by (simp add: ensureWallet_def traced_simps counting_client_def bindP_def or_fatal_def bindT_apply note_call_def returnT_apply
      del: split_paired_Ex)

lemma one_coin_clear: "succeeds (clear_wallets (traced (counting_client False)) Do N ws) (\<lambda>_. True)"
proof (induction ws)
  case (Cons w ws)
  have "succeeds (clearMissingUTXOs (traced (counting_client False)) Do N w) (\<lambda>_. True)"
    unfolding succeeds_def split_paired_All
    by (simp add: clearMissingUTXOs_def bindC_def bindT_apply lift_call_def returnT_apply counting_client_def)
  with Cons show ?case by (auto intro!: succeeds_bindP succeeds_or_fatal)
qed (simp add: succeeds_return)

lemma one_coin_balance:
  "succeeds (or_fatal label (cl_Balance (traced (counting_client False)) q)) (\<lambda>bal. BalanceResp_spendable bal = 5000)"
  unfolding traced_simps counting_simps by (intro succeeds_or_fatal succeeds_note succeeds_return) simp

lemma one_coin_sum:
  "succeeds (sum_needed (traced (counting_client False)) 0 [player, house]) (\<lambda>needed. needed \<le> 10 ^ 8)"
  unfolding sum_needed.simps
  by (rule succeeds_bindP [OF one_coin_balance succeeds_bindP [OF one_coin_balance succeeds_return]])
    (simp add: to_int64_def seedSatoshis_def)

lemma one_coin_send:
  "succeeds (send_funds (traced (counting_client False)) (traced_http one_coin_node) N funded ws) (\<lambda>_. True)"
proof (induction ws arbitrary: funded)
  case (Cons w ws)
  have "succeeds (sendToAddress (traced_http one_coin_node) N a k) (\<lambda>_. True)" for a k
    unfolding sendToAddress_def by (rule one_coin_call) (simp_all add: about_balance into_def)
  then show ?case
    unfolding send_funds.simps
    by (intro succeeds_bindP [OF one_coin_balance]) (auto intro!: succeeds_bindP succeeds_or_fatal Cons.IH)
qed (simp add: succeeds_return)

lemma one_coin_process:
  "succeeds (process_funds (traced (counting_client False)) (traced_http one_coin_node) N height funded ws) (\<lambda>_. True)"
proof (induction ws)
  case (Cons w ws)
  have "succeeds (rawTransaction (traced_http one_coin_node) N txid) (\<lambda>_. True)" for txid
    unfolding rawTransaction_def
    by (intro succeeds_bindC [of _ "\<lambda>x. x = []"] one_coin_call)
      (auto simp: about_balance into_def Hex_DecodeString_def or_corrupt_def intro!: succeeds_return)
  moreover have "succeeds (cl_ProcessRawTx (traced (counting_client False)) q) (\<lambda>_. True)" for q
    unfolding traced_simps by (intro succeeds_note) (simp add: counting_client_def succeeds_return)
  ultimately show ?case
    using Cons by (auto intro!: succeeds_bindP succeeds_or_fatal split: option.split)
qed (simp add: succeeds_return)

lemma one_coin_funds: "succeeds (fundMain (traced (counting_client False)) (traced_http one_coin_node) getenv) (\<lambda>_. True)"
proof -
  let ?C = "traced (counting_client False)" and ?D = "traced_http one_coin_node"
  have block: "succeeds (blockCount ?D N) (\<lambda>_. True)" for N
    unfolding blockCount_def by (rule one_coin_call) (simp_all add: about_balance into_def)
  have gen: "succeeds (generate ?D N k) (\<lambda>_. True)" for N k
    unfolding generate_def
    by (intro succeeds_bindC [of _ "\<lambda>_. True"] one_coin_call) (auto simp: about_balance into_def intro!: succeeds_return)
  have wait: "succeeds (if 0 < needed then or_fatal label (waitSpendable ?D N needed) else returnT (Inr ())) (\<lambda>_. True)"
    if "needed \<le> 10 ^ 8" for needed N label
    by (simp only: split: if_split) (intro conjI impI succeeds_or_fatal one_coin_waits(2) [OF that] succeeds_return TrueI)
  have last: "succeeds (if funded = [] then returnT (Inr ())
     else bindP (or_fatal l1 (generate ?D N 1)) (\<lambda>_.
          bindP (or_fatal l2 (blockCount ?D N)) (\<lambda>height. process_funds ?C ?D N height funded ws))) (\<lambda>_. True)" for funded N ws l1 l2
    by (auto intro!: succeeds_return succeeds_bindP succeeds_or_fatal gen block one_coin_process)
  have "succeeds (fund_wallets ?C ?D N [p, h]) (\<lambda>_. True)" for N p h
    unfolding fund_wallets_def
    by (rule succeeds_bindP [OF one_coin_sum succeeds_bindP [OF wait succeeds_bindP [OF one_coin_send last]]])
  then show ?thesis
    unfolding fundMain_def Let_def
    by (intro succeeds_bindP [OF succeeds_fatal_on [OF one_coin_connect]] succeeds_bindP [OF one_coin_peer]
        succeeds_bindP [OF succeeds_fatal_on [OF one_coin_waits(1)]] succeeds_bindP [OF one_coin_wallet]
        succeeds_bindP [OF one_coin_clear])
qed

theorem funding_tops_up_witness:
  "\<exists>d w' l. fundMain (traced (counting_client False)) (traced_http one_coin_node) (\<lambda>_. []) (0, []) = (Inr (), d, w', l)
    \<and> (\<exists>ready player found_p rest. l = ready @ found_p @ rest \<and> polls (fund_node (\<lambda>_. [])) ready
         \<and> w_id player = playerWallet \<and> found player found_p)"
proof -
  obtain d w' l where run: "fundMain (traced (counting_client False)) (traced_http one_coin_node) (\<lambda>_. []) (0, []) = (Inr (), d, w', l)"
    using one_coin_funds [of "\<lambda>_. []"] unfolding succeeds_def by (metis old.unit.exhaust surj_pair)
  from funding_tops_up [OF this] run show ?thesis by (elim exE conjE) blast
qed

section \<open>Reading the balance of the node\<close>

text \<open>The node answers the question for its balance with a number, after the time \<open>d\<close>.\<close>

definition answers_balance :: "'w http \<Rightarrow> nodeRPC \<Rightarrow> string \<Rightarrow> 'w \<Rightarrow> nat \<Rightarrow> 'w \<Rightarrow> bool" where
  "answers_balance Do N number w d w' \<longleftrightarrow> (\<exists>status body.
     Do (node_request N ''getbalance'' None) w = (Inr (status, body), d, w') \<and> 200 \<le> status \<and> status < 300
     \<and> unmarshal_envelope body = Inr \<lparr>env_Result = Some (JNum number), env_Error = None\<rparr>)"

lemma balance_read:
  assumes "answers_balance Do N number w d w'" and "decimal_value number = of_int s / 10 ^ 8" and "0 \<le> s" and "s \<le> 2 ^ 51"
  shows "balanceSats Do N w = (Inr (int64_of_float (fl (fl (of_int s / 10 ^ 8) * 10 ^ 8))), d, w')"
proof -
  let ?v = "of_int s / 10 ^ 8 :: rat"
  have s: "(of_int s :: rat) \<le> 2 ^ 51" using of_int_le_iff [of s "2 ^ 51", where 'a = rat] assms(4) by simp
  have "\<bar>fl ?v\<bar> < 2 ^ 1024"
  proof (cases "s = 0")
    case False
    then have "1 \<le> (of_int s :: rat)" using assms(3) by auto
    then have "2 powi (- 1022) \<le> ?v" by (intro amount_normal) simp_all
    from fl_relative [OF this] fl_pos_pos [OF this] s have "\<bar>fl ?v\<bar> < 2 ^ 53" unfolding abs_le_iff abs_less_iff by auto
    also have "(2 :: rat) ^ 53 \<le> 2 ^ 1024" by (intro power_increasing) simp_all
    finally show ?thesis .
  qed (simp add: fl_def)
  then have p: "ParseFloat number = Some (fl ?v)" by (simp add: ParseFloat_def assms(2))
  from assms(1) obtain status body where
    "Do (node_request N ''getbalance'' None) w = (Inr (status, body), d, w')" "200 \<le> status" "status < 300"
    "unmarshal_envelope body = Inr \<lparr>env_Result = Some (JNum number), env_Error = None\<rparr>"
    unfolding answers_balance_def by blast
  with p show ?thesis
    by (simp add: balanceSats_def bindC_def call_def bindT_apply returnT_apply rpc_answer_def into_def)
qed

text \<open>Three satoshis, for example, are read as two.\<close>

lemma nearest_evenI: "\<bar>of_int m - y\<bar> < 1 / 2 \<Longrightarrow> nearest_even y = m"
proof -
  assume "\<bar>of_int m - y\<bar> < 1 / 2"
  moreover have "\<bar>of_int (nearest_even y) - y\<bar> \<le> 1 / 2" by (rule nearest_even_error)
  ultimately have "\<bar>of_int m - of_int (nearest_even y)\<bar> < (1 :: rat)" by linarith
  then show ?thesis by linarith
qed

lemma fl_eqI:
  assumes "2 powi (e + 52) \<le> x" and "x < 2 powi (e + 53)" and "- 1074 \<le> e" and "\<bar>of_int m - x / 2 powi e\<bar> < 1 / 2"
  shows "fl x = of_int m * 2 powi e"
proof -
  have x: "0 < x" using assms(1) by (meson less_le_trans zero_less_numeral zero_less_power_int)
  have "leading 2 x = e + 52"
  proof -
    have "2 powi leading 2 x < (2 :: rat) powi (e + 53)" "2 powi (e + 52) < (2 :: rat) powi (leading 2 x + 1)"
      using leading_bounds [OF x, of 2] assms(1,2) by simp_all
    then have "leading 2 x < e + 53" "e + 52 < leading 2 x + 1"
      by (metis linorder_not_less one_le_numeral power_int_increasing)+
    then show ?thesis by simp
  qed
  then have "ulp_exp x = e" using assms(3) by (simp add: ulp_exp_def)
  with x nearest_evenI [OF assms(4)] show ?thesis by (simp add: fl_def fl_pos_def)
qed

lemma three_read_as_two: "int64_of_float (fl (fl (of_int 3 / 10 ^ 8) * 10 ^ 8)) = 2"
proof -
  have 1: "fl (of_int 3 / 10 ^ 8) = of_int 4533471823554859 * 2 powi (- 77)"
    by (rule fl_eqI) (simp_all add: power_int_minus)
  have 2: "fl (fl (of_int 3 / 10 ^ 8) * 10 ^ 8) = of_int 6755399441055743 * 2 powi (- 51)"
    unfolding 1 by (rule fl_eqI) (simp_all add: power_int_minus)
  have "\<lfloor>of_int 6755399441055743 * 2 powi (- 51) :: rat\<rfloor> = 2"
    by (rule floor_unique) (simp_all add: power_int_minus)
  then show ?thesis unfolding 2 by (simp add: int64_of_float_def in_int64_def)
qed

text \<open>A node with a fixed balance.\<close>

definition steady_node :: "string \<Rightarrow> 'w http" where
  "steady_node number = (\<lambda>_. returnT (Inr (200, CHR ''{'' # json_string ''result'' @ '':'' @ number @ ''}'')))"

lemma steady_three: "answers_balance (steady_node ''0.00000003'') N ''0.00000003'' w 0 w" "decimal_value ''0.00000003'' = of_int 3 / 10 ^ 8"
proof -
  have "unmarshal_envelope (CHR ''{'' # json_string ''result'' @ '':'' @ ''0.00000003'' @ ''}'')
      = Inr \<lparr>env_Result = Some (JNum ''0.00000003''), env_Error = None\<rparr>"
    by code_simp
  then show "answers_balance (steady_node ''0.00000003'') N ''0.00000003'' w 0 w"
    unfolding answers_balance_def steady_node_def by (simp add: returnT_apply)
  show "decimal_value ''0.00000003'' = of_int 3 / 10 ^ 8" by code_simp
qed

text \<open>
  C36. How the node's balance counts: while a node holds \<open>s\<close> satoshis (at most \<open>2 ^ 51\<close>, which is more than there
  are) and reports them in coins, each time after \<open>d\<close>, they are read as \<open>s\<close> or as one satoshi less. A wait for
  no more than what is read is over at the first answer; every other wait fails, with the last balance
  read, and not before the minute is over, nor later than one answer and one sleep beyond it. So a wait
  for exactly \<open>s\<close> fails, although the node has them, whenever the conversion loses its satoshi.
\<close>

theorem spendable_wait:
  assumes "\<forall>w. answers_balance Do N number w d w" and "decimal_value number = of_int s / 10 ^ 8" and "0 \<le> s" and "s \<le> 2 ^ 51"
  shows "\<exists>balance \<in> {s - 1, s}. balanceSats Do N w = (Inr balance, d, w)
    \<and> (if needed \<le> balance then waitSpendable Do N needed w = (Inr (), d, w)
       else \<exists>t. waitSpendable Do N needed w
           = (Inl (ErrText (''spendable balance '' @ show_int balance @ '' sats, need '' @ show_int needed)), t, w)
         \<and> 60 * a_second \<le> t \<and> t < 61 * a_second + d)"
proof -
  define b where "b = int64_of_float (fl (fl (of_int s / 10 ^ 8) * 10 ^ 8))"
  let ?e = "ErrText (''spendable balance '' @ show_int b @ '' sats, need '' @ show_int needed)"
  have b: "b \<in> {s - 1, s}" unfolding b_def by (rule satoshis_of_coins [OF assms(3,4)])
  have read: "balanceSats Do N w = (Inr b, d, w)"
    using balance_read [OF assms(1) [rule_format] assms(2-4)] by (simp add: b_def)
  have wait: "if needed \<le> b then waitSpendable Do N needed w = (Inr (), d, w)
       else \<exists>t. waitSpendable Do N needed w = (Inl ?e, t, w) \<and> 60 * a_second \<le> t \<and> t < 61 * a_second + d"
  proof (cases "needed \<le> b")
    case True
    with read have "spendable_pass Do N needed None w = (Inl (), d, w)"
      by (simp add: spendable_pass_def bindT_apply returnT_apply)
    then show ?thesis using True
      by (simp add: waitSpendable_def bindT_apply returnT_apply retry_first a_second_def)
  next
    case False
    with read have "spendable_pass Do N needed acc w = (Inr (Some ?e), d, w)" for acc
      by (simp add: spendable_pass_def bindT_apply returnT_apply)
    from retry_steady [of "spendable_pass Do N needed", OF this, of "60 * a_second" None] False
    show ?thesis by (auto simp: waitSpendable_def bindT_apply returnT_apply a_second_def)
  qed
  show ?thesis by (rule bexI [where x = b]) (rule conjI [OF read wait], rule b)
qed

theorem spendable_wait_witness:
  "\<exists>t. waitSpendable (steady_node ''0.00000003'') (fund_node (\<lambda>_. [])) 3 () = (Inl (ErrText ''spendable balance 2 sats, need 3''), t, ())
    \<and> 60 * a_second \<le> t"
proof -
  let ?Do = "steady_node ''0.00000003'' :: unit http" and ?N = "fund_node (\<lambda>_. [])"
  have shown: "show_int 2 = ''2''" "show_int 3 = ''3''" by code_simp+
  have "balanceSats ?Do ?N () = (Inr 2, 0, ())"
    using balance_read [OF steady_three, of ?N "()"] three_read_as_two by simp
  moreover have "\<forall>w. answers_balance ?Do ?N ''0.00000003'' w 0 w" by (intro allI steady_three(1))
  ultimately show ?thesis
    using spendable_wait [OF _ steady_three(2), of ?Do ?N 0 "()" 3] shown by auto
qed

text \<open>
  C35. Waiting pays off: when every answer of the node comes within \<open>D\<close>, and after \<open>k\<close> further answers, before
  the minute is over, the node would report enough, then \<open>waitSpendable\<close> comes back with success.
\<close>

theorem waiting_pays_off:
  assumes "\<forall>w. fst (snd (balanceSats Do N w)) \<le> D"
    and "fst (balanceSats Do N (((\<lambda>w. snd (snd (balanceSats Do N w))) ^^ k) w)) = Inr balance" and "needed \<le> balance"
    and "k * (D + a_second) < 60 * a_second"
  shows "\<exists>t w'. waitSpendable Do N needed w = (Inr (), t, w') \<and> t \<le> k * (D + a_second) + D"
proof -
  let ?pass = "spendable_pass Do N needed"
  have pass: "snd (?pass acc w) = snd (balanceSats Do N w)" for acc w
    by (simp add: spendable_pass_def bindT_apply returnT_apply split: prod.split)
  have "\<exists>r. fst (?pass acc (((\<lambda>w. snd (snd (balanceSats Do N w))) ^^ k) w)) = Inl r" for acc
    using assms(2,3) by (auto simp: spendable_pass_def bindT_apply returnT_apply split: prod.split)
  moreover have "fst (snd (?pass acc w)) \<le> D" "snd (snd (?pass acc w)) = snd (snd (balanceSats Do N w))" for acc w
    using assms(1) by (simp_all add: pass)
  ultimately obtain r t w' where "retry (60 * a_second) ?pass None w = (Inl r, t, w')" "t \<le> k * (D + a_second) + D"
    using retry_reaches [of ?pass D _ k w] assms(4) by metis
  then show ?thesis by (simp add: waitSpendable_def bindT_apply returnT_apply)
qed

text \<open>A node that is paid one coin after its first answer.\<close>

definition rising_node :: "nat http" where
  "rising_node = (\<lambda>req n. (Inr (200, CHR ''{'' # json_string ''result'' @ '':'' @ (if n = 0 then ''null'' else ''1'') @ ''}''), 0, Suc n))"

lemma rising_balance: "balanceSats rising_node N n = (Inr (if n = 0 then 0 else 10 ^ 8), 0, Suc n)"
  using one_coin_answers [of "''getbalance''" "into a_float"] one_coin_value
  by (simp add: balanceSats_def bindC_def call_def bindT_apply returnT_apply rising_node_def into_def)

theorem waiting_pays_off_witness:
  "fst (balanceSats rising_node (fund_node (\<lambda>_. [])) 0) = Inr 0
   \<and> (\<exists>t w'. waitSpendable rising_node (fund_node (\<lambda>_. [])) 5 0 = (Inr (), t, w') \<and> t \<le> a_second)"
proof -
  let ?N = "fund_node (\<lambda>_. [])"
  have "\<forall>w. fst (snd (balanceSats rising_node ?N w)) \<le> 0" by (simp add: rising_balance)
  moreover have "fst (balanceSats rising_node ?N (((\<lambda>w. snd (snd (balanceSats rising_node ?N w))) ^^ 1) 0)) = Inr (10 ^ 8)"
    by (simp add: rising_balance)
  ultimately have "\<exists>t w'. waitSpendable rising_node ?N 5 0 = (Inr (), t, w') \<and> t \<le> 1 * (0 + a_second) + 0"
    by (rule waiting_pays_off) (simp_all add: a_second_def)
  then show ?thesis by (simp add: rising_balance)
qed

end
