(* ===== verification/Demo_Net.thy ===== *)
theory Demo_Net
  imports Grpc_Client Blackjack_Fund_Props
begin

text \<open>
  What the demo keeps of the service it runs on, when its calls go over the network of \<open>Grpc_Client\<close>.
  Every single call is a step of the service (\<open>demo_step\<close>), and so is everything made of them (\<open>net_step\<close>).
\<close>

section \<open>Steps of the service\<close>

definition demo_key_of :: "string \<Rightarrow> bool" where
  "demo_key_of k \<longleftrightarrow> k = walletKey tenantID playerWallet \<or> k = walletKey tenantID houseWallet"

text \<open>No wallet is added but the two of the demo.\<close>

definition own_only :: "'n service \<Rightarrow> 'n service \<Rightarrow> bool" where
  "own_only s s' \<longleftrightarrow> (\<forall>k. lookup_wallet s' k \<noteq> None \<longrightarrow> lookup_wallet s k \<noteq> None \<or> demo_key_of k)"

definition demo_step :: "'n service \<Rightarrow> 'n service \<Rightarrow> bool" where
  "demo_step s s' \<longleftrightarrow> registry_step s s' \<and> own_only s s'"

interpretation demo_step: frame_relation demo_step
  by unfold_locales
    (simp add: demo_step_def own_only_def registry_step_refl, unfold demo_step_def own_only_def, blast intro: registry_step_trans)

lemma demo_step_node:
  assumes "node_only s s'"
  shows "demo_step s s'"
proof -
  have "s' = s\<lparr>s_node := s_node s'\<rparr>" using assms by (simp add: node_only_def)
  moreover have "demo_step s (s\<lparr>s_node := n\<rparr>)" for n
    using registry_step_updates(1) by (simp add: demo_step_def own_only_def)
  ultimately show ?thesis by metis
qed

lemma keeps_node: "keeps node_only m \<Longrightarrow> keeps demo_step m"
  by (auto simp: keeps_def intro: demo_step_node)

lemma create_step:
  assumes "demo_key_of (walletKey tenantID wid)"
  shows "keeps demo_step (CreateWallet A (own_wallet wid))"
proof -
  have "demo_step s s'" if run: "CreateWallet A (own_wallet wid) s = (r, s')" for s r s'
  proof -
    have "lookup_wallet s k \<noteq> None \<or> demo_key_of k" if "lookup_wallet s' k \<noteq> None" for k
      using create.add_cases [OF run] that assms
      by (auto simp: quiet_def enrolled_def lookup_wallet_def own_wallet_def update_conv' split: if_splits)
    then show ?thesis using enroller_step [OF create.enroller_axioms run] by (simp add: demo_step_def own_only_def)
  qed
  then show ?thesis unfolding keeps_def by (metis prod.collapse)
qed

lemma keeps_guarded: "keeps demo_step m \<Longrightarrow> keeps demo_step (guarded i ctx r m)"
  by (auto simp: keeps_def guarded_run demo_step.frame_refl split: sum.split)

section \<open>Steps of the world\<close>

definition undisturbed :: "net_event stream \<Rightarrow> bool" where
  "undisturbed evs \<longleftrightarrow> (\<forall>ev \<in> sset evs. ev_others ev = [])"

definition net_step :: "'n net \<Rightarrow> 'n net \<Rightarrow> bool" where
  "net_step x y \<longleftrightarrow> sset (snd y) \<subseteq> sset (snd x) \<and> registry_step (fst x) (fst y)
     \<and> (undisturbed (snd x) \<longrightarrow> own_only (fst x) (fst y))"

interpretation net_step: frame_relation net_step
proof unfold_locales
  fix x y z :: "'n net"
  show "net_step x x" by (simp add: net_step_def registry_step_refl own_only_def)
  assume xy: "net_step x y" and yz: "net_step y z"
  have "undisturbed (snd x) \<Longrightarrow> undisturbed (snd y)" using xy by (auto simp: net_step_def undisturbed_def)
  with xy yz show "net_step x z"
    unfolding net_step_def own_only_def by (meson registry_step_trans subset_trans)
qed

lemma arrived_step: "registry_step s (arrived A i ev s)"
  unfolding arrived_def by (rule registry_step_trans [OF serve_calls_step registry_step_clock])

lemma arrived_own: "ev_others ev = [] \<Longrightarrow> own_only s (arrived A i ev s)"
  by (simp add: arrived_def own_only_def lookup_wallet_def)

lemma shd_in: "shd evs \<in> sset evs"
  by (cases evs) simp

lemma stl_subset: "sset (stl evs) \<subseteq> sset evs"
  by (cases evs) auto

lemma net_call_step:
  assumes "keeps demo_step m"
  shows "keepsT net_step (net_call A i m)"
proof -
  have "net_step (s, evs) (snd (snd (net_call A i m (s, evs))))" for s evs
  proof -
    define s1 where "s1 = arrived A i (shd evs) s"
    have first: "net_step (s, evs) (s1, stl evs)"
      using arrived_step [of s A i "shd evs"] arrived_own [of "shd evs" s A i] shd_in [of evs] stl_subset [of evs]
      by (auto simp: net_step_def undisturbed_def s1_def)
    have "demo_step s1 (snd (m s1))" using assms by (simp add: keeps_def)
    then have "net_step (s1, stl evs) (snd (m s1), stl evs)" by (simp add: net_step_def demo_step_def)
    from net_step.frame_trans [OF first this] first show ?thesis
      by (auto simp: net_call_def Let_def s1_def [symmetric] split: fate.split prod.split)
  qed
  then show ?thesis by (simp add: keepsT_def)
qed

text \<open>
  The node behind the funding tool is the one the service is connected to: a request to it may change
  what the SDK sees.
\<close>

definition beside :: "'n http \<Rightarrow> 'n net http" where
  "beside f = (\<lambda>req (s, evs). case f req (s_node s) of (r, d, n) \<Rightarrow> (r, d, (s\<lparr>s_node := n\<rparr>, evs)))"

lemma beside_step:
  fixes f :: "'a http"
  shows "keepsT net_step (beside f req)"
proof -
  have "demo_step s (s\<lparr>s_node := n\<rparr>)" for s :: "'a service" and n
    by (rule demo_step_node) (simp add: node_only_def)
  then show ?thesis
    unfolding keepsT_def beside_def by (auto simp: net_step_def demo_step_def split: prod.split)
qed

lemmas net_step_calls = net_client_calls net_call_step keeps_guarded keeps_node node_only_handlers node_only_mapE
  node_only_GetWallet create_step

interpretation on_net: funding_client net_step "net_client A i ctx dial" "\<lambda>wid. demo_key_of (walletKey tenantID wid)"
    "beside f" "\<lambda>_. True"
  by unfold_locales (simp_all add: net_step_calls beside_step net_step.keepsT_return demo_key_of_def)

section \<open>What a demo that came back has done\<close>

text \<open>The end of \<open>ensureWallet\<close>.\<close>

definition first_address :: "'w client \<Rightarrow> string \<Rightarrow> WalletResponse \<Rightarrow> ('w, bj_wallet) program" where
  "first_address C wid got =
     (case (case WalletResp_wallet got of None \<Rightarrow> [] | Some v \<Rightarrow> Wallet_addresses v) of
        a # _ \<Rightarrow> returnT (Inr \<lparr>w_id = wid, w_address = a\<rparr>)
      | [] \<Rightarrow>
          bindP (or_fatal (''new address '' @ wid) (cl_NewAddress C (own_wallet wid))) (\<lambda>addr.
          returnT (Inr \<lparr>w_id = wid,
            w_address = (case AddressResp_address addr of None \<Rightarrow> [] | Some d \<Rightarrow> DerivedAddress_address d)\<rparr>)))"

text \<open>\<open>ensureWallet\<close> comes back only after a lookup of the wallet was answered.\<close>

lemma ensureWallet_got:
  assumes "ensureWallet C wid x = (Inr w, d, y)"
  shows "\<exists>x1 got d1 x2 d2. cl_GetWallet C (own_wallet wid) x1 = (Inr got, d1, x2)
    \<and> first_address C wid got x2 = (Inr w, d2, y)"
proof -
  obtain first d0 x0 where g: "cl_GetWallet C (own_wallet wid) x = (first, d0, x0)"
    by (cases "cl_GetWallet C (own_wallet wid) x")
  show ?thesis
  proof (cases "is_NotFound first")
    case True
    with assms g show ?thesis by (fastforce simp: ensureWallet_def first_address_def [symmetric] bindT_apply bindP_success or_fatal_success split: prod.splits)
  next
    case False
    with assms g show ?thesis
      by (fastforce simp: ensureWallet_def first_address_def [symmetric] bindT_apply bindP_success or_fatal_success returnT_apply split: prod.splits)
  qed
qed

lemma net_call_success:
  assumes "net_call A i m x = (Inr v, d, y)"
  shows "\<exists>s. m s = (Inr v, fst y)"
  using assms by (cases x) (auto simp: net_call_def Let_def split: fate.splits prod.splits)

lemma GetWallet_success:
  assumes "guarded i ctx r (GetWallet A q) s = (Inr resp, s')"
  shows "lookup_wallet s' (walletKey (tenant_id q) (wallet_id q)) \<noteq> None"
  using assms by (auto simp: guarded_run GetWallet_def walletProto_def run_simps wallet_success sdkQ_def split: if_splits sum.splits)

lemma ensured:
  assumes "ensureWallet (net_client A i ctx dial) wid x = (Inr w, d, y)" and "demo_key_of (walletKey tenantID wid)" and "net_step y z"
  shows "lookup_wallet (fst z) (walletKey tenantID wid) \<noteq> None"
proof -
  let ?C = "net_client A i ctx dial"
  obtain x1 got d1 x2 d2 where g: "cl_GetWallet ?C (own_wallet wid) x1 = (Inr got, d1, x2)"
    and rest: "first_address ?C wid got x2 = (Inr w, d2, y)"
    using ensureWallet_got [OF assms(1)] by blast
  have "lookup_wallet (fst x2) (walletKey tenantID wid) \<noteq> None"
    using net_call_success [OF g [unfolded net_client_calls]] GetWallet_success [of i ctx _ A "own_wallet wid"]
    by (auto simp: own_wallet_def)
  moreover have "keepsT net_step (first_address ?C wid got)"
    unfolding first_address_def by (auto intro!: net_step.frame_rules on_net.keeps_address assms(2) split: list.split)
  then have "net_step x2 y" using rest by (rule keepsT_run)
  ultimately show ?thesis
    using assms(3) unfolding net_step_def registry_step_def by blast
qed

lemma both_ensured:
  assumes "bindP (ensureWallet (net_client A i ctx dial) playerWallet) (\<lambda>p.
      bindP (ensureWallet (net_client A i ctx dial) houseWallet) (rest p)) x = (Inr v, d, y)"
    and "\<And>p h. keepsT net_step (rest p h)"
  shows "lookup_wallet (fst y) (walletKey tenantID playerWallet) \<noteq> None \<and> lookup_wallet (fst y) (walletKey tenantID houseWallet) \<noteq> None"
proof -
  obtain p d1 x1 h d2 x2 d3 where p: "ensureWallet (net_client A i ctx dial) playerWallet x = (Inr p, d1, x1)"
    and h: "ensureWallet (net_client A i ctx dial) houseWallet x1 = (Inr h, d2, x2)" and r: "rest p h x2 = (Inr v, d3, y)"
    using assms(1) by (auto simp: bindP_success)
  have 2: "net_step x2 y" by (rule keepsT_run [OF assms(2) r])
  moreover have "net_step x1 x2"
    using keepsT_run [OF on_net.frame_wallet h] by (simp add: demo_key_of_def)
  ultimately have 1: "net_step x1 y" by (rule net_step.frame_trans [rotated])
  show ?thesis using ensured [OF p _ 1] ensured [OF h _ 2] by (simp add: demo_key_of_def)
qed

lemma program_ensures:
  assumes "blackjack_program (net_client A i ctx dial) (beside f) getenv args input r x = (Inr (), d, y)"
    and "\<not> (length args = 2 \<and> args ! 1 = ''-version'')"
  shows "lookup_wallet (fst y) (walletKey tenantID playerWallet) \<noteq> None \<and> lookup_wallet (fst y) (walletKey tenantID houseWallet) \<noteq> None"
proof (cases "length args = 2 \<and> args ! 1 = ''-fund''")
  case True
  let ?C = "net_client A i ctx dial" and ?N = "fund_node getenv"
  have "fundMain ?C (beside f) getenv x = (Inr (), d, y)"
    using assms(1) True by (auto simp: blackjack_program_def)
  then obtain x1 d1 where "bindP (ensureWallet ?C playerWallet) (\<lambda>p. bindP (ensureWallet ?C houseWallet) (\<lambda>h.
       bindP (clear_wallets ?C (beside f) ?N [p, h]) (\<lambda>_. fund_wallets ?C (beside f) ?N [p, h]))) x1 = (Inr (), d1, y)"
    unfolding fundMain_def Let_def by (subst (asm) bindP_success, elim exE conjE, subst (asm) bindP_success, elim exE conjE,
      subst (asm) bindP_success, elim exE conjE) blast
  moreover have "keepsT net_step (bindP (clear_wallets ?C (beside f) N ws) (\<lambda>_. fund_wallets ?C (beside f) N ws))" for N ws
    by (intro net_step.frame_rules on_net.frame_clear on_net.frame_fund_wallets) simp
  ultimately show ?thesis by (rule both_ensured)
next
  case False
  let ?C = "net_client A i ctx dial"
  have "blackjack_main ?C getenv input r x = (Inr (), d, y)"
    using assms False by (auto simp: blackjack_program_def)
  moreover define rest where "rest = (\<lambda>player house. bindP (statusNetwork ?C) (\<lambda>net.
      bindP (if net = ''regtest'' then ensureRegtestPeer ?C getenv else returnT (Inr ())) (\<lambda>_.
      bindP (requireFunded ?C player) (\<lambda>_. bindP (requireFunded ?C house) (\<lambda>_.
      play_rounds ?C getenv (TrimRight (env getenv ''WOC_EXPLORER_URL'' ''http://localhost:3002'') CHR ''/'') player house input r)))))"
  ultimately obtain x1 d1 where "bindP (ensureWallet ?C playerWallet) (\<lambda>p. bindP (ensureWallet ?C houseWallet) (rest p)) x1 = (Inr (), d1, y)"
    by (auto simp: blackjack_main_def Let_def bindT_apply fatal_def returnT_apply split: prod.splits sum.splits)
  moreover have "keepsT net_step (rest p h)" for p h
    unfolding rest_def by (auto intro!: net_step.frame_rules on_net.frame_network on_net.frame_peer
        on_net.frame_funded on_net.frame_rounds)
  ultimately show ?thesis by (rule both_ensured)
qed

section \<open>A demo without a token\<close>

definition no_token :: "call_context \<Rightarrow> bool" where
  "no_token ctx \<longleftrightarrow> (case ctx of None \<Rightarrow> True | Some md \<Rightarrow> presented_token md = [])"

text \<open>Nothing done to the service, beyond what other clients did.\<close>

definition idle :: "'n net \<Rightarrow> 'n net \<Rightarrow> bool" where
  "idle x y \<longleftrightarrow> net_step x y \<and> (undisturbed (snd x) \<longrightarrow> (\<exists>t. fst y = (fst x)\<lparr>clock := t\<rparr>))"

lemma idle_refl: "idle x x"
  by (auto simp: idle_def net_step.frame_refl intro: exI [of _ "clock (fst x)"])

lemma idle_trans:
  assumes "idle x y" and "idle y z"
  shows "idle x z"
proof -
  have "undisturbed (snd x) \<Longrightarrow> undisturbed (snd y)" using assms(1) by (auto simp: idle_def net_step_def undisturbed_def)
  with assms show ?thesis by (auto simp: idle_def intro: net_step.frame_trans)
qed

lemma idle_opts: "idle x y \<Longrightarrow> s_opts (fst y) = s_opts (fst x)"
  by (simp add: idle_def net_step_def registry_step_def)

lemma status_refused:
  assumes "AuthEnabled (s_opts s)" and "no_token ctx"
  shows "\<exists>e. guarded True ctx Req_Status m s = (Inl e, s)"
proof -
  have "\<not> HasSuffix (full_method Req_Status) ''/RefreshToken''"
    using HasSuffix_full [of "''RefreshToken''" Req_Status] by simp
  moreover have "\<not> bootstrapAllowed (ApiMessage Req_Status) s"
    by (simp add: bootstrapAllowed_def tenantWalletFromRequest_def)
  moreover have "\<exists>e. authSubjectFromContext ctx s = Inl e"
    using assms(2) by (auto simp: no_token_def authSubjectFromContext_def split: option.splits)
  ultimately show ?thesis
    using assms(1) by (auto simp: guarded_run authorize_def)
qed

lemma dial_refused:
  assumes "AuthEnabled (s_opts (fst x))" and "no_token ctx"
  shows "\<exists>e d y. dial_pass (net_client A True ctx dial) addr acc x = (Inr e, d, y) \<and> idle x y"
proof (cases "dial addr")
  case (Inl e)
  then show ?thesis by (simp add: dial_pass_def net_client_calls bindT_apply returnT_apply idle_refl)
next
  case (Inr u)
  obtain s evs where x: "x = (s, evs)" by (cases x)
  define s1 where "s1 = arrived A True (shd evs) s"
  have "AuthEnabled (s_opts s1)"
    using arrived_step [of s A True "shd evs"] assms(1) by (simp add: s1_def x registry_step_def)
  then obtain e where "guarded True ctx Req_Status (Status_rpc A) s1 = (Inl e, s1)"
    using status_refused assms(2) by blast
  then have "\<exists>e d. net_call A True (guarded True ctx Req_Status (Status_rpc A)) x = (Inl e, d, (s1, stl evs))"
    by (simp add: net_call_def x Let_def s1_def [symmetric] split: fate.split)
  moreover have "idle x (s1, stl evs)"
    using arrived_step [of s A True "shd evs"] arrived_own [of "shd evs" s A True] shd_in [of evs] stl_subset [of evs]
    by (auto simp: idle_def net_step_def undisturbed_def x s1_def arrived_def)
  ultimately show ?thesis using Inr
    by (auto simp: dial_pass_def net_client_calls bindT_apply returnT_apply)
qed

lemma connect_refused:
  assumes "AuthEnabled (s_opts (fst x))" and "no_token ctx"
  shows "\<exists>e d y. connect (net_client A True ctx dial) addr x = (Inl e, d, y) \<and> idle x y"
proof -
  have "\<exists>a d y. retry (60 * a_second) (dial_pass (net_client A True ctx dial) addr) None x = (Inr a, d, y) \<and> idle x y"
  proof (rule retry_stuck)
    fix acc y assume "idle x y"
    moreover from this have "AuthEnabled (s_opts (fst y))" using assms(1) idle_opts by metis
    ultimately show "\<exists>a d z. dial_pass (net_client A True ctx dial) addr acc y = (Inr a, d, z) \<and> idle x z"
      using dial_refused [OF _ assms(2), of y] idle_trans by metis
  qed (rule idle_refl)
  then show ?thesis by (auto simp: connect_def bindT_apply returnT_apply)
qed

lemma program_refused:
  assumes "AuthEnabled (s_opts (fst x))" and "no_token ctx" and "\<not> (length args = 2 \<and> args ! 1 = ''-version'')"
  shows "\<exists>msg d y. blackjack_program (net_client A True ctx dial) Do getenv args input r x = (Inl msg, d, y) \<and> idle x y"
proof -
  obtain e d y where c: "connect (net_client A True ctx dial) (env getenv ''BSVMS_ADDR'' ''bsvms:50051'') x = (Inl e, d, y)" "idle x y"
    using connect_refused [OF assms(1,2)] by blast
  with assms(3) show ?thesis
    by (auto simp: blackjack_program_def fundMain_def blackjack_main_def Let_def bindP_def fatal_on_def fatal_def bindT_apply
        returnT_apply simp del: split_paired_Ex)
qed

end
