(* ===== verification/Spending.thy ===== *)
theory Spending
  imports Dispatch_Props
begin

text \<open>
  Which calls can move money, and which money they move. An SDK's ways of spending are singled out; two
  SDKs that differ in nothing but these are compared.
\<close>

section \<open>Ways of spending\<close>

datatype spend =
    Pay handle string int
  | Pay_all handle string
  | Pay_outputs handle "bsv_OutputSpec list"
  | Pay_from handle "bsv_OutPoint list" "bsv_OutputSpec list"
  | Pay_ignoring_fixed handle "bsv_OutputSpec list"
  | Pay_custom "bsv_CustomInput list" "bsv_OutputSpec list"
  | Send_raw bytes

text \<open>What an SDK does when it is told to, with the reply the client gets for it.\<close>

fun perform :: "'n sdk \<Rightarrow> spend \<Rightarrow> ('n, rpc_response) action" where
  "perform A (Pay h addr sats) = mapE (\<lambda>x. Resp_Send \<lparr>SpendResp_txid = x\<rparr>) (wal_Send (the_wallet A) h addr sats)"
| "perform A (Pay_all h addr) = mapE (\<lambda>x. Resp_SendAll \<lparr>SpendResp_txid = x\<rparr>) (wal_SendAll (the_wallet A) h addr)"
| "perform A (Pay_outputs h outs) = mapE (\<lambda>d. Resp_SpendToOutputs \<lparr>SpendDetailResp_detail = spendDetail d\<rparr>)
     (wal_SpendToOutputsDetailed (the_wallet A) h outs)"
| "perform A (Pay_from h ins outs) = mapE (\<lambda>d. Resp_SpendToOutputs \<lparr>SpendDetailResp_detail = spendDetail d\<rparr>)
     (wal_SpendToOutputsDetailedFrom (the_wallet A) h ins outs)"
| "perform A (Pay_ignoring_fixed h outs) = mapE (\<lambda>d. Resp_SpendToOutputs \<lparr>SpendDetailResp_detail = spendDetail d\<rparr>)
     (wal_SpendToOutputsDetailedIgnoringFixed (the_wallet A) h outs)"
| "perform A (Pay_custom ins outs) = mapE (\<lambda>x. Resp_BroadcastCustomSpend \<lparr>SpendResp_txid = x\<rparr>)
     (node_SpendCustom (the_node A) ins outs)"
| "perform A (Send_raw raw) = mapE (\<lambda>x. Resp_BroadcastRaw \<lparr>BroadcastRawResp_txid = x\<rparr>) (node_BroadcastRaw (the_node A) raw)"

text \<open>Two SDKs that differ in nothing but their ways of spending.\<close>

definition but_spends :: "'n sdk \<Rightarrow> 'n sdk \<Rightarrow> bool" where
  "but_spends A B \<longleftrightarrow> (\<exists>w1 w2 w3 w4 w5 n1 n2.
     B = A\<lparr>the_wallet := (the_wallet A)\<lparr>wal_Send := w1, wal_SendAll := w2, wal_SpendToOutputsDetailed := w3,
         wal_SpendToOutputsDetailedFrom := w4, wal_SpendToOutputsDetailedIgnoringFixed := w5\<rparr>,
       the_node := (the_node A)\<lparr>node_SpendCustom := n1, node_BroadcastRaw := n2\<rparr>\<rparr>)"

section \<open>What a request asks for\<close>

definition live :: "'n service \<Rightarrow> string \<Rightarrow> string \<Rightarrow> tenantWallet \<Rightarrow> bool" where
  "live s t w tw \<longleftrightarrow> idRE t \<and> idRE w \<and> lookup_wallet s (walletKey t w) = Some tw"

definition same_output :: "OutputSpec \<Rightarrow> bsv_OutputSpec \<Rightarrow> bool" where
  "same_output x y \<longleftrightarrow> os_Script y = OutputSpec_script x \<and> os_Value y = OutputSpec_value x"

definition same_coin :: "'n sdk \<Rightarrow> OutPoint \<Rightarrow> bsv_OutPoint \<Rightarrow> bool" where
  "same_coin A x p \<longleftrightarrow> pkg_TxIDFromHex (the_pkg A) (OutPoint_txid x) = Inr (op_Hash p) \<and> op_Index p = OutPoint_vout x"

definition same_input :: "'n sdk \<Rightarrow> CustomInput \<Rightarrow> bsv_CustomInput \<Rightarrow> bool" where
  "same_input A x p \<longleftrightarrow> pkg_TxIDFromHex (the_pkg A) (CustomInput_txid x) = Inr (ci_TxID p) \<and> ci_Vout p = CustomInput_vout x
     \<and> ci_ScriptSig p = CustomInput_script_sig x \<and> ci_Sequence p = CustomInput_sequence x"

text \<open>
  The one spend a request may ask for, read off its fields: always from the live wallet it names; from the
  named coins when it names any, and then not together with the flag; a custom spend only on a service that
  allows it.
\<close>

inductive asked :: "'n sdk \<Rightarrow> 'n service \<Rightarrow> rpc_request \<Rightarrow> spend \<Rightarrow> bool" for A s where
  asks_send: "live s (tenant_id q) (wallet_id q) tw \<Longrightarrow>
     asked A s (Req_Send q) (Pay (tw_w tw) (SendReq_to_address q) (SendReq_amount_satoshis q))"
| asks_all: "live s (tenant_id q') (wallet_id q') tw \<Longrightarrow> asked A s (Req_SendAll q') (Pay_all (tw_w tw) (SendAllReq_to_address q'))"
| asks_outputs: "live s (tenant_id o1) (wallet_id o1) tw \<Longrightarrow> SpendToOutputsReq_from_inputs o1 = [] \<Longrightarrow>
     \<not> SpendToOutputsReq_ignore_fixed_outputs o1 \<Longrightarrow> list_all2 same_output (SpendToOutputsReq_outputs o1) outs \<Longrightarrow>
     asked A s (Req_SpendToOutputs o1) (Pay_outputs (tw_w tw) outs)"
| asks_ignoring: "live s (tenant_id o1) (wallet_id o1) tw \<Longrightarrow> SpendToOutputsReq_from_inputs o1 = [] \<Longrightarrow>
     SpendToOutputsReq_ignore_fixed_outputs o1 \<Longrightarrow> list_all2 same_output (SpendToOutputsReq_outputs o1) outs \<Longrightarrow>
     asked A s (Req_SpendToOutputs o1) (Pay_ignoring_fixed (tw_w tw) outs)"
| asks_from: "live s (tenant_id o1) (wallet_id o1) tw \<Longrightarrow> SpendToOutputsReq_from_inputs o1 \<noteq> [] \<Longrightarrow>
     \<not> SpendToOutputsReq_ignore_fixed_outputs o1 \<Longrightarrow> list_all2 (same_coin A) (SpendToOutputsReq_from_inputs o1) ins \<Longrightarrow>
     list_all2 same_output (SpendToOutputsReq_outputs o1) outs \<Longrightarrow>
     asked A s (Req_SpendToOutputs o1) (Pay_from (tw_w tw) ins outs)"
| asks_custom: "EnableCustomSpend (s_opts s) \<Longrightarrow> list_all2 (same_input A) (BroadcastCustomSpendReq_inputs c) cins \<Longrightarrow>
     list_all2 same_output (BroadcastCustomSpendReq_outputs c) outs \<Longrightarrow>
     asked A s (Req_BroadcastCustomSpend c) (Pay_custom cins outs)"
| asks_raw: "asked A s (Req_BroadcastRaw b) (Send_raw (BroadcastRawReq_raw_tx b))"

fun spending :: "rpc_request \<Rightarrow> bool" where
  "spending (Req_Send _) = True"
| "spending (Req_SendAll _) = True"
| "spending (Req_SpendToOutputs _) = True"
| "spending (Req_BroadcastCustomSpend _) = True"
| "spending (Req_BroadcastRaw _) = True"
| "spending _ = False"

section \<open>Conversions\<close>

lemma same_outputs: "list_all2 same_output xs (outputSpecs xs)"
  by (simp add: outputSpecs_def list_all2_map2 same_output_def list_all2_same)

lemma outPoints_coins: "outPoints A xs = Inr ps \<Longrightarrow> list_all2 (same_coin A) xs ps"
  by (induction xs arbitrary: ps) (auto simp: same_coin_def bindR_def split: sum.splits)

lemma customInputs_same: "customInputs A xs = Inr ps \<Longrightarrow> list_all2 (same_input A) xs ps"
  by (induction xs arbitrary: ps) (auto simp: same_input_def bindR_def split: sum.splits)


section \<open>One call at a time\<close>

text \<open>What is left of a call once its spend has been made: the snapshot of the wallet is saved, if it can be.\<close>

definition after_spend :: "'n sdk \<Rightarrow> tenantWallet option \<Rightarrow> rpc_response result \<times> 'n \<Rightarrow> 'n service
    \<Rightarrow> rpc_response result \<times> 'n service" where
  "after_spend A tw out s = (case out of
       (Inl e, n) \<Rightarrow> (Inl (internal e), s\<lparr>s_node := n\<rparr>)
     | (Inr y, n) \<Rightarrow> (Inr y, case tw of None \<Rightarrow> s\<lparr>s_node := n\<rparr> | Some tw \<Rightarrow> snd (saveSnapshot A tw (s\<lparr>s_node := n\<rparr>))))"

lemma saveSnapshot_result: "\<exists>s'. saveSnapshot A tw s = (Inr (), s')"
  by (simp add: saveSnapshot_def act_simps split: prod.split)

lemma spend_then_save:
  "bindE (internalE (sdkE m)) (\<lambda>x. bindE (saveSnapshot A tw) (\<lambda>_. returnE (f x))) s
   = (case m (s_node s) of
        (Inl e, n) \<Rightarrow> (Inl (internal e), s\<lparr>s_node := n\<rparr>)
      | (Inr x, n) \<Rightarrow> (Inr (f x), snd (saveSnapshot A tw (s\<lparr>s_node := n\<rparr>))))"
proof (cases "m (s_node s)")
  case (Pair r n)
  obtain s' where "saveSnapshot A tw (s\<lparr>s_node := n\<rparr>) = (Inr (), s')" using saveSnapshot_result by blast
  with Pair show ?thesis by (cases r) (simp_all add: bindE_apply internalE_def sdkE_def returnE_def)
qed

lemma with_live: "live s t w tw \<Longrightarrow> mapE g (bindE (wallet t w) f) s = mapE g (f tw) s"
  using wallet_success [of t w s tw s] by (simp add: live_def mapE_def bindE_apply)

lemma no_live:
  assumes "\<not> (\<exists>tw. live s t w tw)"
  shows "\<exists>e. wallet t w s = (Inl e, s)"
proof (cases "validateTenantWallet t w")
  case (Inl e)
  then show ?thesis by (simp add: wallet_def act_simps)
next
  case (Inr u)
  then have "idRE t" "idRE w" by (simp_all add: validateTenantWallet_ok)
  with assms have "lookup_wallet s (walletKey t w) = None" by (auto simp: live_def)
  with Inr show ?thesis by (simp add: wallet_def act_simps)
qed

text \<open>What the other parts of a call see of an SDK is the same for both.\<close>

lemma but_spends_refl: "but_spends A A"
  unfolding but_spends_def
  by (rule exI [of _ "wal_Send (the_wallet A)"], rule exI [of _ "wal_SendAll (the_wallet A)"],
      rule exI [of _ "wal_SpendToOutputsDetailed (the_wallet A)"],
      rule exI [of _ "wal_SpendToOutputsDetailedFrom (the_wallet A)"],
      rule exI [of _ "wal_SpendToOutputsDetailedIgnoringFixed (the_wallet A)"],
      rule exI [of _ "node_SpendCustom (the_node A)"], rule exI [of _ "node_BroadcastRaw (the_node A)"]) simp

lemma but_spends_same:
  assumes "but_spends A B"
  shows "the_pkg B = the_pkg A" and "walletProtoLocked B = walletProtoLocked A" and "walletProto B = walletProto A"
    and "saveSnapshotLocked B = saveSnapshotLocked A" and "saveSnapshot B = saveSnapshot A"
    and "attachWalletLocked B = attachWalletLocked A" and "transactionProto B = transactionProto A"
proof -
  from assms obtain w1 w2 w3 w4 w5 n1 n2 where
    B: "B = A\<lparr>the_wallet := (the_wallet A)\<lparr>wal_Send := w1, wal_SendAll := w2, wal_SpendToOutputsDetailed := w3,
         wal_SpendToOutputsDetailedFrom := w4, wal_SpendToOutputsDetailedIgnoringFixed := w5\<rparr>,
       the_node := (the_node A)\<lparr>node_SpendCustom := n1, node_BroadcastRaw := n2\<rparr>\<rparr>"
    unfolding but_spends_def by blast
  show pkg: "the_pkg B = the_pkg A" by (simp add: B)
  have addr: "walletAddresses B = walletAddresses A" by (intro ext) (simp add: B walletAddresses_def Let_def)
  show proto: "walletProtoLocked B = walletProtoLocked A"
    by (intro ext) (simp add: walletProtoLocked_def addr, simp add: B)
  show "walletProto B = walletProto A" by (intro ext) (simp add: walletProto_def proto)
  show snap: "saveSnapshotLocked B = saveSnapshotLocked A" by (intro ext) (simp add: saveSnapshotLocked_def B)
  show "saveSnapshot B = saveSnapshot A" by (intro ext) (simp add: saveSnapshot_def snap)
  have io: "input_proto B = input_proto A" "output_proto B = output_proto A"
    by (intro ext, simp add: input_proto_def output_proto_def B)+
  show "transactionProto B = transactionProto A" by (intro ext) (unfold transactionProto_def io, rule refl)
  have sel: "wal_SetStore (the_wallet B) = wal_SetStore (the_wallet A)"
    "wal_LoadAddressSnapshot (the_wallet B) = wal_LoadAddressSnapshot (the_wallet A)"
    "wal_SetNextIndices (the_wallet B) = wal_SetNextIndices (the_wallet A)"
    "wal_LoadFromStore (the_wallet B) = wal_LoadFromStore (the_wallet A)"
    by (simp_all add: B)
  show "attachWalletLocked B = attachWalletLocked A"
    by (intro ext) (unfold attachWalletLocked_def pkg sel, rule refl)
qed

lemma but_spends_enrol:
  assumes "but_spends A B"
  shows "CreateWallet B q = CreateWallet A q" and "RestoreWallet B rq = RestoreWallet A rq"
    and "GetWallet B q = GetWallet A q" and "ListWallets B lq = ListWallets A lq"
proof -
  note same = but_spends_same [OF assms]
  have node: "node_CreateWallet (the_node B) = node_CreateWallet (the_node A)" "node_RestoreWallet (the_node B) = node_RestoreWallet (the_node A)"
    using assms by (auto simp: but_spends_def)
  have rec: "record_wallet B = record_wallet A" by (intro ext) (simp add: record_wallet_def same)
  show "CreateWallet B q = CreateWallet A q" "RestoreWallet B rq = RestoreWallet A rq"
    unfolding CreateWallet_def RestoreWallet_def rec same node by (rule refl)+
  show "GetWallet B q = GetWallet A q" "ListWallets B lq = ListWallets A lq"
    unfolding GetWallet_def ListWallets_def same by (rule refl)+
qed

lemma other_calls_same:
  assumes "but_spends A B" and "\<not> spending r"
  shows "unary_call B r = unary_call A r"
proof (cases "\<exists>q. r = Req_ParseTransaction q")
  case True
  then show ?thesis by (auto simp: ParseTransaction_def but_spends_same [OF assms(1)])
next
  case False
  with assms(2) but_spends_enrol [OF assms(1)] assms(1) show ?thesis
    by (cases r) (auto simp: handler_defs but_spends_same [OF assms(1)] but_spends_def Let_def
        cong: if_cong sum.case_cong option.case_cong)
qed

text \<open>
  A spending call either makes a spend it was asked for, and then saves the snapshot, or is refused without effect:
  on every SDK of the family alike.
\<close>

definition makes :: "'n sdk \<Rightarrow> 'n service \<Rightarrow> rpc_request \<Rightarrow> spend \<Rightarrow> bool" where
  "makes A s r sp \<longleftrightarrow> asked A s r sp \<and> (\<exists>tw. \<forall>B m. but_spends A B \<longrightarrow> unary_call B r = Some m \<longrightarrow>
     m s = after_spend A tw (perform B sp (s_node s)) s)"

definition refused :: "'n sdk \<Rightarrow> 'n service \<Rightarrow> rpc_request \<Rightarrow> bool" where
  "refused A s r \<longleftrightarrow> (\<exists>e. \<forall>B m. but_spends A B \<longrightarrow> unary_call B r = Some m \<longrightarrow> m s = (Inl e, s))"

lemma refused_no_live:
  assumes "\<And>B. but_spends A B \<Longrightarrow> \<exists>f g. unary_call B r = Some (mapE g (bindE (wallet t w) f))"
    and "\<not> (\<exists>tw. live s t w tw)"
  shows "refused A s r"
proof -
  obtain e where "wallet t w s = (Inl e, s)" using no_live [OF assms(2)] by blast
  then have "m s = (Inl e, s)" if "but_spends A B" "unary_call B r = Some m" for B m
    using assms(1) [OF that(1)] that(2) by (auto simp: mapE_def bindE_apply)
  then show ?thesis unfolding refused_def by blast
qed

lemma after_spend_wallet:
  assumes "but_spends A B"
  shows "mapE resp (bindE (internalE (sdkE m)) (\<lambda>x. bindE (saveSnapshot B tw) (\<lambda>_. returnE (f x)))) s
    = after_spend A (Some tw) (mapE (\<lambda>x. resp (f x)) m (s_node s)) s"
  by (simp add: mapE_def after_spend_def bindE_apply [of "bindE _ _"] spend_then_save but_spends_same(5) [OF assms] bindE_apply [of m]
      returnE_apply split: prod.split sum.split)

lemma makes_live:
  assumes "asked A s r sp" and "live s t w tw"
    and "\<And>B. but_spends A B \<Longrightarrow> \<exists>resp g. unary_call B r = Some (mapE resp (bindE (wallet t w) g))
       \<and> mapE resp (g tw) s = after_spend A (Some tw) (perform B sp (s_node s)) s"
  shows "makes A s r sp"
  unfolding makes_def
proof (intro conjI assms(1) exI [of _ "Some tw"] allI impI)
  fix B m
  assume "but_spends A B" and "unary_call B r = Some m"
  with assms(3) [of B] show "m s = after_spend A (Some tw) (perform B sp (s_node s)) s"
    by (auto simp: with_live [OF assms(2)])
qed

lemma bindE_liftR: "bindE (liftR (Inr x)) f = f x" "bindE (liftR (Inl e)) f = throwE e" "bindE (throwE e) f = throwE e"
  by (simp_all add: bindE_def liftR_def throwE_def fun_eq_iff)

lemma mapE_throw: "mapE g (throwE e) s = (Inl e, s)"
  by (simp add: mapE_def bindE_apply throwE_apply)

lemma send_call: "(\<exists>sp. makes A s (Req_Send q) sp) \<or> refused A s (Req_Send q)"
proof (cases "\<exists>tw. live s (tenant_id q) (wallet_id q) tw")
  case True
  then obtain tw where l: "live s (tenant_id q) (wallet_id q) tw" by blast
  show ?thesis by (rule disjI1, rule exI, rule makes_live [OF asks_send [OF l] l]) (fastforce simp: Send_def after_spend_wallet)
next
  case False
  then show ?thesis by (intro disjI2 refused_no_live [of A _ "tenant_id q" "wallet_id q"]) (auto simp: Send_def)
qed

lemma send_all_call: "(\<exists>sp. makes A s (Req_SendAll q) sp) \<or> refused A s (Req_SendAll q)"
proof (cases "\<exists>tw. live s (tenant_id q) (wallet_id q) tw")
  case True
  then obtain tw where l: "live s (tenant_id q) (wallet_id q) tw" by blast
  show ?thesis by (rule disjI1, rule exI, rule makes_live [OF asks_all [OF l] l]) (fastforce simp: SendAll_def after_spend_wallet)
next
  case False
  then show ?thesis by (intro disjI2 refused_no_live [of A _ "tenant_id q" "wallet_id q"]) (auto simp: SendAll_def)
qed

lemma outPoints_same: "but_spends A B \<Longrightarrow> outPoints B xs = outPoints A xs"
  by (rule outPoints_cong) (simp add: but_spends_same)

lemma customInputs_eq: "but_spends A B \<Longrightarrow> customInputs B xs = customInputs A xs"
  by (induction xs) (simp_all add: but_spends_same split: sum.split)

lemma spend_to_outputs_call:
  "(\<exists>sp. makes A s (Req_SpendToOutputs q) sp) \<or> refused A s (Req_SpendToOutputs q)"
proof (cases "\<exists>tw. live s (tenant_id q) (wallet_id q) tw")
  case False
  then show ?thesis
    by (intro disjI2 refused_no_live [of A _ "tenant_id q" "wallet_id q"]) (auto simp: SpendToOutputs_def)
next
  case True
  then obtain tw where l: "live s (tenant_id q) (wallet_id q) tw" by blast
  note outs = same_outputs [of "SpendToOutputsReq_outputs q"]
  consider (any) "SpendToOutputsReq_from_inputs q = []" "\<not> SpendToOutputsReq_ignore_fixed_outputs q"
    | (ignoring) "SpendToOutputsReq_from_inputs q = []" "SpendToOutputsReq_ignore_fixed_outputs q"
    | (both) "SpendToOutputsReq_from_inputs q \<noteq> []" "SpendToOutputsReq_ignore_fixed_outputs q"
    | (bad) e where "SpendToOutputsReq_from_inputs q \<noteq> []" "\<not> SpendToOutputsReq_ignore_fixed_outputs q"
        "outPoints A (SpendToOutputsReq_from_inputs q) = Inl e"
    | (named) ins where "SpendToOutputsReq_from_inputs q \<noteq> []" "\<not> SpendToOutputsReq_ignore_fixed_outputs q"
        "outPoints A (SpendToOutputsReq_from_inputs q) = Inr ins"
    by (cases "outPoints A (SpendToOutputsReq_from_inputs q)") auto
  then show ?thesis
  proof cases
    case any
    show ?thesis
      by (rule disjI1, rule exI, rule makes_live [OF asks_outputs [OF l any outs] l])
        (use any in \<open>fastforce simp: SpendToOutputs_def Let_def after_spend_wallet\<close>)
  next
    case ignoring
    show ?thesis
      by (rule disjI1, rule exI, rule makes_live [OF asks_ignoring [OF l ignoring outs] l])
        (use ignoring in \<open>fastforce simp: SpendToOutputs_def Let_def after_spend_wallet\<close>)
  next
    case both
    then have "refused A s (Req_SpendToOutputs q)"
      unfolding refused_def
      by (intro exI [of _ "invalid ''from_inputs and ignore_fixed_outputs are mutually exclusive''"])
        (auto simp: SpendToOutputs_def with_live [OF l] Let_def bindE_liftR mapE_throw)
    then show ?thesis by blast
  next
    case bad
    then have "refused A s (Req_SpendToOutputs q)"
      unfolding refused_def
      by (intro exI [of _ e]) (auto simp: SpendToOutputs_def with_live [OF l] Let_def outPoints_same bindE_liftR mapE_throw)
    then show ?thesis by blast
  next
    case named
    show ?thesis
      by (rule disjI1, rule exI, rule makes_live [OF asks_from [OF l named(1,2) outPoints_coins [OF named(3)] outs] l])
        (use named in \<open>fastforce simp: SpendToOutputs_def Let_def outPoints_same bindE_liftR after_spend_wallet\<close>)
  qed
qed

lemma custom_call: "(\<exists>sp. makes A s (Req_BroadcastCustomSpend q) sp) \<or> refused A s (Req_BroadcastCustomSpend q)"
proof -
  have run: "mapE Resp_BroadcastCustomSpend (BroadcastCustomSpend B q) s =
      (if \<not> EnableCustomSpend (s_opts s) then (Inl (Status FailedPrecondition ''BroadcastCustomSpend disabled''), s)
       else case customInputs A (BroadcastCustomSpendReq_inputs q) of
          Inl e \<Rightarrow> (Inl e, s)
        | Inr ins \<Rightarrow> after_spend A None (perform B (Pay_custom ins (outputSpecs (BroadcastCustomSpendReq_outputs q))) (s_node s)) s)"
    if "but_spends A B" for B
    by (simp add: BroadcastCustomSpend_def mapE_def act_simps customInputs_eq [OF that] after_spend_def internalE_def sdkE_def
        split: sum.split prod.split)
  show ?thesis
  proof (cases "EnableCustomSpend (s_opts s)")
    case False
    then show ?thesis using run unfolding refused_def by auto
  next
    case True
    show ?thesis
    proof (cases "customInputs A (BroadcastCustomSpendReq_inputs q)")
      case (Inl e)
      then show ?thesis using run True unfolding refused_def by auto
    next
      case (Inr ins)
      have "makes A s (Req_BroadcastCustomSpend q) (Pay_custom ins (outputSpecs (BroadcastCustomSpendReq_outputs q)))"
        unfolding makes_def
        by (intro conjI asks_custom [OF True customInputs_same [OF Inr] same_outputs] exI [of _ None]) (auto simp: run Inr True)
      then show ?thesis by blast
    qed
  qed
qed

lemma raw_call: "(\<exists>sp. makes A s (Req_BroadcastRaw q) sp) \<or> refused A s (Req_BroadcastRaw q)"
proof -
  have "makes A s (Req_BroadcastRaw q) (Send_raw (BroadcastRawReq_raw_tx q))"
    unfolding makes_def
    by (intro conjI asks_raw exI [of _ None])
      (auto simp: BroadcastRaw_def mapE_def act_simps after_spend_def internalE_def sdkE_def split: sum.split prod.split)
  then show ?thesis by blast
qed

lemma spending_call: "spending r \<Longrightarrow> (\<exists>sp. makes A s r sp) \<or> refused A s r"
  by (cases r) (simp_all add: send_call send_all_call spend_to_outputs_call custom_call raw_call)

text \<open>A spending call that succeeds has made a spend it was asked for.\<close>

lemma spending_success:
  assumes "spending r" and "unary_call A r = Some m" and "m s = (Inr y, s')"
  shows "\<exists>sp n. asked A s r sp \<and> perform A sp (s_node s) = (Inr y, n)"
  using spending_call [OF assms(1), of A s]
proof (elim disjE exE)
  assume "refused A s r"
  then show ?thesis unfolding refused_def using assms(2,3) but_spends_refl by fastforce
next
  fix sp
  assume makes: "makes A s r sp"
  then obtain tw where "m s = after_spend A tw (perform A sp (s_node s)) s"
    unfolding makes_def using assms(2) but_spends_refl by blast
  with makes assms(3) show ?thesis
    by (auto simp: makes_def after_spend_def split: prod.splits sum.splits)
qed

section \<open>Property\<close>

text \<open>
  C18. Money moves only as it was asked for. Take two SDKs that differ only in their ways of spending, and agree on
  the spends a request asks for: from the live wallet it names, with exactly the outputs it lists, from exactly the
  coins it names if it names any. Then the call does and answers the same on both, so it can make no other
  spend; and a call that does not ask for one makes none at all. A spending call that succeeds has made a spend it was
  asked for, which the SDK reported as done, and answers with its result.
\<close>

theorem spends_only_as_asked:
  assumes "but_spends A B" and "\<forall>sp. asked A s r sp \<longrightarrow> perform A sp (s_node s) = perform B sp (s_node s)"
    and "unary_call A r = Some m" and "unary_call B r = Some m'"
  shows "m s = m' s
    \<and> (spending r \<longrightarrow> (\<forall>y. fst (m s) = Inr y \<longrightarrow> (\<exists>sp n. asked A s r sp \<and> perform A sp (s_node s) = (Inr y, n))))"
proof (cases "spending r")
  case False
  with other_calls_same [OF assms(1) False] assms(3,4) show ?thesis by simp
next
  case True
  from spending_call [OF True, of A s] show ?thesis
  proof (elim disjE exE)
    assume "refused A s r"
    then obtain e where "m s = (Inl e, s)" "m' s = (Inl e, s)"
      unfolding refused_def using assms(1,3,4) but_spends_refl by blast
    then show ?thesis by simp
  next
    fix sp
    assume makes: "makes A s r sp"
    then obtain tw where "m s = after_spend A tw (perform A sp (s_node s)) s" "m' s = after_spend A tw (perform B sp (s_node s)) s"
      unfolding makes_def using assms(1,3,4) but_spends_refl by blast
    with makes assms(2) spending_success [OF True assms(3)] show ?thesis
      unfolding makes_def by (metis prod.collapse)
  qed
qed

text \<open>An SDK that empties every wallet whatever else it is told, except to send an exact amount.\<close>

definition greedy_sdk :: "nat sdk" where
  "greedy_sdk = demo_sdk\<lparr>the_wallet := (the_wallet demo_sdk)\<lparr>
     wal_Send := (\<lambda>h a v n. if a = ''mine'' \<and> v = 5 then (Inr ''txid'', Suc n) else (Inr ''all'', 0)),
     wal_SendAll := (\<lambda>h a n. (Inr ''all'', 0)), wal_SpendToOutputsDetailed := (\<lambda>h outs n. (Inr None, 0))\<rparr>\<rparr>"

theorem spends_only_as_asked_witness:
  "let r = Req_Send \<lparr>tenant_id = ''acme'', wallet_id = ''hot'', SendReq_to_address = ''mine'', SendReq_amount_satoshis = 5\<rparr>
   in \<exists>m m'. unary_call demo_sdk r = Some m \<and> unary_call greedy_sdk r = Some m' \<and> m one_wallet = m' one_wallet"
proof -
  let ?r = "Req_Send \<lparr>tenant_id = ''acme'', wallet_id = ''hot'', SendReq_to_address = ''mine'', SendReq_amount_satoshis = 5\<rparr>"
  obtain m m' where m: "unary_call demo_sdk ?r = Some m" "unary_call greedy_sdk ?r = Some m'" by simp
  have "but_spends demo_sdk greedy_sdk"
    unfolding but_spends_def
    by (rule exI [of _ "wal_Send (the_wallet greedy_sdk)"], rule exI [of _ "wal_SendAll (the_wallet greedy_sdk)"],
        rule exI [of _ "wal_SpendToOutputsDetailed (the_wallet greedy_sdk)"], rule exI [of _ "wal_SpendToOutputsDetailedFrom (the_wallet demo_sdk)"],
        rule exI [of _ "wal_SpendToOutputsDetailedIgnoringFixed (the_wallet demo_sdk)"],
        rule exI [of _ "node_SpendCustom (the_node demo_sdk)"], rule exI [of _ "node_BroadcastRaw (the_node demo_sdk)"])
      (unfold greedy_sdk_def demo_sdk_def demo_node_def demo_wallet_def, simp)
  moreover have "\<forall>sp. asked demo_sdk one_wallet ?r sp \<longrightarrow> perform demo_sdk sp (s_node one_wallet) = perform greedy_sdk sp (s_node one_wallet)"
    by (auto elim!: asked.cases simp: greedy_sdk_def mapE_def)
  ultimately show ?thesis using spends_only_as_asked [OF _ _ m] m by (simp add: Let_def)
qed

end
