(* ===== verification/Lost_Replies.thy ===== *)
theory Lost_Replies
  imports Demo_Net Spending
begin

text \<open>
  What a settlement does on a running server when the reply of a spend is lost on its way back.
\<close>

lemma spend_stub:
  "cl_SpendToOutputs (net_client A i ctx dial) req = Invoke (server_conn A i ctx) (Req_SpendToOutputs req)
     (\<lambda>y. case y of Resp_SpendToOutputs v \<Rightarrow> Some v | _ \<Rightarrow> None)"
  by (simp add: net_client_def NewBSVMSClient_def client_SpendToOutputs_def)

lemma spend_lost:
  assumes "ev_fate ev = Reply_lost d e" and "serve_unary A i ctx (Req_SpendToOutputs req) (arrived A i ev s) = (r, s')"
  shows "cl_SpendToOutputs (net_client A i ctx dial) req (s, ev ## evs) = (Inl e, d, (s', evs))"
  using assms by (simp add: spend_stub Invoke_def server_conn_def net_call_def bindT_apply returnT_apply)

lemma spend_delivered:
  assumes "ev_fate ev = Delivered d"
    and "serve_unary A i ctx (Req_SpendToOutputs req) (arrived A i ev s) = (Inr (Resp_SpendToOutputs v), s')"
  shows "cl_SpendToOutputs (net_client A i ctx dial) req (s, ev ## evs) = (Inr v, d, (s', evs))"
  using assms by (simp add: spend_stub Invoke_def server_conn_def net_call_def bindT_apply returnT_apply)

text \<open>A call that the server answers with success has got past the interceptor, if there is one.\<close>

lemma served:
  assumes "serve_unary A i ctx r s = (Inr y, s')"
  shows "\<exists>m. unary_call A r = Some m \<and> m s = (Inr y, s')"
  using assms by (auto simp: serve_unary_def throwE_apply UnaryAuthInterceptor_def bindE_apply authorizeE_def
      split: option.splits if_splits sum.splits prod.splits)

text \<open>That the server has paid: it answered, and the SDK made a spend that the request asked for.\<close>

definition pays :: "'n sdk \<Rightarrow> bool \<Rightarrow> call_context \<Rightarrow> SpendToOutputsRequest \<Rightarrow> 'n service \<Rightarrow> SpendDetailResponse \<Rightarrow> 'n service \<Rightarrow> bool" where
  "pays A i ctx req s paid s' \<longleftrightarrow> serve_unary A i ctx (Req_SpendToOutputs req) s = (Inr (Resp_SpendToOutputs paid), s')
     \<and> (\<exists>sp n. asked A s (Req_SpendToOutputs req) sp \<and> perform A sp (s_node s) = (Inr (Resp_SpendToOutputs paid), n))"

lemma served_pays:
  assumes "serve_unary A i ctx (Req_SpendToOutputs req) s = (Inr (Resp_SpendToOutputs paid), s')"
  shows "pays A i ctx req s paid s'"
  using served [OF assms] spending_success [of "Req_SpendToOutputs req"] assms by (fastforce simp: pays_def)

text \<open>
  C40. A lost reply is paid for twice. Suppose a settlement sends its spend, the server makes the payment, and
  the reply is lost, while there is still time and with an error that does not speak of missing peers; and that the
  server also makes the payment when it is sent again a second later. Then the loop has sent it again: the wallet
  has paid twice, and the settlement comes back with the second transaction alone, as if the hand had been
  settled once.
\<close>

theorem lost_reply_pays_again:
  assumes "ev_fate ev1 = Reply_lost d1 e" and "\<not> Contains (error_text e) ''no connected peers''" and "int d1 \<le> left"
    and "serve_unary A i ctx (Req_SpendToOutputs req) (arrived A i ev1 s) = (Inr (Resp_SpendToOutputs paid1), s1)"
    and "ev_fate ev2 = Delivered d2"
    and "serve_unary A i ctx (Req_SpendToOutputs req) (arrived A i ev2 s1) = (Inr (Resp_SpendToOutputs paid2), s2)"
  shows "settle_loop (net_client A i ctx dial) getenv req left (s, ev1 ## ev2 ## evs)
       = (Inr (detail_txid paid2), d1 + a_second + d2, (s2, evs))
     \<and> pays A i ctx req (arrived A i ev1 s) paid1 s1 \<and> pays A i ctx req (arrived A i ev2 s1) paid2 s2"
proof -
  let ?C = "net_client A i ctx dial"
  have "settle_pass ?C getenv req (s, ev1 ## ev2 ## evs) = (Inr (Inr e), d1, (s1, ev2 ## evs))"
    using spend_lost [OF assms(1,4)] assms(2) by (simp add: settle_pass_def bindT_apply returnT_apply)
  moreover have "settle_pass ?C getenv req (s1, ev2 ## evs) = (Inr (Inl (detail_txid paid2)), d2, (s2, evs))"
    using spend_delivered [OF assms(5,6)] by (simp add: settle_pass_def bindT_apply returnT_apply)
  ultimately have "settle_loop ?C getenv req left (s, ev1 ## ev2 ## evs) = (Inr (detail_txid paid2), d1 + a_second + d2, (s2, evs))"
    using assms(3) by (simp add: settle_loop.simps [of ?C getenv req left "(s, ev1 ## ev2 ## evs)"]
        settle_loop.simps [of ?C getenv req _ "(s1, ev2 ## evs)"])
  with served_pays assms(4,6) show ?thesis by blast
qed

text \<open>A service with the player's wallet, on an SDK that numbers the transactions it sends.\<close>

definition paying_sdk :: "nat sdk" where
  "paying_sdk = demo_sdk\<lparr>the_wallet := (the_wallet demo_sdk)\<lparr>wal_SpendToOutputsDetailed := (\<lambda>h outs n.
     (Inr (Some \<lparr>sd_TxID = show_nat n, sd_SpentUTXOs = [], sd_ChangeUTXO = None, sd_RawTx = []\<rparr>), Suc n))\<rparr>\<rparr>"

definition player_service :: "nat service" where
  "player_service = demo_service\<lparr>s_wallets :=
     [(walletKey tenantID playerWallet, \<lparr>tw_meta = legacy_meta, tw_w = 0, tw_store = 0, tw_rescanning = False\<rparr>)]\<rparr>"

lemma player_pays:
  assumes "lookup_wallet s (walletKey tenantID playerWallet) = Some tw"
  shows "serve_unary paying_sdk False ctx (Req_SpendToOutputs (settle_request playerWallet [])) s
    = (Inr (Resp_SpendToOutputs \<lparr>SpendDetailResp_detail = Some \<lparr>SpendDetail_txid = show_nat (s_node s), SpendDetail_spent_utxos = [],
        SpendDetail_change_utxo = None, SpendDetail_raw_tx = []\<rparr>\<rparr>), s\<lparr>s_node := Suc (s_node s)\<rparr>)"
proof -
  have "wallet tenantID playerWallet s = (Inr tw, s)"
    using assms by (simp add: wallet_success tenantID_def playerWallet_def id_first_def id_rest_def byte_val_def)
  then show ?thesis
    by (simp add: serve_unary_def SpendToOutputs_def settle_request_def mapE_def act_simps paying_sdk_def internalE_def sdkE_def
        saveSnapshot_def saveSnapshotLocked_def sdkQ_def spendDetail_def utxos_def outputSpecs_def Let_def)
qed

lemma player_lookup:
  "lookup_wallet (player_service\<lparr>clock := t\<rparr>) (walletKey tenantID playerWallet)
     = Some \<lparr>tw_meta = legacy_meta, tw_w = 0, tw_store = 0, tw_rescanning = False\<rparr>"
  "lookup_wallet (player_service\<lparr>clock := t, s_node := n\<rparr>) (walletKey tenantID playerWallet)
     = Some \<lparr>tw_meta = legacy_meta, tw_w = 0, tw_store = 0, tw_rescanning = False\<rparr>"
  by (simp_all add: player_service_def lookup_wallet_def)

theorem lost_reply_pays_again_witness:
  "\<exists>y. settle_loop (net_client paying_sdk False None (\<lambda>_. Inr ())) (\<lambda>_. []) (settle_request playerWallet []) (60 * int a_second)
      (player_service, \<lparr>ev_others = [], ev_time = 0, ev_fate = Reply_lost 5 (ErrText ''transport is closing'')\<rparr>
        ## \<lparr>ev_others = [], ev_time = 2, ev_fate = Delivered 7\<rparr> ## sconst \<lparr>ev_others = [], ev_time = 3, ev_fate = Delivered 0\<rparr>)
    = (Inr ''1'', 12 + a_second, y) \<and> s_node (fst y) = 2"
proof -
  let ?ev1 = "\<lparr>ev_others = [], ev_time = 0, ev_fate = Reply_lost 5 (ErrText ''transport is closing'')\<rparr>"
    and ?ev2 = "\<lparr>ev_others = [], ev_time = 2, ev_fate = Delivered 7\<rparr>" and ?q = "settle_request playerWallet []"
  let ?paid = "\<lambda>n. \<lparr>SpendDetailResp_detail = Some \<lparr>SpendDetail_txid = show_nat n, SpendDetail_spent_utxos = [],
      SpendDetail_change_utxo = None, SpendDetail_raw_tx = []\<rparr>\<rparr>"
  have node: "s_node player_service = 0" by (simp add: player_service_def demo_service_def fresh_service_def host.defs service.defs)
  have at: "arrived paying_sdk False ?ev1 player_service = player_service\<lparr>clock := 0\<rparr>"
    "arrived paying_sdk False ?ev2 (player_service\<lparr>clock := 0, s_node := 1\<rparr>) = player_service\<lparr>clock := 2, s_node := 1\<rparr>"
    by (simp_all add: arrived_def)
  have 1: "serve_unary paying_sdk False None (Req_SpendToOutputs ?q) (arrived paying_sdk False ?ev1 player_service)
      = (Inr (Resp_SpendToOutputs (?paid 0)), player_service\<lparr>clock := 0, s_node := 1\<rparr>)"
    unfolding at by (simp add: player_pays [OF player_lookup(1)] node)
  have 2: "serve_unary paying_sdk False None (Req_SpendToOutputs ?q)
        (arrived paying_sdk False ?ev2 (player_service\<lparr>clock := 0, s_node := 1\<rparr>))
      = (Inr (Resp_SpendToOutputs (?paid 1)), player_service\<lparr>clock := 2, s_node := 2\<rparr>)"
    unfolding at by (simp add: player_pays [OF player_lookup(2)])
  have no: "\<not> Contains (error_text (ErrText ''transport is closing'')) ''no connected peers''" by code_simp
  have "show_nat 1 = ''1''" by code_simp
  then have txid: "detail_txid (?paid 1) = ''1''" by (simp add: detail_txid_def)
  have "settle_loop (net_client paying_sdk False None (\<lambda>_. Inr ())) (\<lambda>_. []) ?q (60 * int a_second) (player_service, ?ev1 ## ?ev2 ## evs)
      = (Inr (detail_txid (?paid 1)), 5 + a_second + 7, (player_service\<lparr>clock := 2, s_node := 2\<rparr>, evs))" for evs
    by (rule conjunct1 [OF lost_reply_pays_again [OF _ no _ 1 _ 2]]) (simp_all add: a_second_def)
  then show ?thesis unfolding txid by simp
qed

end
