(* ===== verification/Spec2Isabelle.thy ===== *)
theory Spec2Isabelle
  imports Registry_Faults Auth_Props Streams Rescan_Props Durability Lost_Replies
begin

text \<open>
  Verification of \<^bold>\<open>bsvms\<close>, a gRPC service that keeps Bitcoin SV wallets for many tenants, and of its demo
  client. All paths are under \<^verbatim>\<open>src/\<close>.

  \<^bold>\<open>The program.\<close> \<^verbatim>\<open>cmd/bsvms/main.go\<close> reads its settings, connects the SDK's node and serves the object of
  \<^verbatim>\<open>internal/service\<close>. The service holds a registry of wallets, each named by a tenant and a wallet
  identifier; it writes the list of wallets to a JSON state file in which the secrets are sealed
  (\<^verbatim>\<open>encryption.go\<close>) under a key from the options (\<^verbatim>\<open>options.go\<close>); it checks bearer tokens per call
  (\<^verbatim>\<open>auth.go\<close>); its handlers (\<^verbatim>\<open>service.go\<close>) pass calls on to the wallet of the SDK they name, and SDK
  events reach clients through brokers and streams. \<^verbatim>\<open>cmd/blackjack/main.go\<close> is a client that settles a card
  game with two such wallets.

  \<^bold>\<open>How it is modelled.\<close> A Go function is a HOL function of the same name. Methods of the service are
  actions: functions from the state to a result (an error or a value) and the new state, composed by
  \<open>bindE\<close>, which is the early return on an error. The state is the record \<open>service\<close>, an extension of the
  record \<open>host\<close> (files with faults, randomness, clock). Code under the service's mutex is one action.
  Goroutines are step relations or explicit interleavings. Go strings are Isabelle strings (bytes), \<^verbatim>\<open>uint32\<close>
  and bytes are words, the other integers are \<open>int\<close> with the conversions \<open>to_int32\<close> and \<open>to_int64\<close> where the
  source converts. The SDK is not part of the repository: it is the parameter \<open>sdk\<close>, records of functions
  over an arbitrary node state, and no law is assumed of it. \<open>Demo_Sdk\<close> is a concrete instance, on which
  the theorems are applied.

  \<^bold>\<open>Theories\<close>, and the code they model.
  \<^item> \<open>Prelude\<close>: errors, actions, frames (locale \<open>frame_relation\<close>), integer conversions. \<open>Go_Strings\<close>,
    \<open>Go_Encoding\<close> (base64 and hexadecimal, locale \<open>codec\<close>), \<open>Go_Crypto\<close> (SHA-256, HMAC, AES-256-GCM written
    out, locale \<open>aead\<close>), \<open>Go_OS\<close>, \<open>Go_Json\<close> (printer and parser with their round trip, locale \<open>json_layout\<close>)
    \<open>Go_Time\<close> (waiting and retry loops) and \<open>Go_Float\<close> (\<^verbatim>\<open>float64\<close>: rounding, reading, printing): what the code uses of Go's standard library.
  \<^item> \<open>Encryption\<close>: \<^verbatim>\<open>encryption.go\<close>. \<open>Options\<close>: \<^verbatim>\<open>options.go\<close>. \<open>Jwt\<close>, \<open>Auth\<close>: \<^verbatim>\<open>auth.go\<close>, with the theorems on it
    in \<open>Auth_Props\<close>.
  \<^item> \<open>Messages\<close>: the messages of \<^verbatim>\<open>gen/bsvms/v1/bsvms.pb.go\<close> as records, and their string fields by name, which
    is what reflection gives the authorization code. \<open>Sdk\<close>: the SDK's interface.
  \<^item> \<open>State_File\<close>, \<open>Registry\<close>: identifiers, state file and registry of \<^verbatim>\<open>service.go\<close>, from \<^verbatim>\<open>NewWithOptions\<close> to
    \<^verbatim>\<open>Close\<close>. \<open>Registry_Inv\<close>: what each operation does, the invariant \<open>registry_inv\<close>, the abstract view \<open>vault\<close> (a
    map from identities to secrets) and the locale \<open>enroller\<close>, the contract of the two operations that add
    a wallet. \<open>Registry_Start\<close>: the start-up loop with its migration. \<open>Registry_Props\<close>: the theorems;
    \<open>Registry_Faults\<close>: a registry whose disk fails, beside the same one on a working disk.
  \<^item> \<open>Broker\<close>: the event broker and the stream loop (locale \<open>bounded_fifo\<close>). \<open>Handlers\<close>: all unary handlers.
    \<open>Dispatch\<close>: the generated table of \<^verbatim>\<open>bsvms_grpc.pb.go\<close>. \<open>Dispatch_Props\<close>: theorems over all calls. \<open>Spending\<close>:
    which calls move money, by comparing SDKs that differ in nothing but their ways of spending. \<open>Streams\<close>:
    the event streams. \<open>Rescan\<close>, \<open>Rescan_Props\<close>: the rescan call, its two goroutines, and many such calls on
    one service.
  \<^item> \<open>Server\<close>, \<open>Server_Props\<close>: \<^verbatim>\<open>cmd/bsvms/main.go\<close>. \<open>Durability\<close>: what a restart finds.
    \<open>Blackjack_Cards\<close>, \<open>Blackjack\<close>, \<open>Blackjack_Props\<close>: the game and the
    client of \<^verbatim>\<open>cmd/blackjack/main.go\<close>; \<open>Blackjack_Fund\<close>, \<open>Blackjack_Fund_Props\<close>: its funding tool, with a small logic
    (\<open>traces\<close>, \<open>succeeds\<close>) to follow what its programs ask for. \<open>Blackjack_Frame\<close>, \<open>Blackjack_Fund_Frame\<close>: what these
    programs keep when the calls they make keep it (locales \<open>setup_client\<close>, \<open>playing_client\<close>, \<open>node_transport\<close>,
    \<open>checking_client\<close>, \<open>funding_client\<close>), used with a ledger of the calls and with the service itself.
  \<^item> \<open>Grpc_Client\<close>: the generated client stubs, and their calls on a running server over a network that may
    lose them and beside other clients. \<open>Demo_Net\<close>, and this theory: the whole demo run on such a server.
    \<open>Lost_Replies\<close>: a settlement on it whose reply is lost.

  \<^bold>\<open>What is shown.\<close>
  \<^item> Authorization: a call that names a tenant passes only with a genuine, unexpired access token for it or
    as the creation of a wallet that does not exist; nothing else passes unauthenticated; every call of
    the interface is classified; no stream is served without a token for the tenant it names; issued tokens validate and cannot be
    exchanged for one another; events reach only clients of their tenant; and a server that was started
    with authentication keeps all this up through any sequence of calls.
  \<^item> Registry: creating and restoring refine insertion into the vault; what was acknowledged survives
    later calls, failing file operations and a restart; start-up seals every secret and loses none; the state file is replaced atomically; no call
    changes or loses another wallet; a wallet call reaches only the wallet it names; money moves only by the
    five spending calls, and only as the request asks.
  \<^item> Sealing, secrets and options: round trips, and that only sealed values open.
  \<^item> Concurrency: bounded, ordered, lossless-while-not-full delivery of events; at most one rescan per
    wallet under every interleaving, with termination and a truthful stream.
  \<^item> Demo: the value of a hand against its reference, the deck never runs out, and each hand is settled with the
    very outputs built for its winner, the spend being repeated only after an error; the funding tool pays
    each wallet, at the address the service gave for it, exactly what it is short of, and its waits succeed when the node
    reports enough in time. Run on a server, the demo keeps the registry and everyone else's wallets
    whichever calls are lost, and gets nowhere when the server asks for tokens.
  \<^item> Flaws, as theorems: a failed save leaves a wallet registered; a wallet's token is accepted for calls on
    the whole tenant; a raw key of base64 letters is not accepted; a payment whose reply is lost is made again; a
    node balance may be read one satoshi short, so that a wait for exactly that balance fails.

  \<^bold>\<open>Fuel and bounds.\<close> Loops are structural or proved to terminate. The JSON parser has fuel: the length of
  its input, which \<open>jvalue_enough\<close> shows to be enough. Broker subscription numbers are 64-bit; the theorems
  about a reader assume fewer than \<open>2 ^ 63\<close> subscriptions. The fault fields of \<open>host\<close> let every file operation
  fail; \<open>honest_reads\<close> says that a failing read is not reported as a missing file.
  A \<^verbatim>\<open>float64\<close> is a rational; infinities and NaN do not arise, since what is read is finite and a product out of
  range is only converted to \<^verbatim>\<open>int64\<close>, where it is out of range as well. The node behind the funding tool is
  an arbitrary HTTP transport.

  \<^bold>\<open>Not modelled.\<close> The SDK itself (third party). Protobuf encoding and descriptors, and the generated client
  stubs that no program of the repository calls. gRPC itself: what becomes of a call is left open. The delivery of signals, TLS and transport. Secrecy and unforgeability of the ciphers, which
  are computational notions. In the demo, terminal output. Deployment files hold no program logic.
\<close>

section \<open>A run of the demo\<close>

text \<open>
  The funding tool on the service of the example, over a network that delivers every call at once, with
  a node that answers every request with a number.
\<close>

definition smooth :: "net_event stream" where
  "smooth = sconst \<lparr>ev_others = [], ev_time = 0, ev_fate = Delivered 0\<rparr>"

abbreviation demo_client :: "nat net client" where
  "demo_client \<equiv> net_client demo_sdk False (Some []) (\<lambda>_. Inr ())"

lemma smooth_call:
  "net_call A i m (s, smooth) = (case m (s\<lparr>clock := 0\<rparr>) of (r, s') \<Rightarrow> (r, 0, (s', smooth)))"
  by (simp add: net_call_def arrived_def smooth_def)

lemma open_guard: "guarded False ctx r m = m"
  by (simp add: guarded_def)

lemmas smooth_calls = net_client_calls smooth_call open_guard

lemma clock_facts:
  "lookup_wallet (s\<lparr>clock := t\<rparr>) k = lookup_wallet s k" "able n (s\<lparr>clock := t\<rparr>) = able n s"
  by (simp_all add: lookup_wallet_def able_def)

lemma GetWallet_found:
  assumes "idRE (tenant_id q)" and "idRE (wallet_id q)" and "lookup_wallet s (walletKey (tenant_id q) (wallet_id q)) = Some tw"
  shows "\<exists>resp. GetWallet A q s = (Inr resp, s)"
proof -
  have "wallet (tenant_id q) (wallet_id q) s = (Inr tw, s)"
    using assms by (simp add: wallet_success)
  then show ?thesis by (simp add: GetWallet_def bindE_apply walletProto_def act_simps sdkQ_def)
qed

lemma GetWallet_missing:
  assumes "idRE (tenant_id q)" and "idRE (wallet_id q)" and "lookup_wallet s (walletKey (tenant_id q) (wallet_id q)) = None"
  shows "GetWallet A q s = (Inl (Status NotFound ''wallet not found''), s)"
  using wallet_unknown [OF assms] by (simp add: GetWallet_def bindE_apply)

lemma blackjack_ids: "idRE tenantID" "idRE playerWallet" "idRE houseWallet"
  by (simp_all add: tenantID_def playerWallet_def houseWallet_def id_first_def id_rest_def byte_val_def)

lemma ensure_able:
  assumes "able (Suc k) s" and "idRE wid" and "lookup_wallet s (walletKey tenantID wid) = None"
  shows "\<exists>w d s' tw. ensureWallet demo_client wid (s, smooth) = (Inr w, d, (s', smooth)) \<and> w_id w = wid \<and> able k s' \<and> clock s' = 0
    \<and> lookup_wallet s' = (lookup_wallet s)(walletKey tenantID wid \<mapsto> tw)"
proof -
  let ?q = "own_wallet wid" and ?s = "s\<lparr>clock := 0\<rparr>"
  have miss: "GetWallet demo_sdk ?q ?s = (Inl (Status NotFound ''wallet not found''), ?s)"
    using GetWallet_missing [of ?q ?s demo_sdk] blackjack_ids(1) assms(2,3) by (simp add: own_wallet_def clock_facts)
  obtain resp s1 where c: "CreateWallet demo_sdk ?q ?s = (Inr resp, s1)" "able k s1"
    using create_able [OF blackjack_ids(1) assms(2), of k ?s] assms(1,3) unfolding own_wallet_def by (auto simp: clock_facts)
  obtain tw where tw: "lookup_wallet s1 = (lookup_wallet s)(walletKey tenantID wid \<mapsto> tw)"
    using enrolled_lookup [OF create.add_success(4) [OF c(1)]] by (auto simp: own_wallet_def clock_facts fun_eq_iff)
  let ?s2 = "s1\<lparr>clock := 0\<rparr>"
  have tw2: "lookup_wallet ?s2 (walletKey tenantID wid) = Some tw" using tw by (simp add: clock_facts)
  then obtain got where got: "GetWallet demo_sdk ?q ?s2 = (Inr got, ?s2)"
    using GetWallet_found [of ?q ?s2 tw demo_sdk] blackjack_ids(1) assms(2) by (auto simp: own_wallet_def)
  have "\<exists>a. NewAddress demo_sdk ?q ?s2 = (Inr a, ?s2)"
  proof -
    have "wallet tenantID wid ?s2 = (Inr tw, ?s2)" using tw2 blackjack_ids(1) assms(2) by (simp add: wallet_success)
    then show ?thesis
      by (simp add: NewAddress_def own_wallet_def bindE_apply act_simps internalE_def sdkE_def saveSnapshot_def
          saveSnapshotLocked_def sdkQ_def Let_def)
  qed
  then have "\<exists>w d. ensureWallet demo_client wid (s, smooth) = (Inr w, d, (?s2, smooth)) \<and> w_id w = wid"
    by (auto simp: ensureWallet_def bindP_def bindT_apply smooth_calls or_fatal_def returnT_apply miss c got
        split: list.split option.split)
  moreover have "lookup_wallet ?s2 = (lookup_wallet s)(walletKey tenantID wid \<mapsto> tw)"
    using tw by (simp add: fun_eq_iff clock_facts)
  moreover have "able k ?s2" "clock ?s2 = 0" using c(2) by (simp_all add: clock_facts)
  ultimately show ?thesis by blast
qed

lemma demo_connects:
  assumes "clock s = 0"
  shows "connect demo_client addr (s, smooth) = (Inr (), 0, (s, smooth))"
    and "ensureRegtestPeer demo_client getenv (s, smooth) = (Inr (), 0, (s, smooth))"
proof -
  have "\<exists>st. Status_rpc demo_sdk s = (Inr st, s) \<and> StatusResp_peer_count st = 1"
    by (simp add: Status_rpc_def act_simps sdkQ_def to_int32_def)
  moreover have "s\<lparr>clock := clock s\<rparr> = s" by simp
  then have "s\<lparr>clock := 0\<rparr> = s" by (simp only: assms)
  ultimately obtain st where st: "cl_Status demo_client (s, smooth) = (Inr st, 0, (s, smooth))" "StatusResp_peer_count st = 1"
    by (auto simp: smooth_calls)
  show "connect demo_client addr (s, smooth) = (Inr (), 0, (s, smooth))"
    by (simp add: connect_def dial_pass_def bindT_apply returnT_apply retry_first st net_client_calls(1) a_second_def)
  have "retry (60 * a_second) (regtest_pass demo_client peer) None (s, smooth) = (Inl (), 0, (s, smooth))" for peer
    by (rule retry_first) (simp_all add: regtest_pass_def bindT_apply returnT_apply st a_second_def)
  then show "ensureRegtestPeer demo_client getenv (s, smooth) = (Inr (), 0, (s, smooth))"
    by (simp add: ensureRegtestPeer_def Let_def bindT_apply returnT_apply)
qed


definition counting_node :: "'n http" where
  "counting_node = (\<lambda>_. returnT (Inr (200, CHR ''{'' # json_string ''result'' @ '':1}'')))"

lemma node_counts: "waitReady (beside counting_node) N x = (Inr (), 0, x)"
proof -
  have one: "ParseInt ''1'' = Some 1" by code_simp
  have "blockCount (beside counting_node) N x = (Inr 1, 0, x)"
    by (cases x) (simp add: blockCount_def call_def bindT_apply beside_def counting_node_def returnT_apply one_coin_answers into_def one)
  then show ?thesis
    by (simp add: waitReady_def ready_pass_def bindT_apply returnT_apply retry_first a_second_def)
qed

lemma demo_holds:
  assumes "lookup_wallet s (walletKey tenantID (w_id w)) \<noteq> None" and "idRE (w_id w)" and "clock s = 0"
  shows "cl_ListUTXOs demo_client (own_wallet (w_id w)) (s, smooth) = (Inr \<lparr>ListUTXOsResp_utxos = []\<rparr>, 0, (s, smooth))"
    and "\<exists>bal. cl_Balance demo_client (own_wallet (w_id w)) (s, smooth) = (Inr bal, 0, (s, smooth)) \<and> BalanceResp_spendable bal = seedSatoshis"
proof -
  have "s\<lparr>clock := clock s\<rparr> = s" by simp
  then have s: "s\<lparr>clock := 0\<rparr> = s" by (simp only: assms(3))
  obtain tw where "wallet tenantID (w_id w) s = (Inr tw, s)"
    using assms blackjack_ids(1) wallet_success [of tenantID "w_id w" s] by auto
  then show "cl_ListUTXOs demo_client (own_wallet (w_id w)) (s, smooth) = (Inr \<lparr>ListUTXOsResp_utxos = []\<rparr>, 0, (s, smooth))"
    and "\<exists>bal. cl_Balance demo_client (own_wallet (w_id w)) (s, smooth) = (Inr bal, 0, (s, smooth)) \<and> BalanceResp_spendable bal = seedSatoshis"
    by (simp_all add: smooth_calls s own_wallet_def ListUTXOs_def Balance_def bindE_apply sdkQ_def utxos_def seedSatoshis_def)
qed

lemma demo_funds:
  assumes "\<forall>w \<in> set ws. lookup_wallet s (walletKey tenantID (w_id w)) \<noteq> None \<and> idRE (w_id w)" and "clock s = 0"
  shows "clear_wallets demo_client Do N ws (s, smooth) = (Inr (), 0, (s, smooth))
    \<and> sum_needed demo_client 0 ws (s, smooth) = (Inr 0, 0, (s, smooth))
    \<and> send_funds demo_client Do N [] ws (s, smooth) = (Inr [], 0, (s, smooth))"
  using assms
proof (induction ws)
  case (Cons w ws)
  obtain bal where "cl_Balance demo_client (own_wallet (w_id w)) (s, smooth) = (Inr bal, 0, (s, smooth))" "BalanceResp_spendable bal = seedSatoshis"
    using demo_holds(2) [of s w] Cons.prems by auto
  moreover have "cl_ListUTXOs demo_client (own_wallet (w_id w)) (s, smooth) = (Inr \<lparr>ListUTXOsResp_utxos = []\<rparr>, 0, (s, smooth))"
    using demo_holds(1) [of s w] Cons.prems by auto
  ultimately show ?case
    using Cons by (simp add: bindP_def bindT_apply or_fatal_def returnT_apply clearMissingUTXOs_def bindC_def)
qed (simp add: returnT_apply)

lemma demo_fund_run:
  "\<exists>d s'. blackjack_program demo_client (beside counting_node) (\<lambda>_. []) [''blackjack'', ''-fund''] [] r (demo_service, smooth)
     = (Inr (), d, (s', smooth))"
proof -
  have "lookup_wallet demo_service (walletKey tenantID wid) = None" for wid by (simp add: lookup_wallet_def)
  then obtain p d1 s1 tw where p: "ensureWallet demo_client playerWallet (demo_service, smooth) = (Inr p, d1, (s1, smooth))" "w_id p = playerWallet"
      "able 15 s1" "lookup_wallet s1 = (lookup_wallet demo_service)(walletKey tenantID playerWallet \<mapsto> tw)"
    using ensure_able [of 15 demo_service playerWallet] able_demo blackjack_ids(2) by auto
  have "lookup_wallet s1 (walletKey tenantID houseWallet) = None"
    by (simp add: p(4) walletKey_def playerWallet_def houseWallet_def lookup_wallet_def)
  then obtain h d2 s2 tw2 where h: "ensureWallet demo_client houseWallet (s1, smooth) = (Inr h, d2, (s2, smooth))" "w_id h = houseWallet"
      "clock s2 = 0" "lookup_wallet s2 = (lookup_wallet s1)(walletKey tenantID houseWallet \<mapsto> tw2)"
    using ensure_able [of 14 s1 houseWallet] p(3) blackjack_ids(3) by auto
  have "\<forall>w \<in> set [p, h]. lookup_wallet s2 (walletKey tenantID (w_id w)) \<noteq> None \<and> idRE (w_id w)"
    using blackjack_ids by (simp add: p(2,4) h(2,4))
  note funds = demo_funds [OF this h(3)]
  have "fund_wallets demo_client (beside counting_node) N [p, h] (s2, smooth) = (Inr (), 0, (s2, smooth))" for N
    unfolding fund_wallets_def by (simp add: bindP_def bindT_apply returnT_apply funds del: sum_needed.simps send_funds.simps)
  moreover have "clock demo_service = 0" by (simp add: demo_service_def fresh_service_def host.defs service.defs quiet_host_def)
  ultimately have "fundMain demo_client (beside counting_node) (\<lambda>_. []) (demo_service, smooth) = (Inr (), d1 + d2, (s2, smooth))"
    unfolding fundMain_def Let_def
    by (simp add: bindP_def bindT_apply returnT_apply fatal_on_def demo_connects node_counts p(1) h(1) funds del: clear_wallets.simps)
  then show ?thesis by (simp add: blackjack_program_def)
qed

section \<open>The demo on the service\<close>

text \<open>
  C34. The demo on a running server, with whatever flag it is started, whatever is typed, whichever of
  its calls are lost before or after the server has seen them, whatever calls of other clients the
  server answers in between, and however the demo ends: the registry invariant holds afterwards, every wallet
  the service had is there unchanged, and the settings are the same; when no other client was active, no
  wallet was added but the two of the demo. When the program came back without an error (and did more than
  print its version), both wallets are registered. On a server with authentication the demo, which sends
  no token, gives up and has changed nothing.
\<close>

theorem demo_runs_on_service:
  assumes "registry_inv s" and "blackjack_program (net_client A (AuthEnabled (s_opts s)) ctx dial) (beside f) getenv args input r (s, evs) = (res, d, s', evs')"
  shows "registry_inv s' \<and> (\<forall>k tw. lookup_wallet s k = Some tw \<longrightarrow> lookup_wallet s' k = Some tw) \<and> s_opts s' = s_opts s
    \<and> ((\<forall>ev \<in> sset evs. ev_others ev = []) \<longrightarrow> (\<forall>k. lookup_wallet s' k \<noteq> None \<longrightarrow> lookup_wallet s k \<noteq> None
          \<or> k = walletKey tenantID playerWallet \<or> k = walletKey tenantID houseWallet))
    \<and> (\<not> (length args = 2 \<and> args ! 1 = ''-version'') \<longrightarrow>
         (res = Inr () \<longrightarrow> lookup_wallet s' (walletKey tenantID playerWallet) \<noteq> None
            \<and> lookup_wallet s' (walletKey tenantID houseWallet) \<noteq> None)
       \<and> (AuthEnabled (s_opts s) \<and> no_token ctx \<longrightarrow> res \<noteq> Inr ()
            \<and> ((\<forall>ev \<in> sset evs. ev_others ev = []) \<longrightarrow> (\<exists>t. s' = s\<lparr>clock := t\<rparr>))))"
proof -
  let ?version = "length args = 2 \<and> args ! 1 = ''-version''"
  have step: "net_step (s, evs) (s', evs')" by (rule keepsT_run [OF on_net.frame_program assms(2)])
  have both: "lookup_wallet s' (walletKey tenantID playerWallet) \<noteq> None \<and> lookup_wallet s' (walletKey tenantID houseWallet) \<noteq> None"
    if "\<not> ?version" "res = Inr ()"
    using program_ensures [of A _ ctx dial f getenv args input r "(s, evs)" d "(s', evs')"] assms(2) that by simp
  have "res \<noteq> Inr () \<and> idle (s, evs) (s', evs')" if "\<not> ?version" "AuthEnabled (s_opts s)" "no_token ctx"
    using program_refused [of "(s, evs)" ctx args A dial "beside f" getenv input r] assms(2) that by auto
  with step both assms(1) show ?thesis
    unfolding net_step_def registry_step_def own_only_def demo_key_of_def idle_def undisturbed_def by simp
qed

theorem demo_runs_on_service_witness:
  "\<exists>d s'. blackjack_program (net_client demo_sdk (AuthEnabled (s_opts demo_service)) (Some []) (\<lambda>_. Inr ())) (beside counting_node)
        (\<lambda>_. []) [''blackjack'', ''-fund''] [] (sconst 0) (demo_service, smooth) = (Inr (), d, s', smooth)
    \<and> registry_inv demo_service \<and> registry_inv s' \<and> lookup_wallet s' (walletKey tenantID playerWallet) \<noteq> None
    \<and> lookup_wallet s' (walletKey tenantID houseWallet) \<noteq> None"
proof -
  obtain d s' where run: "blackjack_program (net_client demo_sdk (AuthEnabled (s_opts demo_service)) (Some []) (\<lambda>_. Inr ()))
      (beside counting_node) (\<lambda>_. []) [''blackjack'', ''-fund''] [] (sconst 0) (demo_service, smooth) = (Inr (), d, s', smooth)"
    using demo_fund_run [of "sconst 0"] by auto
  from demo_runs_on_service [OF demo_inv(1) run] run demo_inv(1) show ?thesis by auto
qed

end
